(* ===== verification/Mcp_Prelude.thy ===== *)
theory Mcp_Prelude
  imports Complex_Main "HOL-Library.Monad_Syntax"
begin

text \<open>
  Shared vocabulary of the development: the two failure layers of the Rust sources and the
  list lemmas the components use.

  \<^item> A function returning \<^verbatim>\<open>Result<T, E>\<close> is a HOL function into \<open>'e + 'a\<close>; the
    \<^verbatim>\<open>?\<close> operator is \<open>rbind\<close>.
  \<^item> A function that can panic (a string slice off a character boundary, \<^verbatim>\<open>expect\<close> on
    \<^verbatim>\<open>None\<close>) is a HOL function into \<open>'a option\<close>, \<open>None\<close> being the panic.
\<close>

section \<open>Lemma collections\<close>

named_theorems mcp_simps \<open>unfolding rules of the small helpers of the model\<close>
named_theorems mcp_splits \<open>case splits on the failure layers\<close>
named_theorems ident_intros \<open>closure rules of the identifier class\<close>

section \<open>Results\<close>

type_synonym ('e, 'a) result = "'e + 'a"

definition rbind :: "'e + 'a \<Rightarrow> ('a \<Rightarrow> 'e + 'b) \<Rightarrow> 'e + 'b" where
  "rbind m f = (case m of Inl e \<Rightarrow> Inl e | Inr x \<Rightarrow> f x)"

definition rmap :: "('a \<Rightarrow> 'b) \<Rightarrow> 'e + 'a \<Rightarrow> 'e + 'b" where
  "rmap f m = (case m of Inl e \<Rightarrow> Inl e | Inr x \<Rightarrow> Inr (f x))"

definition ok_or :: "'a option \<Rightarrow> 'e \<Rightarrow> 'e + 'a" where
  "ok_or m e = (case m of None \<Rightarrow> Inl e | Some x \<Rightarrow> Inr x)"

definition unwrap_or :: "'a option \<Rightarrow> 'a \<Rightarrow> 'a" where
  "unwrap_or m d = (case m of None \<Rightarrow> d | Some x \<Rightarrow> x)"

lemma rbind_simps [simp]:
  "rbind (Inl e) f = Inl e"
  "rbind (Inr x) f = f x"
  by (simp_all add: rbind_def)

lemma rmap_simps [simp]:
  "rmap g (Inl e) = Inl e"
  "rmap g (Inr x) = Inr (g x)"
  by (simp_all add: rmap_def)

lemma ok_or_simps [simp]:
  "ok_or None e = Inl e"
  "ok_or (Some x) e = Inr x"
  by (simp_all add: ok_or_def)

lemma unwrap_or_simps [simp]:
  "unwrap_or None d = d"
  "unwrap_or (Some x) d = x"
  by (simp_all add: unwrap_or_def)

lemma rbind_eq_Inr_iff: "rbind m f = Inr y \<longleftrightarrow> (\<exists>x. m = Inr x \<and> f x = Inr y)"
  by (cases m) auto

lemma rbind_eq_Inl_iff:
  "rbind m f = Inl e \<longleftrightarrow> m = Inl e \<or> (\<exists>x. m = Inr x \<and> f x = Inl e)"
  by (cases m) auto

lemma rmap_eq_Inr_iff: "rmap g m = Inr y \<longleftrightarrow> (\<exists>x. m = Inr x \<and> y = g x)"
  by (cases m) auto

lemma rmap_eq_Inl_iff [simp]: "rmap g m = Inl e \<longleftrightarrow> m = Inl e"
  by (cases m) auto

lemma ok_or_eq_Inr_iff [simp]: "ok_or m e = Inr x \<longleftrightarrow> m = Some x"
  by (cases m) auto

lemma ok_or_eq_Inl_iff [simp]: "ok_or m e = Inl e' \<longleftrightarrow> m = None \<and> e' = e"
  by (cases m) auto

lemmas result_iffs = rbind_eq_Inr_iff rbind_eq_Inl_iff rmap_eq_Inr_iff

section \<open>Traversals\<close>

fun traverse :: "('a \<Rightarrow> 'b option) \<Rightarrow> 'a list \<Rightarrow> 'b list option" where
  "traverse f [] = Some []"
| "traverse f (x # xs) =
     (case f x of None \<Rightarrow> None
      | Some y \<Rightarrow> (case traverse f xs of None \<Rightarrow> None | Some ys \<Rightarrow> Some (y # ys)))"

lemma traverse_all_Some:
  "(\<And>x. x \<in> set xs \<Longrightarrow> f x = Some (g x)) \<Longrightarrow> traverse f xs = Some (map g xs)"
  by (induction xs) auto

lemma traverse_Some_iff:
  "traverse f xs = Some ys \<longleftrightarrow> list_all2 (\<lambda>x y. f x = Some y) xs ys"
proof (induction xs arbitrary: ys)
  case Nil
  then show ?case by auto
next
  case IH: (Cons x xs)
  show ?case
  proof (cases ys)
    case Nil
    then show ?thesis by (auto split: option.splits)
  next
    case (Cons y ys')
    then show ?thesis
      using IH.IH [of ys'] by (cases "traverse f xs") (auto split: option.splits)
  qed
qed

lemma traverse_length: "traverse f xs = Some ys \<Longrightarrow> length ys = length xs"
  by (auto simp: traverse_Some_iff dest: list_all2_lengthD)

section \<open>Lists\<close>

text \<open>Order-preserving removal of later duplicates, as the linear \<^verbatim>\<open>contains\<close> loops do.\<close>

definition dedupe_onto :: "'a list \<Rightarrow> 'a list \<Rightarrow> 'a list" where
  "dedupe_onto acc xs = foldl (\<lambda>out v. if v \<in> set out then out else out @ [v]) acc xs"

lemma dedupe_onto_Nil [simp]: "dedupe_onto acc [] = acc"
  by (simp add: dedupe_onto_def)

lemma dedupe_onto_Cons:
  "dedupe_onto acc (x # xs) = dedupe_onto (if x \<in> set acc then acc else acc @ [x]) xs"
  by (simp add: dedupe_onto_def)

lemma set_dedupe_onto [simp]: "set (dedupe_onto acc xs) = set acc \<union> set xs"
  by (induction xs arbitrary: acc) (auto simp: dedupe_onto_Cons)

lemma distinct_dedupe_onto: "distinct acc \<Longrightarrow> distinct (dedupe_onto acc xs)"
  by (induction xs arbitrary: acc) (auto simp: dedupe_onto_Cons)

lemma dedupe_onto_distinct:
  "distinct (acc @ xs) \<Longrightarrow> dedupe_onto acc xs = acc @ xs"
  by (induction xs arbitrary: acc) (auto simp: dedupe_onto_Cons)

lemma length_dedupe_onto: "length (dedupe_onto acc xs) \<le> length acc + length xs"
proof (induction xs arbitrary: acc)
  case (Cons x xs)
  from Cons.IH [of acc] Cons.IH [of "acc @ [x]"] show ?case
    by (simp add: dedupe_onto_Cons)
qed simp

text \<open>A position-indexed list, as \<^verbatim>\<open>iter().enumerate()\<close> produces it.\<close>

definition enumerate0 :: "'a list \<Rightarrow> (nat \<times> 'a) list" where
  "enumerate0 xs = zip [0..<length xs] xs"

lemma length_enumerate0 [simp]: "length (enumerate0 xs) = length xs"
  by (simp add: enumerate0_def)

lemma map_snd_enumerate0 [simp]: "map snd (enumerate0 xs) = xs"
  by (simp add: enumerate0_def)

lemma in_set_enumerate0: "(i, x) \<in> set (enumerate0 xs) \<longleftrightarrow> i < length xs \<and> xs ! i = x"
  by (force simp: enumerate0_def set_zip)

lemma find_Some_in_set: "find P xs = Some x \<Longrightarrow> x \<in> set xs \<and> P x"
  by (induction xs) (auto split: if_splits)

lemma find_exists: "x \<in> set xs \<Longrightarrow> P x \<Longrightarrow> \<exists>y. find P xs = Some y"
  by (induction xs) auto

lemma find_distinct_key:
  assumes "distinct (map k xs)" and "x \<in> set xs"
  shows "find (\<lambda>y. k y = k x) xs = Some x"
  using assms by (induction xs) (auto simp: rev_image_eqI)

lemma map_filter_cong_set:
  "(\<And>x. x \<in> set xs \<Longrightarrow> f x = g x) \<Longrightarrow> List.map_filter f xs = List.map_filter g xs"
  by (induction xs) (auto split: option.splits)

end
