(* ===== verification/Rust_Str.thy ===== *)
theory Rust_Str
  imports Mcp_Prelude "HOL-Library.Sublist" "HOL-Library.Char_ord"
begin

text \<open>
  The parts of Rust's \<^verbatim>\<open>str\<close> and integer parsing that the sources use. A Rust string is its
  UTF-8 byte sequence, a HOL \<open>string\<close> whose \<open>char\<close>s are bytes: \<^verbatim>\<open>len()\<close> and every slice
  index count bytes, and a scan over \<^verbatim>\<open>chars()\<close> that only tests ASCII classes gives the same
  answer over bytes, since every byte of a non-ASCII character is 128 or above.
\<close>

section \<open>Bytes\<close>

definition byte :: "char \<Rightarrow> nat" where
  "byte c = of_char c"

definition is_ascii :: "char \<Rightarrow> bool" where
  "is_ascii c \<longleftrightarrow> byte c < 128"

definition is_ascii_lowercase :: "char \<Rightarrow> bool" where
  "is_ascii_lowercase c \<longleftrightarrow> 97 \<le> byte c \<and> byte c \<le> 122"

definition is_ascii_uppercase :: "char \<Rightarrow> bool" where
  "is_ascii_uppercase c \<longleftrightarrow> 65 \<le> byte c \<and> byte c \<le> 90"

definition is_ascii_digit :: "char \<Rightarrow> bool" where
  "is_ascii_digit c \<longleftrightarrow> 48 \<le> byte c \<and> byte c \<le> 57"

definition is_ascii_alphabetic :: "char \<Rightarrow> bool" where
  "is_ascii_alphabetic c \<longleftrightarrow> is_ascii_lowercase c \<or> is_ascii_uppercase c"

definition is_ascii_alphanumeric :: "char \<Rightarrow> bool" where
  "is_ascii_alphanumeric c \<longleftrightarrow> is_ascii_alphabetic c \<or> is_ascii_digit c"

lemmas ascii_defs = is_ascii_def is_ascii_lowercase_def is_ascii_uppercase_def
  is_ascii_digit_def is_ascii_alphabetic_def is_ascii_alphanumeric_def byte_def

definition ascii_lower :: "char \<Rightarrow> char" where
  "ascii_lower c = (if is_ascii_uppercase c then char_of (byte c + 32) else c)"

definition to_ascii_lowercase :: "string \<Rightarrow> string" where
  "to_ascii_lowercase s = map ascii_lower s"

lemma byte_less [simp]: "byte c < 256"
  by (simp add: byte_def)

lemma byte_inject [simp]: "byte c = byte d \<longleftrightarrow> c = d"
  by (simp add: byte_def)

lemma byte_char_of [simp]: "n < 256 \<Longrightarrow> byte (char_of n) = n"
  by (simp add: byte_def of_char_of)

lemma byte_ascii_lower:
  "byte (ascii_lower c) = (if is_ascii_uppercase c then byte c + 32 else byte c)"
  by (simp add: ascii_lower_def is_ascii_uppercase_def)

lemma ascii_lower_not_upper [simp]: "\<not> is_ascii_uppercase (ascii_lower c)"
  by (auto simp: is_ascii_uppercase_def byte_ascii_lower)

lemma ascii_lower_lower [simp]: "\<not> is_ascii_uppercase c \<Longrightarrow> ascii_lower c = c"
  by (simp add: ascii_lower_def)

section \<open>Character boundaries and slices\<close>

text \<open>A UTF-8 continuation byte is one of the form 10xxxxxx; a slice index must not point at one.\<close>

definition is_continuation :: "char \<Rightarrow> bool" where
  "is_continuation c \<longleftrightarrow> 128 \<le> byte c \<and> byte c < 192"

definition is_char_boundary :: "nat \<Rightarrow> string \<Rightarrow> bool" where
  "is_char_boundary i s \<longleftrightarrow>
     i = 0 \<or> i = length s \<or> (i < length s \<and> \<not> is_continuation (s ! i))"

text \<open>\<^verbatim>\<open>&s[..n]\<close> and \<^verbatim>\<open>&s[n..]\<close>: \<open>None\<close> is the panic of an index off a boundary.\<close>

definition slice_to :: "nat \<Rightarrow> string \<Rightarrow> string option" where
  "slice_to n s = (if is_char_boundary n s then Some (take n s) else None)"

definition slice_from :: "nat \<Rightarrow> string \<Rightarrow> string option" where
  "slice_from n s = (if is_char_boundary n s then Some (drop n s) else None)"

lemma is_char_boundary_ascii:
  assumes "list_all is_ascii s" and "n \<le> length s"
  shows "is_char_boundary n s"
proof (cases "n = length s")
  case False
  with assms(2) have "n < length s" by simp
  with assms(1) have "is_ascii (s ! n)" by (simp add: list_all_length)
  with \<open>n < length s\<close> show ?thesis
    by (simp add: is_char_boundary_def is_continuation_def is_ascii_def)
qed (simp add: is_char_boundary_def)

lemma slice_to_ascii: "list_all is_ascii s \<Longrightarrow> n \<le> length s \<Longrightarrow> slice_to n s = Some (take n s)"
  by (simp add: slice_to_def is_char_boundary_ascii)

text \<open>Well-formed UTF-8 (Unicode 15, table 3-7): what \<^verbatim>\<open>read_to_string\<close> accepts.\<close>

fun utf8_valid :: "string \<Rightarrow> bool" where
  "utf8_valid [] = True"
| "utf8_valid (a # s) =
     (if byte a < 0x80 then utf8_valid s
      else case s of
        [] \<Rightarrow> False
      | b # t \<Rightarrow>
          if 0xC2 \<le> byte a \<and> byte a \<le> 0xDF then is_continuation b \<and> utf8_valid t
          else case t of
            [] \<Rightarrow> False
          | c # u \<Rightarrow>
              if 0xE0 \<le> byte a \<and> byte a \<le> 0xEF then
                is_continuation b \<and> is_continuation c \<and> (byte a = 0xE0 \<longrightarrow> 0xA0 \<le> byte b)
                \<and> (byte a = 0xED \<longrightarrow> byte b \<le> 0x9F) \<and> utf8_valid u
              else case u of
                [] \<Rightarrow> False
              | d # v \<Rightarrow>
                  0xF0 \<le> byte a \<and> byte a \<le> 0xF4 \<and> is_continuation b \<and> is_continuation c \<and> is_continuation d
                  \<and> (byte a = 0xF0 \<longrightarrow> 0x90 \<le> byte b) \<and> (byte a = 0xF4 \<longrightarrow> byte b \<le> 0x8F) \<and> utf8_valid v)"

lemma utf8_valid_ascii: "list_all is_ascii s \<Longrightarrow> utf8_valid s"
  by (induction s) (simp_all add: is_ascii_def)

section \<open>Searching, splitting, joining\<close>

fun str_contains :: "string \<Rightarrow> string \<Rightarrow> bool" where
  "str_contains p [] = (p = [])"
| "str_contains p (c # s) = (prefix p (c # s) \<or> str_contains p s)"

lemma str_contains_iff: "str_contains p s \<longleftrightarrow> (\<exists>a b. s = a @ p @ b)"
proof (induction s)
  case Nil
  then show ?case by auto
next
  case (Cons c s)
  show ?case
  proof
    assume "str_contains p (c # s)"
    then consider "prefix p (c # s)" | "str_contains p s" by auto
    then show "\<exists>a b. c # s = a @ p @ b"
    proof cases
      case 1
      then obtain b where "c # s = [] @ p @ b" by (auto simp: prefix_def)
      then show ?thesis by blast
    next
      case 2
      with Cons.IH obtain a b where "s = a @ p @ b" by auto
      then have "c # s = (c # a) @ p @ b" by simp
      then show ?thesis by blast
    qed
  next
    assume "\<exists>a b. c # s = a @ p @ b"
    then obtain a b where ab: "c # s = a @ p @ b" by auto
    show "str_contains p (c # s)"
    proof (cases a)
      case Nil
      with ab have "prefix p (c # s)" by (simp add: prefix_def)
      then show ?thesis by simp
    next
      case (Cons c' a')
      with ab have "s = a' @ p @ b" by simp
      with Cons.IH show ?thesis by auto
    qed
  qed
qed

fun split_once :: "char \<Rightarrow> string \<Rightarrow> (string \<times> string) option" where
  "split_once c [] = None"
| "split_once c (x # s) =
     (if x = c then Some ([], s) else map_option (\<lambda>(a, b). (x # a, b)) (split_once c s))"

lemma split_once_None_iff: "split_once c s = None \<longleftrightarrow> c \<notin> set s"
  by (induction s) auto

lemma split_once_SomeD:
  assumes "split_once c s = Some (a, b)"
  shows "s = a @ c # b" and "c \<notin> set a"
  using assms by (induction s arbitrary: a) (auto split: if_splits)

lemma split_once_append: "c \<notin> set a \<Longrightarrow> split_once c (a @ c # b) = Some (a, b)"
  by (induction a) auto

definition strip_prefix :: "string \<Rightarrow> string \<Rightarrow> string option" where
  "strip_prefix p s = (if prefix p s then Some (drop (length p) s) else None)"

lemma strip_prefix_Some_iff: "strip_prefix p s = Some r \<longleftrightarrow> s = p @ r"
  by (auto simp: strip_prefix_def prefix_def)

fun str_split :: "char \<Rightarrow> string \<Rightarrow> string list" where
  "str_split c [] = [[]]"
| "str_split c (x # s) =
     (if x = c then [] # str_split c s
      else (case str_split c s of [] \<Rightarrow> [[x]] | w # ws \<Rightarrow> (x # w) # ws))"

fun str_join :: "string \<Rightarrow> string list \<Rightarrow> string" where
  "str_join sep [] = []"
| "str_join sep [w] = w"
| "str_join sep (w # v # ws) = w @ sep @ str_join sep (v # ws)"

lemma str_split_nonempty [simp]: "str_split c s \<noteq> []"
  by (induction s) (auto split: list.splits)

lemma str_join_split: "str_join [c] (str_split c s) = s"
proof (induction s)
  case (Cons x s)
  obtain w ws where ws: "str_split c s = w # ws"
    by (cases "str_split c s") simp_all
  with Cons have "str_join [c] (w # ws) = s" by simp
  with ws show ?case by (cases ws) auto
qed simp

definition replace_char :: "char \<Rightarrow> string \<Rightarrow> string \<Rightarrow> string" where
  "replace_char c r s = concat (map (\<lambda>x. if x = c then r else [x]) s)"

lemma replace_char_simps [simp]:
  "replace_char c r [] = []"
  "replace_char c r (x # s) = (if x = c then r else [x]) @ replace_char c r s"
  by (simp_all add: replace_char_def)

lemma replace_char_append [simp]: "replace_char c r (s @ t) = replace_char c r s @ replace_char c r t"
  by (simp add: replace_char_def)

lemma replace_char_id: "c \<notin> set s \<Longrightarrow> replace_char c r s = s"
  by (induction s) auto

section \<open>Whitespace\<close>

text \<open>
  \<^verbatim>\<open>str::trim\<close> strips the characters with the Unicode \<^verbatim>\<open>White_Space\<close> property: six ASCII ones
  and nineteen others, listed here by their UTF-8 encodings.
\<close>

definition utf8_2 :: "nat \<Rightarrow> nat \<Rightarrow> string" where
  "utf8_2 a b = [char_of a, char_of b]"

definition utf8_3 :: "nat \<Rightarrow> nat \<Rightarrow> nat \<Rightarrow> string" where
  "utf8_3 a b c = [char_of a, char_of b, char_of c]"

text \<open>The two non-ASCII characters the error messages of the sources contain.\<close>

definition sect_sign :: string where "sect_sign = utf8_2 0xC2 0xA7"
definition em_dash :: string where "em_dash = utf8_3 0xE2 0x80 0x94"

definition whitespace :: "string list" where
  "whitespace =
     [[char_of (9::nat)], [char_of (10::nat)], [char_of (11::nat)], [char_of (12::nat)],
      [char_of (13::nat)], [char_of (32::nat)],
      utf8_2 0xC2 0x85, utf8_2 0xC2 0xA0, utf8_3 0xE1 0x9A 0x80,
      utf8_3 0xE2 0x80 0x80, utf8_3 0xE2 0x80 0x81, utf8_3 0xE2 0x80 0x82, utf8_3 0xE2 0x80 0x83,
      utf8_3 0xE2 0x80 0x84, utf8_3 0xE2 0x80 0x85, utf8_3 0xE2 0x80 0x86, utf8_3 0xE2 0x80 0x87,
      utf8_3 0xE2 0x80 0x88, utf8_3 0xE2 0x80 0x89, utf8_3 0xE2 0x80 0x8A, utf8_3 0xE2 0x80 0xA8,
      utf8_3 0xE2 0x80 0xA9, utf8_3 0xE2 0x80 0xAF, utf8_3 0xE2 0x81 0x9F, utf8_3 0xE3 0x80 0x80]"

function strip_any :: "string list \<Rightarrow> string \<Rightarrow> string" where
  "strip_any ws s =
     (case find (\<lambda>w. w \<noteq> [] \<and> prefix w s) ws of
        None \<Rightarrow> s
      | Some w \<Rightarrow> strip_any ws (drop (length w) s))"
  by pat_completeness auto
termination
proof (relation "measure (\<lambda>(ws, s). length s)", goal_cases)
  case (2 ws s w)
  then have "w \<noteq> []" and "prefix w s"
    by (auto dest: find_Some_in_set)
  then have "length s - length w < length s"
    by (intro diff_less) (auto simp: prefix_def)
  then show ?case by simp
qed simp

declare strip_any.simps [simp del]

definition trim :: "string \<Rightarrow> string" where
  "trim s = rev (strip_any (map rev whitespace) (rev (strip_any whitespace s)))"

lemma strip_any_id:
  assumes "\<forall>w \<in> set ws. w \<noteq> [] \<longrightarrow> hd w \<noteq> hd s" "s \<noteq> []"
  shows "strip_any ws s = s"
proof -
  have "find (\<lambda>w. w \<noteq> [] \<and> prefix w s) ws = None"
    using assms by (auto simp: find_None_iff neq_Nil_conv)
  then show ?thesis by (subst strip_any.simps) simp
qed

definition graphic :: "char \<Rightarrow> bool" where
  "graphic c \<longleftrightarrow> 32 < byte c \<and> byte c < 127"

lemma whitespace_heads:
  "\<forall>w \<in> set whitespace. \<not> graphic (hd w)" "\<forall>w \<in> set (map rev whitespace). \<not> graphic (hd w)"
  by (simp_all add: whitespace_def utf8_2_def utf8_3_def graphic_def)

text \<open>Trimming leaves a text alone that begins and ends with graphic ASCII characters.\<close>

lemma trim_graphic:
  assumes "s \<noteq> []" "graphic (hd s)" "graphic (last s)"
  shows "trim s = s"
proof -
  have "strip_any whitespace s = s"
    using assms whitespace_heads(1) by (intro strip_any_id) auto
  moreover have "strip_any (map rev whitespace) (rev s) = rev s"
    using assms whitespace_heads(2) by (intro strip_any_id) (auto simp: hd_rev)
  ultimately show ?thesis by (simp add: trim_def)
qed

section \<open>Decimal and hexadecimal numbers\<close>

definition digit_char :: "nat \<Rightarrow> char" where
  "digit_char d = char_of (48 + d)"

fun show_nat :: "nat \<Rightarrow> string" where
  "show_nat n = (if n < 10 then [digit_char n] else show_nat (n div 10) @ [digit_char (n mod 10)])"

declare show_nat.simps [simp del]

definition show_int :: "int \<Rightarrow> string" where
  "show_int i = (if i < 0 then CHR ''-'' # show_nat (nat (- i)) else show_nat (nat i))"

text \<open>
  \<^verbatim>\<open>str::parse\<close> for integers: an optional sign, then at least one ASCII digit and nothing
  else; \<open>None\<close> also where the value leaves the type's range. An unsigned type takes \<^verbatim>\<open>+\<close> only.
\<close>

definition digits_value :: "string \<Rightarrow> nat" where
  "digits_value s = foldl (\<lambda>acc c. acc * 10 + (byte c - 48)) 0 s"

definition parse_digits :: "string \<Rightarrow> nat option" where
  "parse_digits s = (if s \<noteq> [] \<and> list_all is_ascii_digit s then Some (digits_value s) else None)"

definition parse_u64 :: "string \<Rightarrow> nat option" where
  "parse_u64 s =
     (case parse_digits (case s of CHR ''+'' # t \<Rightarrow> t | _ \<Rightarrow> s) of
        Some n \<Rightarrow> (if n < 2 ^ 64 then Some n else None)
      | None \<Rightarrow> None)"

definition parse_i64 :: "string \<Rightarrow> int option" where
  "parse_i64 s =
     (let (neg, t) = (case s of CHR ''-'' # t \<Rightarrow> (True, t) | CHR ''+'' # t \<Rightarrow> (False, t)
                      | _ \<Rightarrow> (False, s))
      in case parse_digits t of
           None \<Rightarrow> None
         | Some n \<Rightarrow>
             (if neg then (if n \<le> 2 ^ 63 then Some (- int n) else None)
              else (if n < 2 ^ 63 then Some (int n) else None)))"

definition hex_digit :: "nat \<Rightarrow> char" where
  "hex_digit d = (if d < 10 then char_of (48 + d) else char_of (87 + d))"

text \<open>\<^verbatim>\<open>{b:02x}\<close> of a byte.\<close>

definition hex2 :: "nat \<Rightarrow> string" where
  "hex2 b = [hex_digit (b div 16), hex_digit (b mod 16)]"

lemma digits_value_snoc [simp]: "digits_value (s @ [c]) = digits_value s * 10 + (byte c - 48)"
  by (simp add: digits_value_def)

lemma byte_digit_char: "d < 10 \<Longrightarrow> byte (digit_char d) = 48 + d"
  by (simp add: digit_char_def)

lemma digit_char_is_digit: "d < 10 \<Longrightarrow> is_ascii_digit (digit_char d)"
  by (simp add: is_ascii_digit_def byte_digit_char)

lemma show_nat_digits: "show_nat n \<noteq> [] \<and> list_all is_ascii_digit (show_nat n)"
proof (induction n rule: show_nat.induct)
  case (1 n)
  then show ?case
    by (cases "n < 10") (simp_all add: show_nat.simps [of n] digit_char_is_digit)
qed

lemma digits_value_show_nat: "digits_value (show_nat n) = n"
proof (induction n rule: show_nat.induct)
  case (1 n)
  then show ?case
    by (cases "n < 10")
      (simp_all add: show_nat.simps [of n] byte_digit_char digits_value_def)
qed

lemma parse_digits_show_nat [simp]: "parse_digits (show_nat n) = Some n"
  by (simp add: parse_digits_def show_nat_digits digits_value_show_nat)

lemma show_nat_inject [simp]: "show_nat m = show_nat n \<longleftrightarrow> m = n"
  by (metis digits_value_show_nat)

lemma show_nat_head_digit: "show_nat n = c # t \<Longrightarrow> is_ascii_digit c"
  using show_nat_digits [of n] by simp

lemma parse_u64_show_nat: "n < 2 ^ 64 \<Longrightarrow> parse_u64 (show_nat n) = Some n"
proof -
  assume n: "n < 2 ^ 64"
  have "show_nat n \<noteq> CHR ''+'' # t" for t
    using show_nat_head_digit [of n "CHR ''+''" t] by (auto simp: ascii_defs)
  then have "(case show_nat n of CHR ''+'' # t \<Rightarrow> t | _ \<Rightarrow> show_nat n) = show_nat n"
    by (cases "show_nat n") (auto split: list.splits char.splits bool.splits)
  with n show ?thesis by (simp add: parse_u64_def)
qed

lemma parse_u64_range: "parse_u64 s = Some n \<Longrightarrow> n < 2 ^ 64"
  by (auto simp: parse_u64_def split: option.splits if_splits)

lemma parse_i64_range: "parse_i64 s = Some i \<Longrightarrow> - (2 ^ 63) \<le> i \<and> i < 2 ^ 63"
  by (auto simp: parse_i64_def Let_def split: option.splits if_splits prod.splits)

end
