(* ===== verification/Sha256.thy ===== *)
theory Sha256
  imports Rust_Str "HOL-Library.Word"
begin

text \<open>
  The SHA-256 of \<^verbatim>\<open>codegen/ident.rs\<close> (\<^verbatim>\<open>sha256\<close>, \<^verbatim>\<open>sha256_hex7\<close>, \<^verbatim>\<open>sha_suffix\<close>), over 32-bit
  words with wrap-around addition, and its agreement with the defining recurrences of
  FIPS 180-4.
\<close>

unbundle bit_operations_syntax

type_synonym u8 = "8 word"
type_synonym u32 = "32 word"
type_synonym u64 = "64 word"

section \<open>Big-endian conversions\<close>

definition u32_from_be_bytes :: "u8 \<Rightarrow> u8 \<Rightarrow> u8 \<Rightarrow> u8 \<Rightarrow> u32" where
  "u32_from_be_bytes a b c d =
     push_bit 24 (ucast a) OR push_bit 16 (ucast b) OR push_bit 8 (ucast c) OR ucast d"

definition u32_to_be_bytes :: "u32 \<Rightarrow> u8 list" where
  "u32_to_be_bytes w = [ucast (drop_bit 24 w), ucast (drop_bit 16 w), ucast (drop_bit 8 w), ucast w]"

definition u64_to_be_bytes :: "u64 \<Rightarrow> u8 list" where
  "u64_to_be_bytes w = map (\<lambda>i. ucast (drop_bit (56 - 8 * i) w)) [0..<8]"

definition bytes_of :: "string \<Rightarrow> u8 list" where
  "bytes_of s = map (\<lambda>c. word_of_nat (byte c)) s"

section \<open>The algorithm\<close>

definition sha_K :: "u32 list" where
  "sha_K = concat [
     [0x428a2f98, 0x71374491, 0xb5c0fbcf, 0xe9b5dba5, 0x3956c25b, 0x59f111f1, 0x923f82a4],
     [0xab1c5ed5, 0xd807aa98, 0x12835b01, 0x243185be, 0x550c7dc3, 0x72be5d74, 0x80deb1fe],
     [0x9bdc06a7, 0xc19bf174, 0xe49b69c1, 0xefbe4786, 0x0fc19dc6, 0x240ca1cc, 0x2de92c6f],
     [0x4a7484aa, 0x5cb0a9dc, 0x76f988da, 0x983e5152, 0xa831c66d, 0xb00327c8, 0xbf597fc7],
     [0xc6e00bf3, 0xd5a79147, 0x06ca6351, 0x14292967, 0x27b70a85, 0x2e1b2138, 0x4d2c6dfc],
     [0x53380d13, 0x650a7354, 0x766a0abb, 0x81c2c92e, 0x92722c85, 0xa2bfe8a1, 0xa81a664b],
     [0xc24b8b70, 0xc76c51a3, 0xd192e819, 0xd6990624, 0xf40e3585, 0x106aa070, 0x19a4c116],
     [0x1e376c08, 0x2748774c, 0x34b0bcb5, 0x391c0cb3, 0x4ed8aa4a, 0x5b9cca4f, 0x682e6ff3],
     [0x748f82ee, 0x78a5636f, 0x84c87814, 0x8cc70208, 0x90befffa, 0xa4506ceb, 0xbef9a3f7],
     [0xc67178f2]]"

definition sha_H0 :: "u32 list" where
  "sha_H0 = [0x6a09e667, 0xbb67ae85, 0x3c6ef372, 0xa54ff53a, 0x510e527f, 0x9b05688c,
     0x1f83d9ab, 0x5be0cd19]"

definition sha_pad :: "u8 list \<Rightarrow> u8 list" where
  "sha_pad message =
     (let bit_len = word_of_nat (length message) * (8 :: u64);
          padded_len = (length message + 9 + 63) div 64 * 64;
          block = message @ replicate (padded_len - length message) 0;
          block = block[length message := 0x80]
      in take (padded_len - 8) block @ u64_to_be_bytes bit_len)"

fun chunks :: "nat \<Rightarrow> 'a list \<Rightarrow> 'a list list" where
  "chunks 0 xs = []"
| "chunks (Suc k) xs = (if xs = [] then [] else take (Suc k) xs # chunks (Suc k) (drop (Suc k) xs))"

text \<open>\<^verbatim>\<open>as_chunks::<64>().0\<close>: the whole chunks only.\<close>

definition as_chunks :: "nat \<Rightarrow> 'a list \<Rightarrow> 'a list list" where
  "as_chunks n xs = chunks n (take (length xs div n * n) xs)"

definition sched_load :: "u8 list \<Rightarrow> u32 list \<Rightarrow> u32 list" where
  "sched_load chunk w =
     foldl (\<lambda>w i. w[i := u32_from_be_bytes (chunk ! (i * 4)) (chunk ! (i * 4 + 1))
                          (chunk ! (i * 4 + 2)) (chunk ! (i * 4 + 3))]) w [0..<16]"

definition sched_step :: "u32 list \<Rightarrow> nat \<Rightarrow> u32 list" where
  "sched_step w i =
     (let s0 = word_rotr 7 (w ! (i - 15)) XOR word_rotr 18 (w ! (i - 15)) XOR drop_bit 3 (w ! (i - 15));
          s1 = word_rotr 17 (w ! (i - 2)) XOR word_rotr 19 (w ! (i - 2)) XOR drop_bit 10 (w ! (i - 2))
      in w[i := w ! (i - 16) + s0 + w ! (i - 7) + s1])"

definition schedule :: "u8 list \<Rightarrow> u32 list \<Rightarrow> u32 list" where
  "schedule chunk w = foldl sched_step (sched_load chunk w) [16..<64]"

type_synonym sha_state = "u32 \<times> u32 \<times> u32 \<times> u32 \<times> u32 \<times> u32 \<times> u32 \<times> u32"

definition sha_round :: "u32 \<Rightarrow> u32 \<Rightarrow> sha_state \<Rightarrow> sha_state" where
  "sha_round k wi = (\<lambda>(a, b, c, d, e, f, g, hh).
     (let s1 = word_rotr 6 e XOR word_rotr 11 e XOR word_rotr 25 e;
          ch = (e AND f) XOR (NOT e AND g);
          temp1 = hh + s1 + ch + k + wi;
          s0 = word_rotr 2 a XOR word_rotr 13 a XOR word_rotr 22 a;
          maj = (a AND b) XOR (a AND c) XOR (b AND c);
          temp2 = s0 + maj
      in (temp1 + temp2, a, b, c, d + temp1, e, f, g)))"

definition sha_compress :: "u32 list \<Rightarrow> u32 list \<Rightarrow> u32 list" where
  "sha_compress w h =
     (case foldl (\<lambda>st i. sha_round (sha_K ! i) (w ! i) st)
             (h ! 0, h ! 1, h ! 2, h ! 3, h ! 4, h ! 5, h ! 6, h ! 7) [0..<64] of
        (a, b, c, d, e, f, g, hh) \<Rightarrow>
          [h ! 0 + a, h ! 1 + b, h ! 2 + c, h ! 3 + d, h ! 4 + e, h ! 5 + f, h ! 6 + g, h ! 7 + hh])"

text \<open>One pass of the chunk loop: the schedule array \<^verbatim>\<open>w\<close> outlives the chunk, as in the source.\<close>

definition sha_chunk :: "u32 list \<times> u32 list \<Rightarrow> u8 list \<Rightarrow> u32 list \<times> u32 list" where
  "sha_chunk = (\<lambda>(w, h) chunk. (let w' = schedule chunk w in (w', sha_compress w' h)))"

definition sha256 :: "u8 list \<Rightarrow> u8 list" where
  "sha256 message =
     (let (w, h) = foldl sha_chunk (replicate 64 0, sha_H0) (as_chunks 64 (sha_pad message))
      in concat (map u32_to_be_bytes h))"

definition SUFFIX_HEX :: nat where "SUFFIX_HEX = 7"

definition sha256_hex7 :: "u8 list \<Rightarrow> string" where
  "sha256_hex7 bytes =
     take SUFFIX_HEX (concat (map (\<lambda>b. hex2 (unat b)) (take 4 (sha256 bytes))))"

definition sha_suffix :: "string \<Rightarrow> string" where
  "sha_suffix original = sha256_hex7 (bytes_of original)"

section \<open>Shape\<close>

lemma length_u32_to_be_bytes [simp]: "length (u32_to_be_bytes w) = 4"
  by (simp add: u32_to_be_bytes_def)

lemma length_u64_to_be_bytes [simp]: "length (u64_to_be_bytes w) = 8"
  by (simp add: u64_to_be_bytes_def)

lemma length_sha_compress [simp]: "length (sha_compress w h) = 8"
  by (simp add: sha_compress_def split: prod.splits)

lemma length_concat_be: "length (concat (map u32_to_be_bytes h)) = 4 * length h"
  by (induction h) auto

lemma length_sha_hash: "length h = 8 \<Longrightarrow> length (snd (foldl sha_chunk (w, h) cs)) = 8"
  by (induction cs arbitrary: w h) (auto simp: sha_chunk_def Let_def)

lemma length_sha256 [simp]: "length (sha256 m) = 32"
proof -
  have "length (snd (foldl sha_chunk (replicate 64 0, sha_H0) cs)) = 8" for cs
    by (rule length_sha_hash) (simp add: sha_H0_def)
  then show ?thesis
    by (simp add: sha256_def Let_def case_prod_beta length_concat_be)
qed

lemma length_concat_hex2: "length (concat (map (\<lambda>b. hex2 (unat b)) bs)) = 2 * length bs"
  by (induction bs) (auto simp: hex2_def)

lemma length_sha256_hex7 [simp]: "length (sha256_hex7 bs) = 7"
  by (simp add: sha256_hex7_def SUFFIX_HEX_def length_concat_hex2)

lemma length_sha_suffix [simp]: "length (sha_suffix s) = 7"
  by (simp add: sha_suffix_def)

definition is_hex_char :: "char \<Rightarrow> bool" where
  "is_hex_char c \<longleftrightarrow> is_ascii_digit c \<or> (97 \<le> byte c \<and> byte c \<le> 102)"

lemma hex_digit_is_hex: "d < 16 \<Longrightarrow> is_hex_char (hex_digit d)"
  by (simp add: is_hex_char_def hex_digit_def is_ascii_digit_def)

lemma hex2_is_hex: "b < 256 \<Longrightarrow> list_all is_hex_char (hex2 b)"
  by (simp add: hex2_def hex_digit_is_hex)

lemma sha256_hex7_is_hex: "list_all is_hex_char (sha256_hex7 bs)"
proof -
  have "list_all is_hex_char (concat (map (\<lambda>b. hex2 (unat b)) xs))" for xs :: "u8 list"
  proof (induction xs)
    case (Cons b xs)
    have "unat b < 256" using unsigned_less [of b, where ?'a = nat] by simp
    with Cons show ?case by (simp add: hex2_is_hex)
  qed simp
  from this [of "take 4 (sha256 bs)"] show ?thesis
    unfolding sha256_hex7_def list_all_iff by (blast dest: in_set_takeD)
qed

lemma sha_suffix_is_hex: "list_all is_hex_char (sha_suffix s)"
  by (simp add: sha_suffix_def sha256_hex7_is_hex)

text \<open>
  Padding: the message, the bit \<^verbatim>\<open>0x80\<close>, the least number of zero bytes that makes the length a
  multiple of 64 with the eight length bytes.
\<close>

lemma sha_pad_eq:
  "sha_pad m = m @ 0x80 # replicate ((length m + 72) div 64 * 64 - (length m + 9)) 0
                 @ u64_to_be_bytes (word_of_nat (length m) * 8)"
proof -
  define p where "p = (length m + 9 + 63) div 64 * 64"
  have p72: "p = (length m + 72) div 64 * 64" by (simp add: p_def add.commute)
  have "length m + 9 \<le> p" unfolding p_def by presburger
  then obtain k where k: "p = length m + 9 + k" by (auto simp: le_iff_add)
  have "(m @ replicate (p - length m) 0)[length m := 0x80] = m @ 0x80 # replicate (k + 8) (0 :: u8)"
    by (simp add: k list_update_append replicate_add eval_nat_numeral)
  then have "sha_pad m = m @ 0x80 # replicate (p - (length m + 9)) 0
                 @ u64_to_be_bytes (word_of_nat (length m) * 8)"
    unfolding sha_pad_def Let_def p_def [symmetric] by (simp add: k)
  then show ?thesis by (simp only: p72)
qed

lemma length_sha_pad: "length (sha_pad m) = (length m + 72) div 64 * 64"
proof -
  have "length m + 9 \<le> (length m + 72) div 64 * 64" by presburger
  then show ?thesis by (simp add: sha_pad_eq)
qed

section \<open>Agreement with FIPS 180-4\<close>

text \<open>
  The standard's message schedule (section 6.2.2, step 1) as a recurrence over the index, and its
  functions \<open>\<sigma>\<^sub>0\<close>, \<open>\<sigma>\<^sub>1\<close>; the in-place array loops of the source compute exactly it, whatever
  the array held before (the source reuses one array for every chunk).
\<close>

definition fips_sigma0 :: "u32 \<Rightarrow> u32" where
  "fips_sigma0 x = word_rotr 7 x XOR word_rotr 18 x XOR drop_bit 3 x"

definition fips_sigma1 :: "u32 \<Rightarrow> u32" where
  "fips_sigma1 x = word_rotr 17 x XOR word_rotr 19 x XOR drop_bit 10 x"

fun fips_W :: "u8 list \<Rightarrow> nat \<Rightarrow> u32" where
  "fips_W M t =
     (if t < 16
      then u32_from_be_bytes (M ! (4 * t)) (M ! (4 * t + 1)) (M ! (4 * t + 2)) (M ! (4 * t + 3))
      else fips_sigma1 (fips_W M (t - 2)) + fips_W M (t - 7)
           + fips_sigma0 (fips_W M (t - 15)) + fips_W M (t - 16))"

declare fips_W.simps [simp del]

lemma sched_load_upto:
  assumes "n \<le> 16" and "length w = 64" and "i < n"
  shows "foldl (\<lambda>w i. w[i := u32_from_be_bytes (M ! (i * 4)) (M ! (i * 4 + 1))
                          (M ! (i * 4 + 2)) (M ! (i * 4 + 3))]) w [0..<n] ! i = fips_W M i"
    (is "?L n ! i = _")
proof -
  have len: "length (?L k) = 64" for k
    by (induction k) (auto simp: assms(2))
  from assms(1,3) show ?thesis
  proof (induction n)
    case (Suc n)
    show ?case
    proof (cases "i = n")
      case True
      with Suc.prems len [of n] show ?thesis
        by (simp add: fips_W.simps mult.commute)
    next
      case False
      with Suc show ?thesis by simp
    qed
  qed simp
qed

lemma length_sched_load [simp]: "length (sched_load M w) = length w"
proof -
  have "length (foldl (\<lambda>w i. w[i := f i]) w xs) = length w" for f :: "nat \<Rightarrow> u32" and xs
    by (induction xs arbitrary: w) auto
  then show ?thesis by (simp add: sched_load_def)
qed

lemma length_sched_step [simp]: "length (sched_step w i) = length w"
  by (simp add: sched_step_def Let_def)

lemma sched_step_nth:
  "i < length w \<Longrightarrow> sched_step w n ! i =
     (if i = n then w ! (n - 16) + fips_sigma0 (w ! (n - 15)) + w ! (n - 7) + fips_sigma1 (w ! (n - 2))
      else w ! i)"
  by (auto simp: sched_step_def Let_def fips_sigma0_def fips_sigma1_def)

lemma schedule_upto:
  assumes "length w = 64" and "n \<le> 64" and "i < n" and "16 \<le> n"
  shows "foldl sched_step (sched_load M w) [16..<n] ! i = fips_W M i"
  using assms(4,2,3)
proof (induction n arbitrary: i rule: dec_induct)
  case base
  then show ?case
    using sched_load_upto [of 16 w i M] assms(1) by (simp add: sched_load_def)
next
  case (step n)
  let ?w = "foldl sched_step (sched_load M w) [16..<n]"
  have len: "length ?w = 64"
  proof -
    have "length (foldl sched_step v xs) = length v" for v xs
      by (induction xs arbitrary: v) auto
    then show ?thesis by (simp add: assms(1))
  qed
  have IH: "?w ! j = fips_W M j" if "j < n" for j
    using step.IH [of j] step.prems that by simp
  have "foldl sched_step (sched_load M w) [16..<Suc n] = sched_step ?w n"
    using step.hyps by simp
  with step.hyps step.prems len IH show ?case
    by (auto simp: sched_step_nth fips_W.simps [of M n])
qed

lemma schedule_fips:
  "length w = 64 \<Longrightarrow> i < 64 \<Longrightarrow> schedule M w ! i = fips_W M i"
  unfolding schedule_def by (rule schedule_upto) simp_all

end
