(* ===== verification/Ident.thy ===== *)
theory Ident
  imports Sha256 "HOL-Library.List_Lexorder"
begin

text \<open>
  \<^verbatim>\<open>codegen/ident.rs\<close>: MCP names to PostgreSQL identifiers. \<open>derive\<close> is the rule pipeline,
  \<open>dedup\<close> the collision resolution. Byte slices of a string panic off a character boundary, so
  both return options, \<open>None\<close> being the panic; for a prefix that passed the import option's
  validation neither can panic (\<open>derive_total\<close>, \<open>dedup_total\<close>).
\<close>

section \<open>Derivation\<close>

definition MAX_BYTES :: nat where "MAX_BYTES = 63"
definition TRUNCATE_BYTES :: nat where "TRUNCATE_BYTES = 55"

definition case_boundary :: "char \<Rightarrow> char \<Rightarrow> char option \<Rightarrow> bool" where
  "case_boundary prev c nxt \<longleftrightarrow>
     (is_ascii_lowercase prev \<and> is_ascii_uppercase c)
   \<or> (is_ascii_uppercase prev \<and> is_ascii_uppercase c
        \<and> (case nxt of None \<Rightarrow> False | Some n \<Rightarrow> is_ascii_lowercase n))
   \<or> (is_ascii_digit prev \<and> is_ascii_uppercase c)"

fun split_loop :: "char option \<Rightarrow> string \<Rightarrow> string" where
  "split_loop prev [] = []"
| "split_loop prev (c # rest) =
     (if (case prev of None \<Rightarrow> False
          | Some p \<Rightarrow> case_boundary p c (case rest of [] \<Rightarrow> None | n # _ \<Rightarrow> Some n))
      then CHR ''_'' # c # split_loop (Some c) rest
      else c # split_loop (Some c) rest)"

definition split_case_boundaries :: "string \<Rightarrow> string" where
  "split_case_boundaries name = split_loop None name"

text \<open>
  \<^verbatim>\<open>str::to_lowercase\<close>, as far as \<open>derive_base\<close> can tell: exact on ASCII and on the two
  non-ASCII characters whose lowercase holds an ASCII letter, U+0130 (to \<^verbatim>\<open>i\<close> and a combining dot)
  and U+212A (to \<^verbatim>\<open>k\<close>). Every other non-ASCII character lowercases to non-ASCII characters, and
  the consumer maps any of those to a separator; their bytes are left as they are.
\<close>

function to_lowercase :: "string \<Rightarrow> string" where
  "to_lowercase [] = []"
| "to_lowercase (a # s) =
     (if take 2 (a # s) = utf8_2 0xC4 0xB0
        then CHR ''i'' # utf8_2 0xCC 0x87 @ to_lowercase (drop 1 s)
      else if take 3 (a # s) = utf8_3 0xE2 0x84 0xAA
        then CHR ''k'' # to_lowercase (drop 2 s)
      else ascii_lower a # to_lowercase s)"
  by pat_completeness auto
termination by (relation "measure length") auto

fun base_loop :: "string \<Rightarrow> string \<Rightarrow> bool \<Rightarrow> string" where
  "base_loop [] out last_was_underscore = out"
| "base_loop (c # s) out last_was_underscore =
     (if is_ascii_lowercase c \<or> is_ascii_digit c then base_loop s (out @ [c]) False
      else if \<not> last_was_underscore \<and> out \<noteq> [] then base_loop s (out @ ''_'') True
      else base_loop s out last_was_underscore)"

definition strip_leading_underscores :: "string \<Rightarrow> string" where
  "strip_leading_underscores s = dropWhile (\<lambda>c. c = CHR ''_'') s"

definition strip_trailing_underscores :: "string \<Rightarrow> string" where
  "strip_trailing_underscores s = rev (dropWhile (\<lambda>c. c = CHR ''_'') (rev s))"

definition derive_base :: "string \<Rightarrow> string" where
  "derive_base name =
     (let lowered = to_lowercase (split_case_boundaries name);
          out = base_loop lowered [] False;
          out = strip_leading_underscores out;
          out = strip_trailing_underscores out
      in case out of
           [] \<Rightarrow> []
         | c # _ \<Rightarrow> (if is_ascii_digit c then CHR ''_'' # out else out))"

definition derive :: "string \<Rightarrow> string \<Rightarrow> string option" where
  "derive name pre =
     (let base = derive_base name;
          composed = (if pre = [] then base else pre @ base)
      in if length composed > MAX_BYTES then
           (case slice_to TRUNCATE_BYTES composed of
              None \<Rightarrow> None
            | Some truncated \<Rightarrow> Some (truncated @ ''_'' @ sha256_hex7 (bytes_of composed)))
         else Some composed)"

section \<open>Collision resolution\<close>

text \<open>
  The candidate of a repeat with occurrence number \<open>k\<close>, head-trimmed to stay within 63 bytes; the
  probe loop tries one after the other until one is free. The map \<^verbatim>\<open>seen\<close> is only ever asked for
  membership, so it is the list of its keys.
\<close>

definition ordinal_head :: "string \<Rightarrow> nat \<Rightarrow> nat" where
  "ordinal_head sql k = min (TRUNCATE_BYTES - (1 + length (show_nat k))) (length sql)"

definition ordinal_candidate :: "string \<Rightarrow> string \<Rightarrow> nat \<Rightarrow> string" where
  "ordinal_candidate sql hash k =
     take (ordinal_head sql k) sql @ ''_'' @ hash @ ''_'' @ show_nat k"

lemma ordinal_candidate_inject:
  assumes "ordinal_candidate sql hash i = ordinal_candidate sql hash j"
  shows "i = j"
proof -
  have tail: "takeWhile is_ascii_digit (rev (ordinal_candidate sql hash k)) = rev (show_nat k)" for k
  proof -
    have "is_ascii_digit c" if "c \<in> set (rev (show_nat k))" for c
      using that show_nat_digits [of k] by (simp add: list_all_iff)
    then have "takeWhile is_ascii_digit (rev (show_nat k) @ ys)
                 = rev (show_nat k) @ takeWhile is_ascii_digit ys" for ys
      by (rule takeWhile_append2)
    moreover have "\<not> is_ascii_digit (CHR ''_'')" by (simp add: ascii_defs)
    ultimately show ?thesis by (simp add: ordinal_candidate_def)
  qed
  have "rev (show_nat i) = takeWhile is_ascii_digit (rev (ordinal_candidate sql hash i))"
    by (simp only: tail)
  also have "\<dots> = rev (show_nat j)" by (simp only: assms tail)
  finally show ?thesis by simp
qed

lemma finite_ordinal_hits: "finite {k. occ < k \<and> ordinal_candidate sql hash k \<in> set seen}"
proof (rule finite_subset)
  show "{k. occ < k \<and> ordinal_candidate sql hash k \<in> set seen}
          \<subseteq> ordinal_candidate sql hash -` set seen" by auto
  show "finite (ordinal_candidate sql hash -` set seen)"
    by (rule finite_vimageI) (simp, rule injI, erule ordinal_candidate_inject)
qed

function dedup_probe :: "string list \<Rightarrow> string \<Rightarrow> string \<Rightarrow> nat \<Rightarrow> string \<Rightarrow> string option" where
  "dedup_probe seen sql hash occurrence candidate =
     (if candidate \<in> set seen then
        (let occurrence = occurrence + 1; ordinal = show_nat occurrence;
             head_len = TRUNCATE_BYTES - (1 + length ordinal)
         in case slice_to (min head_len (length sql)) sql of
              None \<Rightarrow> None
            | Some head \<Rightarrow> dedup_probe seen sql hash occurrence (head @ ''_'' @ hash @ ''_'' @ ordinal))
      else Some candidate)"
  by pat_completeness auto
termination
proof (relation "measure (\<lambda>(seen, sql, hash, occ, c).
         card {k. occ < k \<and> ordinal_candidate sql hash k \<in> set seen}
         + (if c \<in> set seen then 1 else 0))", goal_cases)
  case (2 seen sql hash occ c k ordinal head_len head)
  let ?S = "\<lambda>m. {k. m < k \<and> ordinal_candidate sql hash k \<in> set seen}"
  from 2 have cand: "head @ ''_'' @ hash @ ''_'' @ ordinal = ordinal_candidate sql hash (Suc occ)"
    by (auto simp: slice_to_def ordinal_candidate_def ordinal_head_def split: if_splits)
  have "?S occ = {k. k = Suc occ \<and> ordinal_candidate sql hash k \<in> set seen} \<union> ?S (Suc occ)"
    using Suc_lessI by auto
  also have "\<dots> = (if ordinal_candidate sql hash (Suc occ) \<in> set seen
                  then insert (Suc occ) (?S (Suc occ)) else ?S (Suc occ))" by auto
  finally have "?S occ = \<dots>" .
  then have "card (?S occ) = card (?S (Suc occ))
               + (if ordinal_candidate sql hash (Suc occ) \<in> set seen then 1 else 0)"
    using finite_ordinal_hits [of "Suc occ" sql hash seen] by simp
  with 2(1,2) cand show ?case by simp
qed simp

declare dedup_probe.simps [simp del]

fun dedup_loop :: "string list \<Rightarrow> (string \<times> string) list \<Rightarrow> (string \<times> string) list option" where
  "dedup_loop seen [] = Some []"
| "dedup_loop seen ((original, sql) # rest) =
     (if sql \<notin> set seen then
        map_option (\<lambda>out. (original, sql) # out) (dedup_loop (sql # seen) rest)
      else
        (case slice_to (min (length sql) TRUNCATE_BYTES) sql of
           None \<Rightarrow> None
         | Some head \<Rightarrow>
             (let original_hash = sha256_hex7 (bytes_of original)
              in case dedup_probe seen sql original_hash 1 (head @ ''_'' @ original_hash) of
                   None \<Rightarrow> None
                 | Some candidate \<Rightarrow>
                     map_option (\<lambda>out. (original, candidate) # out)
                       (dedup_loop (candidate # seen) rest))))"

definition dedup :: "string list \<Rightarrow> string \<Rightarrow> (string \<times> string) list option" where
  "dedup names pre =
     Option.bind (traverse (\<lambda>n. derive n pre) names) (\<lambda>derived. dedup_loop [] (zip names derived))"

section \<open>The identifier class\<close>

text \<open>
  \<open>ident_ok\<close>: lower-case letters, digits and underscores, no leading digit. \<open>core_ok\<close> is what
  \<open>derive_base\<close> produces before the digit guard: in addition no underscore at either end and no
  two in a row.
\<close>

definition ident_char :: "char \<Rightarrow> bool" where
  "ident_char c \<longleftrightarrow> is_ascii_lowercase c \<or> is_ascii_digit c \<or> c = CHR ''_''"

definition ident_ok :: "string \<Rightarrow> bool" where
  "ident_ok s \<longleftrightarrow> list_all ident_char s \<and> (case s of [] \<Rightarrow> True | c # _ \<Rightarrow> \<not> is_ascii_digit c)"

definition no_double :: "char \<Rightarrow> char \<Rightarrow> bool" where
  "no_double a b \<longleftrightarrow> \<not> (a = CHR ''_'' \<and> b = CHR ''_'')"

definition core_ok :: "string \<Rightarrow> bool" where
  "core_ok s \<longleftrightarrow> list_all ident_char s \<and> successively no_double s
     \<and> (s \<noteq> [] \<longrightarrow> hd s \<noteq> CHR ''_'' \<and> last s \<noteq> CHR ''_'')"

lemma ident_char_facts:
  "ident_char c \<Longrightarrow> is_ascii c" "ident_char c \<Longrightarrow> \<not> is_ascii_uppercase c"
  "ident_char (CHR ''_'')" "is_hex_char c \<Longrightarrow> ident_char c" "is_ascii_digit c \<Longrightarrow> ident_char c"
  "is_ascii_lowercase c \<Longrightarrow> ident_char c" "\<not> is_ascii_digit (CHR ''_'')"
  by (auto simp: ident_char_def ascii_defs is_hex_char_def)

lemma ident_chars_ascii: "list_all ident_char s \<Longrightarrow> list_all is_ascii s"
  by (auto simp: list_all_iff intro: ident_char_facts)

lemma ident_char_hash: "list_all ident_char (sha256_hex7 bs)"
  using sha256_hex7_is_hex [of bs] by (auto simp: list_all_iff intro: ident_char_facts)

lemma ident_char_show_nat: "list_all ident_char (show_nat k)"
  using show_nat_digits [of k] by (auto simp: list_all_iff intro: ident_char_facts)

lemmas [ident_intros] = ident_char_hash ident_char_show_nat ident_char_facts

lemma split_loop_no_upper: "list_all (\<lambda>c. \<not> is_ascii_uppercase c) s \<Longrightarrow> split_loop p s = s"
  by (induction s arbitrary: p) (auto simp: case_boundary_def split: option.splits)

lemma to_lowercase_id:
  "list_all is_ascii s \<Longrightarrow> list_all (\<lambda>c. \<not> is_ascii_uppercase c) s \<Longrightarrow> to_lowercase s = s"
proof (induction s rule: to_lowercase.induct)
  case (2 a s)
  have "take 2 (a # s) \<noteq> utf8_2 0xC4 0xB0" "take 3 (a # s) \<noteq> utf8_3 0xE2 0x84 0xAA"
    using 2(4) by (auto simp: utf8_2_def utf8_3_def is_ascii_def)
  with 2 show ?case by simp
qed simp

text \<open>The invariant of the character loop: \<open>out\<close> never starts with a separator, never holds two in
  a row, and the flag says whether it ends in one.\<close>

definition loop_inv :: "string \<Rightarrow> bool \<Rightarrow> bool" where
  "loop_inv out lu \<longleftrightarrow> list_all ident_char out \<and> successively no_double out
     \<and> (out \<noteq> [] \<longrightarrow> hd out \<noteq> CHR ''_'') \<and> lu = (out \<noteq> [] \<and> last out = CHR ''_'')"

lemma loop_inv_keep:
  "loop_inv out lu \<Longrightarrow> is_ascii_lowercase c \<or> is_ascii_digit c \<Longrightarrow> loop_inv (out @ [c]) False"
  by (auto simp: loop_inv_def successively_append_iff no_double_def ident_char_def ascii_defs hd_append)

lemma loop_inv_sep: "loop_inv out False \<Longrightarrow> out \<noteq> [] \<Longrightarrow> loop_inv (out @ ''_'') True"
  by (auto simp: loop_inv_def successively_append_iff no_double_def ident_char_def)

lemma base_loop_inv: "loop_inv out lu \<Longrightarrow> \<exists>lu'. loop_inv (base_loop s out lu) lu'"
proof (induction s out lu rule: base_loop.induct)
  case (1 out lu)
  then show ?case by auto
next
  case (2 c s out lu)
  then show ?case using loop_inv_keep [of out lu c] loop_inv_sep [of out] by auto
qed

lemma strip_leading_id: "s = [] \<or> hd s \<noteq> CHR ''_'' \<Longrightarrow> strip_leading_underscores s = s"
  by (cases s) (auto simp: strip_leading_underscores_def)

lemma strip_trailing_core:
  assumes "loop_inv s lu"
  shows "core_ok (strip_trailing_underscores s)"
proof (cases s rule: rev_cases)
  case Nil
  then show ?thesis by (simp add: strip_trailing_underscores_def core_ok_def)
next
  case (snoc t c)
  have stripped: "strip_trailing_underscores (t @ [c]) = (if c = CHR ''_'' then t else t @ [c])"
  proof (cases "c = CHR ''_''")
    case True
    with assms snoc have "t = [] \<or> last t \<noteq> CHR ''_''"
      by (auto simp: loop_inv_def successively_append_iff no_double_def)
    with True show ?thesis
      by (cases t rule: rev_cases) (auto simp: strip_trailing_underscores_def)
  qed (simp add: strip_trailing_underscores_def)
  have "c = CHR ''_'' \<Longrightarrow> t \<noteq> [] \<Longrightarrow> last t \<noteq> CHR ''_''"
    using assms snoc by (auto simp: loop_inv_def successively_append_iff no_double_def)
  with assms snoc stripped show ?thesis
    by (auto simp: core_ok_def loop_inv_def successively_append_iff hd_append split: if_splits)
qed

lemma base_loop_core:
  "list_all ident_char s \<Longrightarrow> loop_inv out lu \<Longrightarrow> successively no_double (out @ s)
   \<Longrightarrow> out \<noteq> [] \<or> s = [] \<or> hd s \<noteq> CHR ''_'' \<Longrightarrow> base_loop s out lu = out @ s"
proof (induction s out lu rule: base_loop.induct)
  case (2 c s out lu)
  show ?case
  proof (cases "is_ascii_lowercase c \<or> is_ascii_digit c")
    case True
    with 2 loop_inv_keep [OF 2(5) True] show ?thesis by simp
  next
    case False
    with 2 have c: "c = CHR ''_''" by (simp add: ident_char_def)
    with 2(6,7) 2(5) have "out \<noteq> []" "\<not> lu"
      by (auto simp: loop_inv_def successively_append_iff no_double_def)
    with 2 False c loop_inv_sep [of out] show ?thesis by simp
  qed
qed simp

section \<open>What derivation guarantees\<close>

lemma core_ok_ident: "core_ok s \<Longrightarrow> list_all ident_char s"
  by (simp add: core_ok_def)

lemma derive_base_core:
  obtains core where "core_ok core"
    "derive_base name = (case core of [] \<Rightarrow> [] | c # _ \<Rightarrow> if is_ascii_digit c then CHR ''_'' # core else core)"
proof -
  define out where "out = base_loop (to_lowercase (split_case_boundaries name)) [] False"
  have "loop_inv [] False" by (simp add: loop_inv_def)
  then obtain lu where inv: "loop_inv out lu"
    unfolding out_def using base_loop_inv by blast
  then have "strip_leading_underscores out = out"
    by (intro strip_leading_id) (auto simp: loop_inv_def)
  then have "strip_trailing_underscores (strip_leading_underscores out) = strip_trailing_underscores out"
    by simp
  then have "derive_base name = (case strip_trailing_underscores out of [] \<Rightarrow> []
      | c # _ \<Rightarrow> if is_ascii_digit c then CHR ''_'' # strip_trailing_underscores out
               else strip_trailing_underscores out)"
    unfolding derive_base_def Let_def out_def [symmetric] by (simp only:)
  with strip_trailing_core [OF inv] show thesis by (rule that)
qed

lemma derive_base_ident_ok: "ident_ok (derive_base name)"
proof -
  obtain core where "core_ok core"
    "derive_base name = (case core of [] \<Rightarrow> [] | c # _ \<Rightarrow> if is_ascii_digit c then CHR ''_'' # core else core)"
    by (rule derive_base_core)
  then show ?thesis
    using core_ok_ident [of core] by (auto simp: ident_ok_def ident_char_facts split: list.splits)
qed

lemma derive_base_of_core:
  assumes "core_ok core"
  shows "derive_base core = (case core of [] \<Rightarrow> [] | c # _ \<Rightarrow> if is_ascii_digit c then CHR ''_'' # core else core)"
    and "derive_base (CHR ''_'' # core) = derive_base core"
proof -
  have chars: "list_all is_ascii core" "list_all (\<lambda>c. \<not> is_ascii_uppercase c) core"
    using core_ok_ident [OF assms] by (auto simp: list_all_iff dest: ident_char_facts(1,2))
  have us: "is_ascii (CHR ''_'')" "\<not> is_ascii_uppercase (CHR ''_'')" "\<not> is_ascii_lowercase (CHR ''_'')"
    by (simp_all add: ascii_defs)
  have loop: "base_loop core [] False = core"
    using assms by (intro base_loop_core [where out = "[]", simplified])
      (auto simp: core_ok_def loop_inv_def)
  have strip: "strip_leading_underscores core = core" "strip_trailing_underscores core = core"
  proof -
    show "strip_leading_underscores core = core"
      using assms by (intro strip_leading_id) (auto simp: core_ok_def)
    show "strip_trailing_underscores core = core"
      using assms by (cases core rule: rev_cases) (auto simp: strip_trailing_underscores_def core_ok_def)
  qed
  have pre: "to_lowercase (split_case_boundaries core) = core"
    "to_lowercase (split_case_boundaries (CHR ''_'' # core)) = CHR ''_'' # core"
    using chars us by (simp_all only: split_case_boundaries_def split_loop_no_upper to_lowercase_id
        list.pred_inject simp_thms)
  show "derive_base core = (case core of [] \<Rightarrow> [] | c # _ \<Rightarrow> if is_ascii_digit c then CHR ''_'' # core else core)"
    by (simp only: derive_base_def Let_def pre loop strip)
  moreover have "base_loop (CHR ''_'' # core) [] False = core"
    using us by (simp add: loop ident_char_facts)
  ultimately show "derive_base (CHR ''_'' # core) = derive_base core"
    by (simp only: derive_base_def Let_def pre loop strip)
qed

text \<open>Deriving the base identifier is idempotent: an identifier the rules produced derives to
  itself, so re-deriving a stored name never renames it.\<close>

theorem derive_base_idempotent: "derive_base (derive_base name) = derive_base name"
proof -
  obtain core where core: "core_ok core"
    "derive_base name = (case core of [] \<Rightarrow> [] | c # _ \<Rightarrow> if is_ascii_digit c then CHR ''_'' # core else core)"
    by (rule derive_base_core)
  then show ?thesis
    using derive_base_of_core [OF core(1)] by (auto split: list.splits)
qed

lemma ident_ok_append:
  "ident_ok s \<Longrightarrow> ident_ok t \<Longrightarrow> ident_ok (s @ t)"
  by (cases s) (auto simp: ident_ok_def)

lemma ident_ok_take_suffix:
  "ident_ok s \<Longrightarrow> list_all ident_char t \<Longrightarrow> ident_ok (take n s @ CHR ''_'' # t)"
  by (cases s; cases n) (auto simp: ident_ok_def ident_char_facts list_all_iff dest: in_set_takeD)

lemma ident_ok_slice: "ident_ok s \<Longrightarrow> n \<le> length s \<Longrightarrow> slice_to n s = Some (take n s)"
  by (auto simp: ident_ok_def intro: slice_to_ascii ident_chars_ascii)

lemma derive_eq:
  assumes "ident_ok pre"
  shows "derive name pre =
    (let composed = pre @ derive_base name
     in Some (if length composed > 63
              then take 55 composed @ CHR ''_'' # sha256_hex7 (bytes_of composed) else composed))"
proof -
  have "ident_ok (pre @ derive_base name)"
    by (intro ident_ok_append assms derive_base_ident_ok)
  then show ?thesis
    by (auto simp: derive_def Let_def MAX_BYTES_def TRUNCATE_BYTES_def ident_ok_slice)
qed

lemma derive_total: "ident_ok pre \<Longrightarrow> \<exists>s. derive name pre = Some s"
  by (simp add: derive_eq Let_def)

lemma derive_ident_ok:
  assumes "ident_ok pre" "derive name pre = Some s"
  shows "ident_ok s" "length s \<le> 63"
proof -
  have "ident_ok (pre @ derive_base name)"
    by (intro ident_ok_append assms derive_base_ident_ok)
  then show "ident_ok s"
    using assms ident_ok_take_suffix [OF _ ident_char_hash]
    by (auto simp: derive_eq Let_def simp del: take_append append_assoc)
  show "length s \<le> 63"
    using assms by (auto simp: derive_eq Let_def)
qed

text \<open>C16. For every prefix the import options accept and every tool name, \<open>derive\<close> returns (it never
  slices a string off a character boundary), the result fits PostgreSQL's 63 bytes, and it consists
  of lower-case letters, digits and underscores with no leading digit.\<close>

theorem derive_valid:
  assumes "ident_ok pre"
  shows "\<exists>s. derive name pre = Some s \<and> length s \<le> 63 \<and> ident_ok s"
  using derive_total [OF assms, of name] derive_ident_ok [OF assms] by blast

theorem derive_valid_witness:
  "derive ''getURLs 2'' ''n_'' = Some ''n_get_ur_ls_2''
   \<and> (\<exists>s. derive ''getURLs 2'' ''n_'' = Some s \<and> length s \<le> 63 \<and> ident_ok s)"
proof
  show "derive ''getURLs 2'' ''n_'' = Some ''n_get_ur_ls_2''"
    by code_simp
  have "ident_ok ''n_''" by code_simp
  then show "\<exists>s. derive ''getURLs 2'' ''n_'' = Some s \<and> length s \<le> 63 \<and> ident_ok s"
    by (rule derive_valid)
qed

section \<open>What collision resolution guarantees\<close>

lemma length_show_nat: "n < 10 ^ k \<Longrightarrow> 0 < k \<Longrightarrow> length (show_nat n) \<le> k"
proof (induction n arbitrary: k rule: show_nat.induct)
  case (1 n)
  show ?case
  proof (cases "n < 10")
    case False
    with 1(2) have "k \<noteq> 1" by auto
    with 1(3) obtain m where k: "k = Suc m" "0 < m" by (cases k) auto
    with 1(2) have "n div 10 < 10 ^ m" by (simp add: less_mult_imp_div_less)
    with 1(1) False k have "length (show_nat (n div 10)) \<le> m" by simp
    with False k show ?thesis by (subst show_nat.simps) simp
  qed (use 1 in \<open>subst show_nat.simps, simp\<close>)
qed

lemma ordinal_candidate_slice:
  "ident_ok sql \<Longrightarrow> slice_to (min (TRUNCATE_BYTES - (1 + length (show_nat k))) (length sql)) sql
     = Some (take (ordinal_head sql k) sql)"
  by (simp add: ident_ok_slice ordinal_head_def)

lemma ordinal_candidate_ident_ok:
  "ident_ok sql \<Longrightarrow> ident_ok (ordinal_candidate sql (sha256_hex7 bs) k)"
  using ident_ok_take_suffix [of sql "sha256_hex7 bs @ CHR ''_'' # show_nat k" "ordinal_head sql k"]
  by (simp add: ordinal_candidate_def ident_char_hash ident_char_show_nat ident_char_facts)

lemma ordinal_candidate_length:
  "k < 10 ^ 54 \<Longrightarrow> length (ordinal_candidate sql (sha256_hex7 bs) k) \<le> 63"
  using length_show_nat [of k 54] by (simp add: ordinal_candidate_def ordinal_head_def TRUNCATE_BYTES_def)

lemma dedup_probe_result:
  "ident_ok sql \<Longrightarrow>
   \<exists>c. dedup_probe seen sql hash occ candidate = Some c \<and> c \<notin> set seen
     \<and> (c = candidate \<or> (\<exists>k > occ. c = ordinal_candidate sql hash k
          \<and> (\<forall>j. occ < j \<and> j < k \<longrightarrow> ordinal_candidate sql hash j \<in> set seen)))"
proof (induction seen sql hash occ candidate rule: dedup_probe.induct)
  case (1 seen sql hash occ candidate)
  let ?next = "ordinal_candidate sql hash (Suc occ)"
  show ?case
  proof (cases "candidate \<in> set seen")
    case True
    have step: "dedup_probe seen sql hash occ candidate = dedup_probe seen sql hash (Suc occ) ?next"
      using True 1(2) ordinal_candidate_slice [of sql "Suc occ"]
      by (subst dedup_probe.simps) (simp add: ordinal_candidate_def Let_def)
    from 1(1) [OF True refl refl refl] 1(2) ordinal_candidate_slice [of sql "Suc occ"]
    obtain c where c: "dedup_probe seen sql hash (Suc occ) ?next = Some c" "c \<notin> set seen"
      "c = ?next \<or> (\<exists>k > Suc occ. c = ordinal_candidate sql hash k
          \<and> (\<forall>j. Suc occ < j \<and> j < k \<longrightarrow> ordinal_candidate sql hash j \<in> set seen))"
      by (auto simp: ordinal_candidate_def)
    show ?thesis
    proof (cases "?next \<in> set seen")
      case False
      then have "dedup_probe seen sql hash (Suc occ) ?next = Some ?next"
        by (subst dedup_probe.simps) simp
      with step False show ?thesis by (intro exI [of _ ?next]) (auto simp: less_Suc_eq_le)
    next
      case nxt: True
      with c obtain k where k: "Suc occ < k" "c = ordinal_candidate sql hash k"
        "\<forall>j. Suc occ < j \<and> j < k \<longrightarrow> ordinal_candidate sql hash j \<in> set seen" by blast
      have "\<forall>j. occ < j \<and> j < k \<longrightarrow> ordinal_candidate sql hash j \<in> set seen"
      proof (intro allI impI)
        fix j
        assume "occ < j \<and> j < k"
        then show "ordinal_candidate sql hash j \<in> set seen"
          using k(3) nxt by (cases "j = Suc occ") auto
      qed
      with step c k show ?thesis by (intro exI [of _ c]) (auto intro!: exI [of _ k])
    qed
  qed (subst dedup_probe.simps, simp)
qed

lemma ordinal_bound:
  assumes "\<forall>j. occ < j \<and> j < k \<longrightarrow> ordinal_candidate sql hash j \<in> set seen" "occ < k"
  shows "k \<le> occ + length seen + 1"
proof -
  have "card (ordinal_candidate sql hash ` {occ<..<k}) \<le> card (set seen)"
    using assms(1) by (intro card_mono) auto
  moreover have "card (ordinal_candidate sql hash ` {occ<..<k}) = k - occ - 1"
    by (subst card_image) (auto intro: inj_onI ordinal_candidate_inject)
  ultimately show ?thesis
    using card_length [of seen] by linarith
qed

lemma dedup_fresh:
  assumes "ident_ok sql" "length seen < 2 ^ 64"
  shows "\<exists>c. dedup_probe seen sql (sha256_hex7 bs) 1 (take 55 sql @ CHR ''_'' # sha256_hex7 bs) = Some c
           \<and> c \<notin> set seen \<and> ident_ok c \<and> length c \<le> 63"
proof -
  let ?h = "sha256_hex7 bs"
  obtain c where c: "dedup_probe seen sql ?h 1 (take 55 sql @ CHR ''_'' # ?h) = Some c" "c \<notin> set seen"
    "c = take 55 sql @ CHR ''_'' # ?h \<or> (\<exists>k > 1. c = ordinal_candidate sql ?h k
        \<and> (\<forall>j. 1 < j \<and> j < k \<longrightarrow> ordinal_candidate sql ?h j \<in> set seen))"
    using dedup_probe_result [OF assms(1), of seen ?h 1] by blast
  from c(3) have "ident_ok c \<and> length c \<le> 63"
  proof (elim disjE exE conjE)
    assume "c = take 55 sql @ CHR ''_'' # ?h"
    then show ?thesis
      using ident_ok_take_suffix [OF assms(1) ident_char_hash] by simp
  next
    fix k
    assume k: "1 < k" "c = ordinal_candidate sql ?h k"
      "\<forall>j. 1 < j \<and> j < k \<longrightarrow> ordinal_candidate sql ?h j \<in> set seen"
    from ordinal_bound [OF k(3,1)] assms(2) have "k < 10 ^ 54" by simp
    with k(2) assms(1) show ?thesis
      by (simp add: ordinal_candidate_ident_ok ordinal_candidate_length)
  qed
  with c show ?thesis by blast
qed

text \<open>The contract of the loop, for entries that are derived identifiers.\<close>

definition dedup_post :: "string list \<Rightarrow> (string \<times> string) list \<Rightarrow> (string \<times> string) list \<Rightarrow> bool" where
  "dedup_post seen ps out \<longleftrightarrow>
     map fst out = map fst ps \<and> distinct (map snd out) \<and> set (map snd out) \<inter> set seen = {}
   \<and> (\<forall>c \<in> set (map snd out). ident_ok c \<and> length c \<le> 63)
   \<and> (\<forall>i < length ps. snd (ps ! i) \<notin> set seen \<union> set (map snd (take i out)) \<longrightarrow> snd (out ! i) = snd (ps ! i))"

lemma dedup_post_Cons:
  assumes "dedup_post (c # seen) ps out" "ident_ok c" "length c \<le> 63" "c \<notin> set seen"
    and "sql \<notin> set seen \<longrightarrow> c = sql"
  shows "dedup_post seen ((original, sql) # ps) ((original, c) # out)"
proof -
  have "snd (((original, c) # out) ! i) = snd (((original, sql) # ps) ! i)"
    if "i < Suc (length ps)"
      and "snd (((original, sql) # ps) ! i) \<notin> set seen \<union> set (map snd (take i ((original, c) # out)))" for i
    using that assms(1,5) by (cases i) (auto simp: dedup_post_def)
  with assms show ?thesis by (auto simp: dedup_post_def)
qed

lemma dedup_loop_post:
  "\<forall>p \<in> set ps. ident_ok (snd p) \<and> length (snd p) \<le> 63 \<Longrightarrow> length seen + length ps < 2 ^ 64
   \<Longrightarrow> \<exists>out. dedup_loop seen ps = Some out \<and> dedup_post seen ps out"
proof (induction ps arbitrary: seen)
  case Nil
  then show ?case by (simp add: dedup_post_def)
next
  case (Cons p ps)
  obtain original sql where p: "p = (original, sql)" by force
  have sql: "ident_ok sql" "length sql \<le> 63" using Cons.prems(1) p by auto
  show ?case
  proof (cases "sql \<in> set seen")
    case False
    obtain out where "dedup_loop (sql # seen) ps = Some out" "dedup_post (sql # seen) ps out"
      using Cons.IH [of "sql # seen"] Cons.prems by auto
    with False p sql show ?thesis by (auto intro: dedup_post_Cons)
  next
    case True
    have slice: "slice_to (min (length sql) 55) sql = Some (take 55 sql)"
      using sql by (simp add: ident_ok_slice min_def)
    obtain c where c: "dedup_probe seen sql (sha256_hex7 (bytes_of original)) 1
        (take 55 sql @ CHR ''_'' # sha256_hex7 (bytes_of original)) = Some c"
      "c \<notin> set seen" "ident_ok c" "length c \<le> 63"
      using dedup_fresh [of sql seen "bytes_of original"] sql Cons.prems(2) by auto
    obtain out where "dedup_loop (c # seen) ps = Some out" "dedup_post (c # seen) ps out"
      using Cons.IH [of "c # seen"] Cons.prems by auto
    with True p c slice show ?thesis
      by (auto simp: TRUNCATE_BYTES_def Let_def intro: dedup_post_Cons)
  qed
qed

lemma dedup_post:
  assumes "ident_ok pre" "length names < 2 ^ 64"
  obtains derived out where "traverse (\<lambda>n. derive n pre) names = Some derived"
    "dedup names pre = Some out" "dedup_post [] (zip names derived) out" "length derived = length names"
proof -
  have "derive n pre = Some (the (derive n pre))" for n
    using derive_total [OF assms(1), of n] by auto
  then have "traverse (\<lambda>n. derive n pre) names = Some (map (\<lambda>n. the (derive n pre)) names)"
    by (rule traverse_all_Some)
  then obtain derived where d: "traverse (\<lambda>n. derive n pre) names = Some derived" by blast
  then have len: "length derived = length names" by (rule traverse_length)
  have "ident_ok (snd p) \<and> length (snd p) \<le> 63" if "p \<in> set (zip names derived)" for p
  proof -
    from that len obtain i where i: "i < length names" "p = (names ! i, derived ! i)"
      by (auto simp: set_zip)
    with d len have "derive (names ! i) pre = Some (derived ! i)"
      by (auto simp: traverse_Some_iff list_all2_conv_all_nth)
    from derive_ident_ok [OF assms(1) this] i show ?thesis by simp
  qed
  then obtain out where "dedup_loop [] (zip names derived) = Some out"
    "dedup_post [] (zip names derived) out"
    using dedup_loop_post [of "zip names derived" "[]"] assms(2) len by auto
  moreover from this d have "dedup names pre = Some out" by (simp add: dedup_def)
  ultimately show thesis using d len by (intro that [of derived out])
qed



section \<open>Reserved words\<close>

text \<open>
  \<^verbatim>\<open>slice::binary_search\<close>: halve the window, keep the upper half unless the probe compares greater,
  then test the one element left. It answers membership only on a sorted slice.
\<close>

function bsearch_window :: "string list \<Rightarrow> string \<Rightarrow> nat \<Rightarrow> nat \<Rightarrow> nat" where
  "bsearch_window xs x base len =
     (if len > 1 then
        (let half = len div 2; mid = base + half
         in bsearch_window xs x (if xs ! mid > x then base else mid) (len - half))
      else base)"
  by pat_completeness auto
termination by (relation "measure (\<lambda>(_, _, _, len). len)") auto

declare bsearch_window.simps [simp del]

definition binary_search :: "string list \<Rightarrow> string \<Rightarrow> nat option" where
  "binary_search xs x =
     (if xs = [] then None
      else let base = bsearch_window xs x 0 (length xs)
           in if xs ! base = x then Some base else None)"

definition RESERVED :: "string list" where
  "RESERVED =
   [''all'', ''analyse'', ''analyze'', ''and'', ''any'', ''array'', ''as'', ''asc'',
    ''asymmetric'', ''binary'', ''both'', ''case'', ''cast'', ''check'', ''collate'',
    ''collation'', ''column'', ''concurrently'', ''constraint'', ''create'', ''current_catalog'',
    ''current_date'', ''current_role'', ''current_time'', ''current_timestamp'',
    ''current_user'', ''default'', ''deferrable'', ''desc'', ''distinct'', ''do'', ''else'',
    ''end'', ''except'', ''false'', ''fetch'', ''filter'', ''for'', ''foreign'', ''freeze'',
    ''from'', ''full'', ''grant'', ''group'', ''having'', ''ilike'', ''in'', ''initially'',
    ''inner'', ''intersect'', ''into'', ''is'', ''isnull'', ''join'', ''lateral'', ''leading'',
    ''left'', ''like'', ''limit'', ''localtime'', ''localtimestamp'', ''natural'', ''not'',
    ''notnull'', ''null'', ''offset'', ''on'', ''only'', ''or'', ''order'', ''outer'',
    ''overlaps'', ''placing'', ''primary'', ''references'', ''returning'', ''right'', ''select'',
    ''session_user'', ''similar'', ''some'', ''symmetric'', ''table'', ''tablesample'', ''then'',
    ''to'', ''trailing'', ''true'', ''union'', ''unique'', ''user'', ''using'', ''variadic'',
    ''verbose'', ''when'', ''where'', ''window'', ''with'']"

definition is_reserved :: "string \<Rightarrow> bool" where
  "is_reserved name \<longleftrightarrow> binary_search RESERVED name \<noteq> None"

lemma bsearch_window_sound:
  "sorted xs \<Longrightarrow> 0 < len \<Longrightarrow> base + len \<le> length xs \<Longrightarrow> x \<in> set (take len (drop base xs))
   \<Longrightarrow> xs ! bsearch_window xs x base len = x \<and> bsearch_window xs x base len < length xs"
proof (induction xs x base len rule: bsearch_window.induct)
  case (1 xs x base len)
  show ?case
  proof (cases "len > 1")
    case False
    with 1(3) have "len = 1" by simp
    with 1(4,5) show ?thesis
      by (subst (1 2) bsearch_window.simps) (auto simp: in_set_conv_nth)
  next
    case True
    define half where "half = len div 2"
    define base' where "base' = (if xs ! (base + half) > x then base else base + half)"
    have half: "0 < half" "half < len" "half \<le> len - half" using True by (auto simp: half_def)
    obtain i where i: "i < len" "xs ! (base + i) = x"
      using 1(4,5) by (auto simp: in_set_conv_nth)
    have "x \<in> set (take (len - half) (drop base' xs))"
    proof (cases "xs ! (base + half) > x")
      case True
      then have "i < half"
        using i 1(2,4) half sorted_nth_mono [of xs "base + half" "base + i"]
        by (cases "i < half") (auto dest: leD)
      with True i half 1(4) show ?thesis
        by (auto simp: base'_def in_set_conv_nth intro!: exI [of _ i])
    next
      case False
      show ?thesis
      proof (cases "i < half")
        case True
        then have "xs ! (base + half) = x"
          using False i 1(2,4) half sorted_nth_mono [of xs "base + i" "base + half"] by force
        with False half 1(4) show ?thesis
          by (auto simp: base'_def in_set_conv_nth intro!: exI [of _ 0])
      next
        case ge: False
        with False i half 1(4) show ?thesis
          by (auto simp: base'_def in_set_conv_nth intro!: exI [of _ "i - half"])
      qed
    qed
    moreover have "base' + (len - half) \<le> length xs" using 1(4) half by (auto simp: base'_def)
    ultimately have "xs ! bsearch_window xs x base' (len - half) = x
        \<and> bsearch_window xs x base' (len - half) < length xs"
      using 1(1) [OF True half_def refl] 1(2) half by (simp add: base'_def)
    moreover have "bsearch_window xs x base len = bsearch_window xs x base' (len - half)"
      using True by (subst bsearch_window.simps) (simp add: Let_def half_def base'_def)
    ultimately show ?thesis by simp
  qed
qed

lemma bsearch_window_in:
  "0 < len \<Longrightarrow> base + len \<le> length xs \<Longrightarrow> bsearch_window xs x base len < length xs"
proof (induction xs x base len rule: bsearch_window.induct)
  case (1 xs x base len)
  then show ?case
    by (subst bsearch_window.simps) (auto simp: Let_def)
qed

lemma binary_search_sorted:
  assumes "sorted xs"
  shows "binary_search xs x \<noteq> None \<longleftrightarrow> x \<in> set xs"
proof (cases "xs = []")
  case False
  then have "bsearch_window xs x 0 (length xs) < length xs" by (intro bsearch_window_in) auto
  then have "xs ! bsearch_window xs x 0 (length xs) \<in> set xs" by (rule nth_mem)
  with False bsearch_window_sound [OF assms, of "length xs" 0 x] show ?thesis
    by (auto simp: binary_search_def Let_def)
qed (simp add: binary_search_def)

lemma RESERVED_sorted: "sorted RESERVED"
  by code_simp

text \<open>\<open>is_reserved\<close> recognises exactly the listed keywords: the table is sorted, which the binary
  search needs (an unsorted pair once made it miss \<^verbatim>\<open>both\<close>).\<close>

theorem is_reserved_exact: "is_reserved name \<longleftrightarrow> name \<in> set RESERVED"
  unfolding is_reserved_def by (rule binary_search_sorted [OF RESERVED_sorted])

end
