(* ===== verification/Json_Value.thy ===== *)
theory Json_Value
  imports Rust_Str
begin

text \<open>
  \<^verbatim>\<open>serde_json::Value\<close>, the data every component exchanges: the enum with its constructors, the
  \<^verbatim>\<open>preserve_order\<close> map as an association list, and the accessors the sources call. The JSON
  text printer and parser are library code outside the repository: definitions that print or
  parse take them as arguments.
\<close>

section \<open>Numbers\<close>

text \<open>
  \<^verbatim>\<open>serde_json::Number\<close>: an unsigned 64-bit integer, a negative 64-bit integer, or a finite
  double. A finite double is represented by its value; \<open>-0.0\<close> and \<open>0.0\<close> compare equal in
  Rust and are one value here.
\<close>

datatype number = PosInt nat | NegInt int | Float rat

text \<open>The integers a number can hold: \<^verbatim>\<open>u64\<close>, and the negative half of \<^verbatim>\<open>i64\<close>.\<close>

fun number_wf :: "number \<Rightarrow> bool" where
  "number_wf (PosInt n) = (n < 2 ^ 64)"
| "number_wf (NegInt i) = (- (2 ^ 63) \<le> i \<and> i < 0)"
| "number_wf (Float _) = True"

text \<open>Rounding of an integer to the nearest double, ties to even: 53 significant bits.\<close>

fun bit_len :: "nat \<Rightarrow> nat" where
  "bit_len n = (if n = 0 then 0 else Suc (bit_len (n div 2)))"

declare bit_len.simps [simp del]

definition round_f64 :: "nat \<Rightarrow> nat" where
  "round_f64 n =
     (if n < 2 ^ 53 then n
      else let e = bit_len n - 53; q = n div 2 ^ e; r = n mod 2 ^ e; half = 2 ^ (e - 1)
           in (if r > half \<or> (r = half \<and> odd q) then q + 1 else q) * 2 ^ e)"

fun number_as_f64 :: "number \<Rightarrow> rat" where
  "number_as_f64 (PosInt n) = of_nat (round_f64 n)"
| "number_as_f64 (NegInt i) = - of_nat (round_f64 (nat (- i)))"
| "number_as_f64 (Float r) = r"

fun number_as_i64 :: "number \<Rightarrow> int option" where
  "number_as_i64 (PosInt n) = (if n < 2 ^ 63 then Some (int n) else None)"
| "number_as_i64 (NegInt i) = Some i"
| "number_as_i64 (Float _) = None"

fun number_as_u64 :: "number \<Rightarrow> nat option" where
  "number_as_u64 (PosInt n) = Some n"
| "number_as_u64 (NegInt _) = None"
| "number_as_u64 (Float _) = None"

text \<open>\<^verbatim>\<open>Number::from(i64)\<close>.\<close>

definition number_of_int :: "int \<Rightarrow> number" where
  "number_of_int i = (if 0 \<le> i then PosInt (nat i) else NegInt i)"

lemma number_as_i64_of_int [simp]:
  "- (2 ^ 63) \<le> i \<Longrightarrow> i < 2 ^ 63 \<Longrightarrow> number_as_i64 (number_of_int i) = Some i"
  by (auto simp: number_of_int_def)

section \<open>Values\<close>

datatype json =
    JNull
  | JBool bool
  | JNum number
  | JStr string
  | JArr "json list"
  | JObj "(string \<times> json) list"

text \<open>\<^verbatim>\<open>Value::get\<close> with a string key: a member of an object, nothing of anything else.\<close>

fun jget :: "string \<Rightarrow> json \<Rightarrow> json option" where
  "jget k (JObj kvs) = map_of kvs k"
| "jget k _ = None"

fun as_str :: "json \<Rightarrow> string option" where
  "as_str (JStr s) = Some s"
| "as_str _ = None"

fun as_bool :: "json \<Rightarrow> bool option" where
  "as_bool (JBool b) = Some b"
| "as_bool _ = None"

fun as_array :: "json \<Rightarrow> json list option" where
  "as_array (JArr xs) = Some xs"
| "as_array _ = None"

fun as_object :: "json \<Rightarrow> (string \<times> json) list option" where
  "as_object (JObj kvs) = Some kvs"
| "as_object _ = None"

fun as_i64 :: "json \<Rightarrow> int option" where
  "as_i64 (JNum n) = number_as_i64 n"
| "as_i64 _ = None"

fun as_u64 :: "json \<Rightarrow> nat option" where
  "as_u64 (JNum n) = number_as_u64 n"
| "as_u64 _ = None"

fun as_f64 :: "json \<Rightarrow> rat option" where
  "as_f64 (JNum n) = Some (number_as_f64 n)"
| "as_f64 _ = None"

definition is_null :: "json \<Rightarrow> bool" where
  "is_null v \<longleftrightarrow> v = JNull"

text \<open>\<^verbatim>\<open>v.get(k).and_then(Value::as_str)\<close> and its siblings.\<close>

definition get_str :: "string \<Rightarrow> json \<Rightarrow> string option" where
  "get_str k v = Option.bind (jget k v) as_str"

definition get_bool :: "string \<Rightarrow> json \<Rightarrow> bool option" where
  "get_bool k v = Option.bind (jget k v) as_bool"

definition get_array :: "string \<Rightarrow> json \<Rightarrow> json list option" where
  "get_array k v = Option.bind (jget k v) as_array"

definition get_i64 :: "string \<Rightarrow> json \<Rightarrow> int option" where
  "get_i64 k v = Option.bind (jget k v) as_i64"

lemmas get_defs = get_str_def get_bool_def get_array_def get_i64_def

text \<open>\<^verbatim>\<open>Map::insert\<close>: an existing key keeps its place, a new one goes last.\<close>

fun obj_insert :: "string \<Rightarrow> json \<Rightarrow> (string \<times> json) list \<Rightarrow> (string \<times> json) list" where
  "obj_insert k v [] = [(k, v)]"
| "obj_insert k v ((k', v') # kvs) =
     (if k' = k then (k, v) # kvs else (k', v') # obj_insert k v kvs)"

lemma map_of_obj_insert [simp]: "map_of (obj_insert k v kvs) = (map_of kvs)(k \<mapsto> v)"
  by (induction kvs) auto

lemma keys_obj_insert:
  "map fst (obj_insert k v kvs) =
     (if k \<in> set (map fst kvs) then map fst kvs else map fst kvs @ [k])"
proof (induction kvs)
  case (Cons kv kvs)
  then show ?case by (cases kv) (auto simp del: set_map)
qed simp

lemma distinct_obj_insert:
  "distinct (map fst kvs) \<Longrightarrow> distinct (map fst (obj_insert k v kvs))"
  by (simp add: keys_obj_insert)

text \<open>
  The representation invariant of a value: integers in range and no object with a repeated key
  (the map type cannot hold one).
\<close>

fun json_wf :: "json \<Rightarrow> bool" where
  "json_wf (JNum n) = number_wf n"
| "json_wf (JArr xs) = list_all json_wf xs"
| "json_wf (JObj kvs) = (distinct (map fst kvs) \<and> list_all (\<lambda>kv. json_wf (snd kv)) kvs)"
| "json_wf _ = True"

lemma json_wf_jget: "json_wf v \<Longrightarrow> jget k v = Some x \<Longrightarrow> json_wf x"
  by (cases v) (auto simp: list_all_iff dest: map_of_SomeD)

lemma jget_Some_obj: "jget k v = Some x \<Longrightarrow> \<exists>kvs. v = JObj kvs \<and> map_of kvs k = Some x"
  by (cases v) auto

lemma as_str_Some [simp]: "as_str v = Some s \<longleftrightarrow> v = JStr s"
  by (cases v) auto

lemma as_array_Some [simp]: "as_array v = Some xs \<longleftrightarrow> v = JArr xs"
  by (cases v) auto

lemma as_object_Some [simp]: "as_object v = Some kvs \<longleftrightarrow> v = JObj kvs"
  by (cases v) auto

lemma as_bool_Some [simp]: "as_bool v = Some b \<longleftrightarrow> v = JBool b"
  by (cases v) auto

lemma as_i64_range:
  "json_wf v \<Longrightarrow> as_i64 v = Some i \<Longrightarrow> - (2 ^ 63) \<le> i \<and> i < 2 ^ 63"
proof (cases v)
  case (JNum n)
  assume "json_wf v" "as_i64 v = Some i"
  with JNum show ?thesis by (cases n) (auto split: if_splits)
qed auto

end
