(* ===== verification/Quals.thy ===== *)
theory Quals
  imports Json_Value
begin

text \<open>
  \<^verbatim>\<open>quals.rs\<close>: the restrictions the planner hands to a table, and the comparison a table filters its
  rows with.
\<close>

section \<open>Value equality\<close>

text \<open>
  \<^verbatim>\<open>PartialEq\<close> of a JSON value: numbers by variant, objects as maps (member order is irrelevant),
  everything else structurally.
\<close>

fun value_eq :: "json \<Rightarrow> json \<Rightarrow> bool"
  and values_eq :: "json list \<Rightarrow> json list \<Rightarrow> bool"
  and members_eq :: "(string \<times> json) list \<Rightarrow> (string \<times> json) list \<Rightarrow> bool"
where
  "value_eq (JArr xs) b = (case b of JArr ys \<Rightarrow> values_eq xs ys | _ \<Rightarrow> False)"
| "value_eq (JObj kvs) b = (case b of JObj lvs \<Rightarrow> length kvs = length lvs \<and> members_eq kvs lvs | _ \<Rightarrow> False)"
| "value_eq a b = (a = b)"
| "values_eq [] ys = (ys = [])"
| "values_eq (x # xs) ys = (case ys of [] \<Rightarrow> False | y # ys \<Rightarrow> value_eq x y \<and> values_eq xs ys)"
| "members_eq [] lvs = True"
| "members_eq ((k, v) # kvs) lvs =
     ((case map_of lvs k of None \<Rightarrow> False | Some w \<Rightarrow> value_eq v w) \<and> members_eq kvs lvs)"

lemma values_eq_iff: "values_eq xs ys \<longleftrightarrow> list_all2 value_eq xs ys"
  by (induction xs arbitrary: ys) (auto split: list.splits)

lemma members_eq_iff:
  "members_eq kvs lvs \<longleftrightarrow> (\<forall>(k, v) \<in> set kvs. \<exists>w. map_of lvs k = Some w \<and> value_eq v w)"
  by (induction kvs) (auto split: option.splits)

lemma value_eq_refl: "json_wf v \<Longrightarrow> value_eq v v"
proof (induction v)
  case (JArr xs)
  then show ?case by (auto simp: values_eq_iff list_all_iff intro!: list.rel_refl_strong)
next
  case (JObj kvs)
  then show ?case
    by (auto simp: members_eq_iff list_all_iff map_of_eq_Some_iff) (metis snd_conv snds.intros)+
qed auto

section \<open>Quals\<close>

datatype operator = Equal | AnyEqual

record qual =
  field :: string
  operator :: operator
  qvalue :: json
  use_or :: bool

definition qual_equal :: "string \<Rightarrow> json \<Rightarrow> qual" where
  "qual_equal f v = \<lparr>field = f, operator = Equal, qvalue = v, use_or = False\<rparr>"

definition any_equal :: "string \<Rightarrow> json list \<Rightarrow> qual" where
  "any_equal f vs = \<lparr>field = f, operator = AnyEqual, qvalue = JArr vs, use_or = False\<rparr>"

fun is_qual_primitive :: "json \<Rightarrow> bool" where
  "is_qual_primitive (JStr _) = True"
| "is_qual_primitive (JNum _) = True"
| "is_qual_primitive (JBool _) = True"
| "is_qual_primitive _ = False"

definition is_supported :: "qual \<Rightarrow> bool" where
  "is_supported q =
     (if field q = [] then False
      else case operator q of
             Equal \<Rightarrow> \<not> is_null (qvalue q)
           | AnyEqual \<Rightarrow> (case as_array (qvalue q) of
                           None \<Rightarrow> False
                         | Some items \<Rightarrow> list_all is_qual_primitive items))"

definition json_equal :: "json \<Rightarrow> json \<Rightarrow> bool" where
  "json_equal a b =
     (case (a, b) of
        (JNull, _) \<Rightarrow> False
      | (_, JNull) \<Rightarrow> False
      | (JNum x, JNum y) \<Rightarrow> number_as_f64 x = number_as_f64 y
      | _ \<Rightarrow> value_eq a b)"

definition matches_json :: "qual \<Rightarrow> string \<Rightarrow> json \<Rightarrow> bool" where
  "matches_json q column candidate =
     (if column \<noteq> field q then True
      else case operator q of
             Equal \<Rightarrow> json_equal (qvalue q) candidate
           | AnyEqual \<Rightarrow> (case as_array (qvalue q) of
                           None \<Rightarrow> False
                         | Some items \<Rightarrow> list_ex (\<lambda>v. json_equal v candidate) items))"

definition restricted_values :: "qual \<Rightarrow> json list" where
  "restricted_values q =
     (case (operator q, qvalue q) of
        (Equal, v) \<Rightarrow> [v]
      | (AnyEqual, JArr items) \<Rightarrow> items
      | (AnyEqual, _) \<Rightarrow> [])"

record param_qual =
  pq_field :: string
  pq_index :: nat
  omit_null :: bool
  param_type :: nat

record fdw_private =
  fp_table :: string
  fp_quals :: "qual list"
  fp_params :: "param_qual list"

section \<open>What the comparison means\<close>

lemma json_equal_null [simp]: "json_equal JNull v = False" "json_equal v JNull = False"
  by (simp_all add: json_equal_def split: json.splits)

lemma json_equal_refl: "json_wf v \<Longrightarrow> v \<noteq> JNull \<Longrightarrow> json_equal v v"
  using value_eq_refl [of v] by (cases v) (simp_all add: json_equal_def del: value_eq.simps)

lemma json_equal_str [simp]: "json_equal (JStr s) v \<longleftrightarrow> v = JStr s"
  by (cases v) (auto simp: json_equal_def)

lemma json_equal_bool [simp]: "json_equal (JBool b) v \<longleftrightarrow> v = JBool b"
  by (cases v) (auto simp: json_equal_def)

lemma matches_json_iff:
  "matches_json q (field q) v \<longleftrightarrow> (\<exists>r \<in> set (restricted_values q). json_equal r v)"
  by (cases "operator q"; cases "qvalue q")
    (auto simp: matches_json_def restricted_values_def list_ex_iff)

text \<open>C21. The two readings of a qual agree: the rows the post-fetch filter keeps are those whose value
  equals one of the values a read-through table asks the server for. A NULL value satisfies no
  qual on its column, a row holding one of the restricted values itself is always kept, and a
  qual on another column never falsifies.\<close>

theorem qual_filter_is_restriction:
  "(matches_json q (field q) v \<longleftrightarrow> (\<exists>r \<in> set (restricted_values q). json_equal r v))
   \<and> \<not> matches_json q (field q) JNull
   \<and> (is_supported q \<and> v \<in> set (restricted_values q) \<and> json_wf v \<longrightarrow> matches_json q (field q) v)
   \<and> (c \<noteq> field q \<longrightarrow> matches_json q c v)"
proof (intro conjI impI)
  assume a: "is_supported q \<and> v \<in> set (restricted_values q) \<and> json_wf v"
  then have "v \<noteq> JNull"
    by (cases "operator q"; cases "qvalue q")
      (auto simp: is_supported_def restricted_values_def is_null_def list_all_iff split: if_splits)
  with a show "matches_json q (field q) v"
    by (auto simp: matches_json_iff intro: json_equal_refl)
qed (simp_all add: matches_json_iff matches_json_def [of q c])

theorem qual_filter_is_restriction_witness:
  "matches_json (any_equal ''uri'' [JStr ''a'', JStr ''b'']) ''uri'' (JStr ''b'')
   \<and> matches_json (any_equal ''uri'' [JStr ''a'', JStr ''b'']) ''name'' (JStr ''z'')
   \<and> \<not> matches_json (any_equal ''uri'' [JStr ''a'', JStr ''b'']) ''uri'' (JStr ''z'')"
proof -
  let ?q = "any_equal ''uri'' [JStr ''a'', JStr ''b'']"
  have "is_supported ?q" "JStr ''b'' \<in> set (restricted_values ?q)" "field ?q = ''uri''"
    by (simp_all add: is_supported_def any_equal_def restricted_values_def)
  then show ?thesis
    using qual_filter_is_restriction [of ?q "JStr ''b''" "''uri''"]
      qual_filter_is_restriction [of ?q "JStr ''z''" "''name''"]
    by (simp add: restricted_values_def any_equal_def)
qed

text \<open>
  Integers compare through their rounding to a double, so a qual on a 64-bit column also keeps
  neighbours above \<open>2 ^ 53\<close>; since the clause is not re-checked, those rows are returned.
\<close>

lemma json_equal_conflates_large_integers:
  "json_equal (JNum (PosInt 9007199254740993)) (JNum (PosInt 9007199254740992))"
  by (simp add: json_equal_def round_f64_def Let_def bit_len.simps)

end
