(* ===== verification/Mcp_Errors.thy ===== *)
theory Mcp_Errors
  imports Json_Value
begin

text \<open>
  \<^verbatim>\<open>errors.rs\<close>: the one error type of the extension, its SQLSTATE table, and the classification
  of JSON-RPC and HTTP failures. A Rust \<^verbatim>\<open>McpResult<T>\<close> is \<open>mcp_error + 'a\<close>.
\<close>

section \<open>The error type\<close>

datatype mcp_error =
    InvalidParams string
  | MethodNotFound string
  | Forbidden string
  | Transport string
  | UndefinedObject string
  | NoAuthMapping string
  | ToolError string
  | InvalidOption string
  | NotImplemented string
  | Internal string
  | FeatureNotSupported string
  | TooManyArguments string
  | NotNullViolation string
  | DatatypeMismatch string
  | InvalidSchemaName string
  | Rpc int string

type_synonym 'a mcp_result = "mcp_error + 'a"

definition JSONRPC_INVALID_PARAMS :: int where "JSONRPC_INVALID_PARAMS = -32602"
definition JSONRPC_METHOD_NOT_FOUND :: int where "JSONRPC_METHOD_NOT_FOUND = -32601"
definition JSONRPC_INVALID_REQUEST :: int where "JSONRPC_INVALID_REQUEST = -32600"
definition JSONRPC_PARSE_ERROR :: int where "JSONRPC_PARSE_ERROR = -32700"
definition JSONRPC_INTERNAL_ERROR :: int where "JSONRPC_INTERNAL_ERROR = -32603"

lemmas jsonrpc_codes = JSONRPC_INVALID_PARAMS_def JSONRPC_METHOD_NOT_FOUND_def
  JSONRPC_INVALID_REQUEST_def JSONRPC_PARSE_ERROR_def JSONRPC_INTERNAL_ERROR_def

fun sqlstate :: "mcp_error \<Rightarrow> string" where
  "sqlstate (InvalidParams _) = ''22023''"
| "sqlstate (InvalidOption _) = ''22023''"
| "sqlstate (Rpc _ _) = ''22023''"
| "sqlstate (MethodNotFound _) = ''0A000''"
| "sqlstate (NotImplemented _) = ''0A000''"
| "sqlstate (FeatureNotSupported _) = ''0A000''"
| "sqlstate (Internal _) = ''XX000''"
| "sqlstate (TooManyArguments _) = ''54023''"
| "sqlstate (NotNullViolation _) = ''23502''"
| "sqlstate (DatatypeMismatch _) = ''42804''"
| "sqlstate (InvalidSchemaName _) = ''3F000''"
| "sqlstate (Forbidden _) = ''42501''"
| "sqlstate (Transport _) = ''08006''"
| "sqlstate (UndefinedObject _) = ''42704''"
| "sqlstate (NoAuthMapping _) = ''28000''"
| "sqlstate (ToolError _) = ''P0001''"

fun message :: "mcp_error \<Rightarrow> string" where
  "message (InvalidParams m) = m"
| "message (MethodNotFound m) = m"
| "message (Forbidden m) = m"
| "message (Transport m) = m"
| "message (UndefinedObject m) = m"
| "message (NoAuthMapping m) = m"
| "message (ToolError m) = m"
| "message (InvalidOption m) = m"
| "message (NotImplemented m) = m"
| "message (Internal m) = m"
| "message (FeatureNotSupported m) = m"
| "message (TooManyArguments m) = m"
| "message (NotNullViolation m) = m"
| "message (DatatypeMismatch m) = m"
| "message (InvalidSchemaName m) = m"
| "message (Rpc _ m) = m"

section \<open>Classification\<close>

definition is_authz_message :: "string \<Rightarrow> bool" where
  "is_authz_message m =
     (let lower = to_ascii_lowercase m
      in str_contains ''unauthorized'' lower
       \<or> str_contains ''forbidden'' lower
       \<or> str_contains ''access denied'' lower
       \<or> str_contains ''insufficient scope'' lower
       \<or> str_contains ''invalid_token'' lower)"

definition is_expired_session :: "string \<Rightarrow> bool" where
  "is_expired_session m =
     (let lower = to_ascii_lowercase m
      in (str_contains ''session'' lower
          \<and> (str_contains ''expired'' lower \<or> str_contains ''unknown'' lower
             \<or> str_contains ''not found'' lower))
       \<or> str_contains ''invalid session id'' lower)"

definition from_rpc :: "int \<Rightarrow> string \<Rightarrow> mcp_error" where
  "from_rpc code m =
     (if code = JSONRPC_INVALID_PARAMS then InvalidParams m
      else if code = JSONRPC_METHOD_NOT_FOUND then MethodNotFound m
      else if code = JSONRPC_INVALID_REQUEST \<or> code = JSONRPC_PARSE_ERROR
              \<or> code = JSONRPC_INTERNAL_ERROR
        then Internal (''MCP protocol failure ('' @ show_int code @ ''): '' @ m)
      else if is_authz_message m then Forbidden m
      else Rpc code m)"

definition from_http_status :: "nat \<Rightarrow> mcp_error" where
  "from_http_status status =
     (if status = 401 \<or> status = 403 then
        Forbidden (''MCP server rejected the request (HTTP '' @ show_nat status @ '')'')
      else if status = 400 then InvalidParams ''MCP server rejected the request (HTTP 400)''
      else if status = 405 then MethodNotFound ''MCP server does not accept POST (HTTP 405)''
      else Transport (''MCP server returned HTTP '' @ show_nat status))"

section \<open>Reporting\<close>

text \<open>
  \<^verbatim>\<open>error_code\<close> picks the PostgreSQL error-code constant that \<^verbatim>\<open>ereport\<close> is called with;
  \<open>errcode_sqlstate\<close> is PostgreSQL's published SQLSTATE of that constant (Appendix A).
\<close>

datatype pg_error_code =
    ERRCODE_INVALID_PARAMETER_VALUE
  | ERRCODE_FEATURE_NOT_SUPPORTED
  | ERRCODE_INTERNAL_ERROR
  | ERRCODE_TOO_MANY_ARGUMENTS
  | ERRCODE_NOT_NULL_VIOLATION
  | ERRCODE_DATATYPE_MISMATCH
  | ERRCODE_INVALID_SCHEMA_NAME
  | ERRCODE_INSUFFICIENT_PRIVILEGE
  | ERRCODE_CONNECTION_FAILURE
  | ERRCODE_UNDEFINED_OBJECT
  | ERRCODE_INVALID_AUTHORIZATION_SPECIFICATION
  | ERRCODE_RAISE_EXCEPTION

fun errcode_sqlstate :: "pg_error_code \<Rightarrow> string" where
  "errcode_sqlstate ERRCODE_INVALID_PARAMETER_VALUE = ''22023''"
| "errcode_sqlstate ERRCODE_FEATURE_NOT_SUPPORTED = ''0A000''"
| "errcode_sqlstate ERRCODE_INTERNAL_ERROR = ''XX000''"
| "errcode_sqlstate ERRCODE_TOO_MANY_ARGUMENTS = ''54023''"
| "errcode_sqlstate ERRCODE_NOT_NULL_VIOLATION = ''23502''"
| "errcode_sqlstate ERRCODE_DATATYPE_MISMATCH = ''42804''"
| "errcode_sqlstate ERRCODE_INVALID_SCHEMA_NAME = ''3F000''"
| "errcode_sqlstate ERRCODE_INSUFFICIENT_PRIVILEGE = ''42501''"
| "errcode_sqlstate ERRCODE_CONNECTION_FAILURE = ''08006''"
| "errcode_sqlstate ERRCODE_UNDEFINED_OBJECT = ''42704''"
| "errcode_sqlstate ERRCODE_INVALID_AUTHORIZATION_SPECIFICATION = ''28000''"
| "errcode_sqlstate ERRCODE_RAISE_EXCEPTION = ''P0001''"

fun error_code :: "mcp_error \<Rightarrow> pg_error_code" where
  "error_code (InvalidParams _) = ERRCODE_INVALID_PARAMETER_VALUE"
| "error_code (InvalidOption _) = ERRCODE_INVALID_PARAMETER_VALUE"
| "error_code (Rpc _ _) = ERRCODE_INVALID_PARAMETER_VALUE"
| "error_code (MethodNotFound _) = ERRCODE_FEATURE_NOT_SUPPORTED"
| "error_code (NotImplemented _) = ERRCODE_FEATURE_NOT_SUPPORTED"
| "error_code (FeatureNotSupported _) = ERRCODE_FEATURE_NOT_SUPPORTED"
| "error_code (Internal _) = ERRCODE_INTERNAL_ERROR"
| "error_code (TooManyArguments _) = ERRCODE_TOO_MANY_ARGUMENTS"
| "error_code (NotNullViolation _) = ERRCODE_NOT_NULL_VIOLATION"
| "error_code (DatatypeMismatch _) = ERRCODE_DATATYPE_MISMATCH"
| "error_code (InvalidSchemaName _) = ERRCODE_INVALID_SCHEMA_NAME"
| "error_code (Forbidden _) = ERRCODE_INSUFFICIENT_PRIVILEGE"
| "error_code (Transport _) = ERRCODE_CONNECTION_FAILURE"
| "error_code (UndefinedObject _) = ERRCODE_UNDEFINED_OBJECT"
| "error_code (NoAuthMapping _) = ERRCODE_INVALID_AUTHORIZATION_SPECIFICATION"
| "error_code (ToolError _) = ERRCODE_RAISE_EXCEPTION"

text \<open>What \<^verbatim>\<open>raise\<close> and \<^verbatim>\<open>raise_ctx\<close> hand to \<^verbatim>\<open>ereport(ERROR, ...)\<close>; neither returns.\<close>

record pg_report =
  rep_code :: pg_error_code
  rep_message :: string
  rep_detail :: "string option"

definition raise_err :: "mcp_error \<Rightarrow> pg_report" where
  "raise_err e = \<lparr>rep_code = error_code e, rep_message = message e, rep_detail = None\<rparr>"

definition raise_ctx :: "mcp_error \<Rightarrow> string \<Rightarrow> string \<Rightarrow> pg_report" where
  "raise_ctx e server mthd =
     \<lparr>rep_code = error_code e, rep_message = message e,
      rep_detail = Some (''foreign server \"'' @ server @ ''\", MCP method \"'' @ mthd @ ''\"'')\<rparr>"

section \<open>Facts\<close>

lemma errcode_sqlstate_error_code [simp]: "errcode_sqlstate (error_code e) = sqlstate e"
  by (cases e) simp_all

lemma from_rpc_Transport [simp]: "from_rpc c m \<noteq> Transport m'"
  by (simp add: from_rpc_def)

lemma from_rpc_MethodNotFound_iff:
  "from_rpc c m = MethodNotFound m' \<longleftrightarrow> c = JSONRPC_METHOD_NOT_FOUND \<and> m' = m"
  by (auto simp: from_rpc_def jsonrpc_codes)

end
