(* ===== verification/Table_Specs.thy ===== *)
theory Table_Specs
  imports Quals Mcp_Errors
begin

text \<open>
  \<^verbatim>\<open>tables/mod.rs\<close>: the column and row model, the ten table specifications, the registry and its
  lookup, and the scan-cursor contract. The contexts of a scan follow in \<open>Table_Context\<close>, after the
  server options they carry.
\<close>

section \<open>Columns\<close>

datatype column_type =
    Ty_Text | Ty_Jsonb | Ty_Boolean | Ty_Int4 | Ty_Int8 | Ty_Bytea | Ty_Uuid | Ty_TimestampTz
  | Ty_Float8 | Ty_Date

text \<open>Type OIDs are the constants of PostgreSQL's \<^verbatim>\<open>pg_type.dat\<close>.\<close>

fun oid :: "column_type \<Rightarrow> nat" where
  "oid Ty_Text = 25"
| "oid Ty_Jsonb = 3802"
| "oid Ty_Boolean = 16"
| "oid Ty_Int4 = 23"
| "oid Ty_Int8 = 20"
| "oid Ty_Bytea = 17"
| "oid Ty_Uuid = 2950"
| "oid Ty_TimestampTz = 1184"
| "oid Ty_Float8 = 701"
| "oid Ty_Date = 1082"

fun sql_name :: "column_type \<Rightarrow> string" where
  "sql_name Ty_Text = ''text''"
| "sql_name Ty_Jsonb = ''jsonb''"
| "sql_name Ty_Boolean = ''boolean''"
| "sql_name Ty_Int4 = ''integer''"
| "sql_name Ty_Int8 = ''bigint''"
| "sql_name Ty_Bytea = ''bytea''"
| "sql_name Ty_Uuid = ''uuid''"
| "sql_name Ty_TimestampTz = ''timestamptz''"
| "sql_name Ty_Float8 = ''double precision''"
| "sql_name Ty_Date = ''date''"

datatype source_kind =
    ServerIdentity | Initialize | SList string | ReadThrough string | Invocation | Local

record column_spec =
  col_name :: string
  pg_type :: column_type
  source :: source_kind

record table_spec =
  ts_name :: string
  columns :: "column_spec list"

definition arity :: "table_spec \<Rightarrow> nat" where
  "arity spec = length (columns spec)"

text \<open>\<^verbatim>\<open>Iterator::position\<close>.\<close>

fun position :: "('a \<Rightarrow> bool) \<Rightarrow> 'a list \<Rightarrow> nat option" where
  "position P [] = None"
| "position P (x # xs) = (if P x then Some 0 else map_option Suc (position P xs))"

definition attno :: "table_spec \<Rightarrow> string \<Rightarrow> nat option" where
  "attno spec column = map_option (\<lambda>i. i + 1) (position (\<lambda>c. col_name c = column) (columns spec))"

definition column_at :: "table_spec \<Rightarrow> nat \<Rightarrow> column_spec option" where
  "column_at spec index = (if index < length (columns spec) then Some (columns spec ! index) else None)"

section \<open>Rows\<close>

text \<open>
  A double cell holds its value when it is finite; \<open>None\<close> stands for an infinity or a NaN.
\<close>

datatype cell =
    Cell_Text string
  | Cell_Json json
  | Cell_Bool bool
  | Cell_Int4 int
  | Cell_Int8 int
  | Cell_Bytea "nat list"
  | Cell_Uuid "nat list"
  | Cell_TimestampTz int
  | Cell_Float8 "rat option"
  | Cell_Date string

fun cell_as_json :: "cell \<Rightarrow> json" where
  "cell_as_json (Cell_Text s) = JStr s"
| "cell_as_json (Cell_Json v) = v"
| "cell_as_json (Cell_Bool b) = JBool b"
| "cell_as_json (Cell_Int4 i) = JNum (number_of_int i)"
| "cell_as_json (Cell_Int8 i) = JNum (number_of_int i)"
| "cell_as_json (Cell_Float8 f) = (case f of Some r \<Rightarrow> JNum (Float r) | None \<Rightarrow> JNull)"
| "cell_as_json (Cell_Date d) = JStr d"
| "cell_as_json (Cell_Bytea _) = JNull"
| "cell_as_json (Cell_Uuid _) = JNull"
| "cell_as_json (Cell_TimestampTz _) = JNull"

type_synonym row = "cell option list"

definition empty_row :: "table_spec \<Rightarrow> row" where
  "empty_row spec = replicate (arity spec) None"

record insert_row =
  ir_spec :: table_spec
  ir_cells :: row

definition insert_value :: "insert_row \<Rightarrow> string \<Rightarrow> cell option" where
  "insert_value r column =
     (case attno (ir_spec r) column of
        None \<Rightarrow> None
      | Some n \<Rightarrow> (let idx = n - 1
                   in if idx < length (ir_cells r) then ir_cells r ! idx else None))"

section \<open>The specifications\<close>

definition SERVER_SPEC :: table_spec where
  "SERVER_SPEC =
     \<lparr>ts_name = ''server'', columns = [
       \<lparr>col_name = ''name'', pg_type = Ty_Text, source = ServerIdentity\<rparr>,
       \<lparr>col_name = ''url'', pg_type = Ty_Text, source = ServerIdentity\<rparr>,
       \<lparr>col_name = ''protocol_version'', pg_type = Ty_Text, source = Initialize\<rparr>,
       \<lparr>col_name = ''server_name'', pg_type = Ty_Text, source = Initialize\<rparr>,
       \<lparr>col_name = ''server_version'', pg_type = Ty_Text, source = Initialize\<rparr>,
       \<lparr>col_name = ''instructions'', pg_type = Ty_Text, source = Initialize\<rparr>,
       \<lparr>col_name = ''capabilities'', pg_type = Ty_Jsonb, source = Initialize\<rparr>,
       \<lparr>col_name = ''mode'', pg_type = Ty_Text, source = ServerIdentity\<rparr>,
       \<lparr>col_name = ''session_id'', pg_type = Ty_Text, source = ServerIdentity\<rparr>]\<rparr>"

definition TOOLS_SPEC :: table_spec where
  "TOOLS_SPEC =
     \<lparr>ts_name = ''tools'', columns = [
       \<lparr>col_name = ''name'', pg_type = Ty_Text, source = SList ''tools/list''\<rparr>,
       \<lparr>col_name = ''title'', pg_type = Ty_Text, source = SList ''tools/list''\<rparr>,
       \<lparr>col_name = ''description'', pg_type = Ty_Text, source = SList ''tools/list''\<rparr>,
       \<lparr>col_name = ''input_schema'', pg_type = Ty_Jsonb, source = SList ''tools/list''\<rparr>,
       \<lparr>col_name = ''output_schema'', pg_type = Ty_Jsonb, source = SList ''tools/list''\<rparr>,
       \<lparr>col_name = ''annotations'', pg_type = Ty_Jsonb, source = SList ''tools/list''\<rparr>,
       \<lparr>col_name = ''read_only'', pg_type = Ty_Boolean, source = SList ''tools/list''\<rparr>,
       \<lparr>col_name = ''destructive'', pg_type = Ty_Boolean, source = SList ''tools/list''\<rparr>,
       \<lparr>col_name = ''idempotent'', pg_type = Ty_Boolean, source = SList ''tools/list''\<rparr>,
       \<lparr>col_name = ''open_world'', pg_type = Ty_Boolean, source = SList ''tools/list''\<rparr>,
       \<lparr>col_name = ''meta'', pg_type = Ty_Jsonb, source = SList ''tools/list''\<rparr>]\<rparr>"

definition PROMPTS_SPEC :: table_spec where
  "PROMPTS_SPEC =
     \<lparr>ts_name = ''prompts'', columns = [
       \<lparr>col_name = ''name'', pg_type = Ty_Text, source = SList ''prompts/list''\<rparr>,
       \<lparr>col_name = ''title'', pg_type = Ty_Text, source = SList ''prompts/list''\<rparr>,
       \<lparr>col_name = ''description'', pg_type = Ty_Text, source = SList ''prompts/list''\<rparr>,
       \<lparr>col_name = ''meta'', pg_type = Ty_Jsonb, source = SList ''prompts/list''\<rparr>]\<rparr>"

definition PROMPT_ARGUMENTS_SPEC :: table_spec where
  "PROMPT_ARGUMENTS_SPEC =
     \<lparr>ts_name = ''prompt_arguments'', columns = [
       \<lparr>col_name = ''prompt'', pg_type = Ty_Text, source = SList ''prompts/list''\<rparr>,
       \<lparr>col_name = ''name'', pg_type = Ty_Text, source = SList ''prompts/list''\<rparr>,
       \<lparr>col_name = ''description'', pg_type = Ty_Text, source = SList ''prompts/list''\<rparr>,
       \<lparr>col_name = ''required'', pg_type = Ty_Boolean, source = SList ''prompts/list''\<rparr>,
       \<lparr>col_name = ''idx'', pg_type = Ty_Int4, source = SList ''prompts/list''\<rparr>]\<rparr>"

definition RESOURCES_SPEC :: table_spec where
  "RESOURCES_SPEC =
     \<lparr>ts_name = ''resources'', columns = [
       \<lparr>col_name = ''uri'', pg_type = Ty_Text, source = SList ''resources/list''\<rparr>,
       \<lparr>col_name = ''name'', pg_type = Ty_Text, source = SList ''resources/list''\<rparr>,
       \<lparr>col_name = ''title'', pg_type = Ty_Text, source = SList ''resources/list''\<rparr>,
       \<lparr>col_name = ''description'', pg_type = Ty_Text, source = SList ''resources/list''\<rparr>,
       \<lparr>col_name = ''mime_type'', pg_type = Ty_Text, source = SList ''resources/list''\<rparr>,
       \<lparr>col_name = ''size'', pg_type = Ty_Int8, source = SList ''resources/list''\<rparr>,
       \<lparr>col_name = ''annotations'', pg_type = Ty_Jsonb, source = SList ''resources/list''\<rparr>,
       \<lparr>col_name = ''meta'', pg_type = Ty_Jsonb, source = SList ''resources/list''\<rparr>]\<rparr>"

definition RESOURCE_TEMPLATES_SPEC :: table_spec where
  "RESOURCE_TEMPLATES_SPEC =
     \<lparr>ts_name = ''resource_templates'', columns = [
       \<lparr>col_name = ''uri_template'', pg_type = Ty_Text, source = SList ''resources/templates/list''\<rparr>,
       \<lparr>col_name = ''name'', pg_type = Ty_Text, source = SList ''resources/templates/list''\<rparr>,
       \<lparr>col_name = ''title'', pg_type = Ty_Text, source = SList ''resources/templates/list''\<rparr>,
       \<lparr>col_name = ''description'', pg_type = Ty_Text, source = SList ''resources/templates/list''\<rparr>,
       \<lparr>col_name = ''mime_type'', pg_type = Ty_Text, source = SList ''resources/templates/list''\<rparr>,
       \<lparr>col_name = ''annotations'', pg_type = Ty_Jsonb, source = SList ''resources/templates/list''\<rparr>,
       \<lparr>col_name = ''meta'', pg_type = Ty_Jsonb, source = SList ''resources/templates/list''\<rparr>]\<rparr>"

definition RESOURCE_CONTENTS_SPEC :: table_spec where
  "RESOURCE_CONTENTS_SPEC =
     \<lparr>ts_name = ''resource_contents'', columns = [
       \<lparr>col_name = ''uri'', pg_type = Ty_Text, source = ReadThrough ''resources/read''\<rparr>,
       \<lparr>col_name = ''idx'', pg_type = Ty_Int4, source = ReadThrough ''resources/read''\<rparr>,
       \<lparr>col_name = ''mime_type'', pg_type = Ty_Text, source = ReadThrough ''resources/read''\<rparr>,
       \<lparr>col_name = ''text'', pg_type = Ty_Text, source = ReadThrough ''resources/read''\<rparr>,
       \<lparr>col_name = ''blob'', pg_type = Ty_Bytea, source = ReadThrough ''resources/read''\<rparr>,
       \<lparr>col_name = ''meta'', pg_type = Ty_Jsonb, source = ReadThrough ''resources/read''\<rparr>]\<rparr>"

definition PROMPT_MESSAGES_SPEC :: table_spec where
  "PROMPT_MESSAGES_SPEC =
     \<lparr>ts_name = ''prompt_messages'', columns = [
       \<lparr>col_name = ''prompt'', pg_type = Ty_Text, source = ReadThrough ''prompts/get''\<rparr>,
       \<lparr>col_name = ''arguments'', pg_type = Ty_Jsonb, source = ReadThrough ''prompts/get''\<rparr>,
       \<lparr>col_name = ''idx'', pg_type = Ty_Int4, source = ReadThrough ''prompts/get''\<rparr>,
       \<lparr>col_name = ''role'', pg_type = Ty_Text, source = ReadThrough ''prompts/get''\<rparr>,
       \<lparr>col_name = ''content_type'', pg_type = Ty_Text, source = ReadThrough ''prompts/get''\<rparr>,
       \<lparr>col_name = ''text'', pg_type = Ty_Text, source = ReadThrough ''prompts/get''\<rparr>,
       \<lparr>col_name = ''content'', pg_type = Ty_Jsonb, source = ReadThrough ''prompts/get''\<rparr>,
       \<lparr>col_name = ''description'', pg_type = Ty_Text, source = ReadThrough ''prompts/get''\<rparr>]\<rparr>"

definition COMPLETIONS_SPEC :: table_spec where
  "COMPLETIONS_SPEC =
     \<lparr>ts_name = ''completions'', columns = [
       \<lparr>col_name = ''ref'', pg_type = Ty_Jsonb, source = ReadThrough ''completion/complete''\<rparr>,
       \<lparr>col_name = ''argument_name'', pg_type = Ty_Text, source = ReadThrough ''completion/complete''\<rparr>,
       \<lparr>col_name = ''argument_value'', pg_type = Ty_Text, source = ReadThrough ''completion/complete''\<rparr>,
       \<lparr>col_name = ''value'', pg_type = Ty_Text, source = ReadThrough ''completion/complete''\<rparr>,
       \<lparr>col_name = ''idx'', pg_type = Ty_Int4, source = ReadThrough ''completion/complete''\<rparr>,
       \<lparr>col_name = ''total'', pg_type = Ty_Int4, source = ReadThrough ''completion/complete''\<rparr>,
       \<lparr>col_name = ''has_more'', pg_type = Ty_Boolean, source = ReadThrough ''completion/complete''\<rparr>]\<rparr>"

definition TOOL_CALLS_SPEC :: table_spec where
  "TOOL_CALLS_SPEC =
     \<lparr>ts_name = ''tool_calls'', columns = [
       \<lparr>col_name = ''id'', pg_type = Ty_Uuid, source = Local\<rparr>,
       \<lparr>col_name = ''tool'', pg_type = Ty_Text, source = Invocation\<rparr>,
       \<lparr>col_name = ''arguments'', pg_type = Ty_Jsonb, source = Invocation\<rparr>,
       \<lparr>col_name = ''content'', pg_type = Ty_Jsonb, source = Invocation\<rparr>,
       \<lparr>col_name = ''structured'', pg_type = Ty_Jsonb, source = Invocation\<rparr>,
       \<lparr>col_name = ''is_error'', pg_type = Ty_Boolean, source = Invocation\<rparr>,
       \<lparr>col_name = ''error'', pg_type = Ty_Jsonb, source = Invocation\<rparr>,
       \<lparr>col_name = ''called_at'', pg_type = Ty_TimestampTz, source = Local\<rparr>,
       \<lparr>col_name = ''duration_ms'', pg_type = Ty_Int4, source = Local\<rparr>]\<rparr>"

text \<open>The handlers are stateless unit structs: a handler is its name.\<close>

datatype handler =
    SERVER_TABLE | TOOLS_TABLE | PROMPTS_TABLE | PROMPT_ARGUMENTS_TABLE | RESOURCES_TABLE
  | RESOURCE_TEMPLATES_TABLE | RESOURCE_CONTENTS_TABLE | PROMPT_MESSAGES_TABLE | COMPLETIONS_TABLE
  | TOOL_CALLS_TABLE

record table_entry =
  spec :: table_spec
  handler :: handler

definition REGISTRY :: "table_entry list" where
  "REGISTRY = [
     \<lparr>spec = SERVER_SPEC, handler = SERVER_TABLE\<rparr>,
     \<lparr>spec = TOOLS_SPEC, handler = TOOLS_TABLE\<rparr>,
     \<lparr>spec = PROMPTS_SPEC, handler = PROMPTS_TABLE\<rparr>,
     \<lparr>spec = PROMPT_ARGUMENTS_SPEC, handler = PROMPT_ARGUMENTS_TABLE\<rparr>,
     \<lparr>spec = RESOURCES_SPEC, handler = RESOURCES_TABLE\<rparr>,
     \<lparr>spec = RESOURCE_TEMPLATES_SPEC, handler = RESOURCE_TEMPLATES_TABLE\<rparr>,
     \<lparr>spec = RESOURCE_CONTENTS_SPEC, handler = RESOURCE_CONTENTS_TABLE\<rparr>,
     \<lparr>spec = PROMPT_MESSAGES_SPEC, handler = PROMPT_MESSAGES_TABLE\<rparr>,
     \<lparr>spec = COMPLETIONS_SPEC, handler = COMPLETIONS_TABLE\<rparr>,
     \<lparr>spec = TOOL_CALLS_SPEC, handler = TOOL_CALLS_TABLE\<rparr>]"

definition find_table :: "string \<Rightarrow> table_entry option" where
  "find_table name = find (\<lambda>e. ts_name (spec e) = name) REGISTRY"

lemmas spec_defs = SERVER_SPEC_def TOOLS_SPEC_def PROMPTS_SPEC_def PROMPT_ARGUMENTS_SPEC_def
  RESOURCES_SPEC_def RESOURCE_TEMPLATES_SPEC_def RESOURCE_CONTENTS_SPEC_def
  PROMPT_MESSAGES_SPEC_def COMPLETIONS_SPEC_def TOOL_CALLS_SPEC_def

section \<open>Scan cursors\<close>

text \<open>
  The executor calls \<^verbatim>\<open>iter_scan\<close> until it answers that no row is left. \<open>drain\<close> is that loop, on
  fuel; a cursor with \<open>n\<close> rows left needs \<open>n + 1\<close> calls.
\<close>

type_synonym 'c iter = "'c \<Rightarrow> (row option \<times> 'c) mcp_result"

fun drain :: "'c iter \<Rightarrow> nat \<Rightarrow> 'c \<Rightarrow> (row list \<times> 'c) mcp_result option" where
  "drain it 0 c = None"
| "drain it (Suc fuel) c =
     (case it c of
        Inl e \<Rightarrow> Some (Inl e)
      | Inr (None, c') \<Rightarrow> Some (Inr ([], c'))
      | Inr (Some r, c') \<Rightarrow> map_option (rmap (\<lambda>(rs, c''). (r # rs, c''))) (drain it fuel c'))"

text \<open>
  What \<^verbatim>\<open>ScanCursor\<close> promises of \<^verbatim>\<open>iter_scan\<close>: the rows left come out one by one, in order, and an
  exhausted cursor stays exhausted.
\<close>

locale scan_cursor =
  fixes iter_scan :: "'c iter"
    and remaining :: "'c \<Rightarrow> row list"
  assumes iter_done: "remaining c = [] \<Longrightarrow> \<exists>c'. iter_scan c = Inr (None, c') \<and> remaining c' = []"
    and iter_row: "remaining c = r # rs \<Longrightarrow> \<exists>c'. iter_scan c = Inr (Some r, c') \<and> remaining c' = rs"
begin

lemma drain_all:
  "length (remaining c) < fuel \<Longrightarrow> \<exists>c'. drain iter_scan fuel c = Some (Inr (remaining c, c')) \<and> remaining c' = []"
proof (induction fuel arbitrary: c)
  case (Suc fuel)
  show ?case
  proof (cases "remaining c")
    case Nil
    with iter_done [OF Nil] show ?thesis by auto
  next
    case (Cons r rs)
    obtain c' where c': "iter_scan c = Inr (Some r, c')" "remaining c' = rs"
      using iter_row [OF Cons] by blast
    with Suc.IH [of c'] Suc.prems Cons show ?thesis by auto
  qed
qed simp

end

text \<open>A cursor that can be restarted: after \<^verbatim>\<open>re_scan\<close> all rows of the scan are ahead again.\<close>

locale restartable_cursor = scan_cursor iter_scan remaining
  for iter_scan :: "'c iter" and remaining :: "'c \<Rightarrow> row list" +
  fixes re_scan :: "'c \<Rightarrow> 'c"
    and all_rows :: "'c \<Rightarrow> row list"
  assumes re_scan_remaining: "remaining (re_scan c) = all_rows c"
    and re_scan_all: "all_rows (re_scan c) = all_rows c"
    and iter_all: "iter_scan c = Inr (r, c') \<Longrightarrow> all_rows c' = all_rows c"
begin

lemma drain_keeps_all: "drain iter_scan fuel c = Some (Inr (rs, c')) \<Longrightarrow> all_rows c' = all_rows c"
proof (induction fuel arbitrary: c rs)
  case (Suc fuel)
  from Suc.prems obtain r d where it: "iter_scan c = Inr (r, d)" by (cases "iter_scan c") auto
  show ?case
  proof (cases r)
    case None
    with it Suc.prems iter_all [OF it] show ?thesis by simp
  next
    case (Some row)
    with it Suc.prems obtain z where z: "drain iter_scan fuel d = Some z"
      "rmap (\<lambda>(rs, c''). (row # rs, c'')) z = Inr (rs, c')" by auto
    then obtain rs' where "z = Inr (rs', c')" by (cases z) auto
    with z Suc.IH iter_all [OF it] show ?thesis by metis
  qed
qed simp

text \<open>Running the scan, restarting it and running it again yields the same rows both times.\<close>

lemma rescan_same_rows:
  assumes "drain iter_scan m (re_scan c) = Some (Inr (rs, c'))" "length (all_rows c) < n"
  shows "\<exists>c''. drain iter_scan n (re_scan c') = Some (Inr (all_rows c, c''))"
proof -
  have "all_rows c' = all_rows c" using drain_keeps_all [OF assms(1)] by (simp add: re_scan_all)
  with assms(2) drain_all [of "re_scan c'" n] show ?thesis by (auto simp: re_scan_remaining)
qed

end

section \<open>The registry is well formed\<close>

lemma position_Some:
  "position P xs = Some i \<longleftrightarrow> i < length xs \<and> P (xs ! i) \<and> (\<forall>j < i. \<not> P (xs ! j))"
proof (induction xs arbitrary: i)
  case (Cons x xs)
  show ?case
  proof (cases i)
    case 0
    then show ?thesis by auto
  next
    case (Suc m)
    have "(\<forall>j < Suc m. \<not> P ((x # xs) ! j)) \<longleftrightarrow> \<not> P x \<and> (\<forall>j < m. \<not> P (xs ! j))"
      by (auto simp: less_Suc_eq_0_disj)
    with Suc Cons [of m] show ?thesis by auto
  qed
qed simp

lemma position_distinct:
  assumes "distinct (map f xs)" "i < length xs"
  shows "position (\<lambda>x. f x = f (xs ! i)) xs = Some i"
proof -
  have "f (xs ! j) \<noteq> f (xs ! i)" if "j < i" for j
    using assms that nth_eq_iff_index_eq [of "map f xs" j i] by auto
  with assms(2) show ?thesis by (simp add: position_Some)
qed

definition spec_wf :: "table_spec \<Rightarrow> bool" where
  "spec_wf sp \<longleftrightarrow> distinct (map col_name (columns sp))"

lemma registry_specs_wf: "list_all (\<lambda>e. spec_wf (spec e)) REGISTRY"
  by (simp add: REGISTRY_def spec_wf_def spec_defs)

lemma registry_names_distinct: "distinct (map (\<lambda>e. ts_name (spec e)) REGISTRY)"
  by (simp add: REGISTRY_def spec_defs)

lemma attno_column:
  "spec_wf sp \<Longrightarrow> column_at sp i = Some c \<Longrightarrow> attno sp (col_name c) = Some (i + 1)"
  using position_distinct [of col_name "columns sp" i]
  by (auto simp: spec_wf_def attno_def column_at_def split: if_splits)

lemma column_attno:
  "attno sp name = Some n \<Longrightarrow> \<exists>c. column_at sp (n - 1) = Some c \<and> col_name c = name \<and> 0 < n"
  by (auto simp: attno_def column_at_def position_Some)

text \<open>C22. The registry is consistent: looking an entry up by its table name returns that entry, and for
  every registered table, attribute numbers and column positions are inverse to each other, so
  the planner, the slot writer and the generated DDL address the same columns.\<close>

theorem registry_consistent:
  assumes "e \<in> set REGISTRY"
  shows "find_table (ts_name (spec e)) = Some e
    \<and> (\<forall>i c. column_at (spec e) i = Some c \<longrightarrow> attno (spec e) (col_name c) = Some (i + 1))
    \<and> (\<forall>name n. attno (spec e) name = Some n \<longrightarrow>
         (\<exists>c. column_at (spec e) (n - 1) = Some c \<and> col_name c = name))"
proof (intro conjI allI impI)
  show "find_table (ts_name (spec e)) = Some e"
    unfolding find_table_def by (rule find_distinct_key [OF registry_names_distinct assms])
  show "attno (spec e) (col_name c) = Some (i + 1)" if "column_at (spec e) i = Some c" for i c
    using assms registry_specs_wf by (intro attno_column [OF _ that]) (simp add: list_all_iff)
  show "\<exists>c. column_at (spec e) (n - 1) = Some c \<and> col_name c = name" if "attno (spec e) name = Some n" for name n
    using column_attno [OF that] by blast
qed

theorem registry_consistent_witness:
  "\<exists>e. find_table ''tools'' = Some e \<and> spec e = TOOLS_SPEC \<and> attno TOOLS_SPEC ''read_only'' = Some 7"
proof -
  let ?e = "\<lparr>spec = TOOLS_SPEC, handler = TOOLS_TABLE\<rparr>"
  have e: "?e \<in> set REGISTRY" by (simp add: REGISTRY_def)
  have "column_at (spec ?e) 6 = Some \<lparr>col_name = ''read_only'', pg_type = Ty_Boolean, source = SList ''tools/list''\<rparr>"
    by (simp add: column_at_def TOOLS_SPEC_def)
  with registry_consistent [OF e] show ?thesis by (force simp: TOOLS_SPEC_def)
qed

end
