(* ===== verification/Schema_Types.thy ===== *)
theory Schema_Types
  imports Table_Specs
begin

text \<open>
  \<^verbatim>\<open>codegen/types.rs\<close>: the map from JSON Schema property definitions to PostgreSQL types, and the
  schema accessors of the planner. Printing a non-string enum value uses the JSON printer \<open>pr\<close>.
\<close>

definition map_named_type :: "string \<Rightarrow> json \<Rightarrow> column_type" where
  "map_named_type t schema =
     (if t = ''string'' then
        (let format = get_str ''format'' schema
         in if format = Some ''date-time'' then Ty_TimestampTz
            else if format = Some ''date'' then Ty_Date
            else if format = Some ''uuid'' then Ty_Uuid
            else Ty_Text)
      else if t = ''integer'' then Ty_Int8
      else if t = ''number'' then Ty_Float8
      else if t = ''boolean'' then Ty_Boolean
      else Ty_Jsonb)"

definition map_type :: "json \<Rightarrow> column_type" where
  "map_type schema =
     (case as_object schema of
        None \<Rightarrow> Ty_Jsonb
      | Some obj \<Rightarrow>
          if list_ex (\<lambda>keyword. keyword \<in> fst ` set obj) [''$ref'', ''oneOf'', ''anyOf'', ''allOf''] then Ty_Jsonb
          else case map_of obj ''type'' of
                 Some (JStr t) \<Rightarrow> map_named_type t schema
               | Some (JArr types) \<Rightarrow>
                   (case filter (\<lambda>t. t \<noteq> ''null'') (List.map_filter as_str types) of
                      [only] \<Rightarrow> map_named_type only schema
                    | _ \<Rightarrow> Ty_Jsonb)
               | _ \<Rightarrow> Ty_Jsonb)"

definition required_list :: "json \<Rightarrow> string list" where
  "required_list schema =
     (case get_array ''required'' schema of
        None \<Rightarrow> []
      | Some items \<Rightarrow> List.map_filter as_str items)"

definition required_set :: "json \<Rightarrow> string set" where
  "required_set schema =
     (case get_array ''required'' schema of
        None \<Rightarrow> {}
      | Some items \<Rightarrow> set (List.map_filter as_str items))"

definition properties :: "json \<Rightarrow> (string \<times> json) list option" where
  "properties schema = Option.bind (jget ''properties'' schema) as_object"

fun render_enum_value :: "(json \<Rightarrow> string) \<Rightarrow> json \<Rightarrow> string" where
  "render_enum_value pr (JStr s) = s"
| "render_enum_value pr v = pr v"

definition enum_hint :: "(json \<Rightarrow> string) \<Rightarrow> json \<Rightarrow> string option" where
  "enum_hint pr schema =
     (case get_array ''enum'' schema of
        None \<Rightarrow> None
      | Some [] \<Rightarrow> None
      | Some values \<Rightarrow>
          Some (''Permitted values: '' @ str_join '', '' (map (render_enum_value pr) values)))"

lemma required_set_list: "required_set schema = set (required_list schema)"
  by (simp add: required_set_def required_list_def split: option.splits)

lemma properties_distinct:
  "json_wf schema \<Longrightarrow> properties schema = Some props \<Longrightarrow> distinct (map fst props)"
  using json_wf_jget [of schema "''properties''"]
  by (cases "jget ''properties'' schema") (auto simp: properties_def)

text \<open>The type of a property is never \<^verbatim>\<open>integer\<close> or \<^verbatim>\<open>bytea\<close>: those belong to the fixed catalog tables.\<close>

lemma map_named_type_range: "map_named_type t schema \<notin> {Ty_Int4, Ty_Bytea}"
  by (simp add: map_named_type_def Let_def)

text \<open>
  Schemas the map cannot describe fall back to the lossless \<^verbatim>\<open>jsonb\<close>; every other answer names its
  single type.
\<close>

definition type_names :: "json \<Rightarrow> string list" where
  "type_names schema =
     (case jget ''type'' schema of
        Some (JStr t) \<Rightarrow> [t]
      | Some (JArr types) \<Rightarrow> filter (\<lambda>t. t \<noteq> ''null'') (List.map_filter as_str types)
      | _ \<Rightarrow> [])"

definition is_composed :: "json \<Rightarrow> bool" where
  "is_composed schema \<longleftrightarrow> (\<exists>k \<in> {''$ref'', ''oneOf'', ''anyOf'', ''allOf''}. jget k schema \<noteq> None)"

text \<open>A property maps to something other than \<^verbatim>\<open>jsonb\<close> only when its schema is free of composition
  keywords and names exactly one non-null type, and then the column type is that type's.\<close>

theorem map_type_spec:
  "map_type schema =
     (if is_composed schema then Ty_Jsonb
      else case type_names schema of [t] \<Rightarrow> map_named_type t schema | _ \<Rightarrow> Ty_Jsonb)"
proof (cases schema)
  case (JObj obj)
  have keys: "k \<in> fst ` set obj \<longleftrightarrow> map_of obj k \<noteq> None" for k
    by (simp add: map_of_eq_None_iff)
  show ?thesis
    unfolding map_type_def is_composed_def type_names_def JObj
    by (simp add: keys split: option.splits json.splits)
qed (simp_all add: map_type_def is_composed_def type_names_def)

end
