(* ===== verification/Codegen_Plan.thy ===== *)
theory Codegen_Plan
  imports Ident Schema_Types
begin

text \<open>
  \<^verbatim>\<open>codegen/mod.rs\<close>: the pure planning step from a \<^verbatim>\<open>tools/list\<close> result to the objects to generate.
  A panic anywhere below is \<open>None\<close>. The hash map that groups tools by target schema is walked here
  in one fixed order of its keys; \<open>assign_names_eq\<close> shows that no other order changes the result.
\<close>

section \<open>Data\<close>

datatype invoke_on_select = IReadOnly | IAll | INone

definition invoke_parse :: "string \<Rightarrow> invoke_on_select mcp_result" where
  "invoke_parse raw =
     (if raw = ''read_only'' then Inr IReadOnly
      else if raw = ''all'' then Inr IAll
      else if raw = ''none'' then Inr INone
      else Inl (InvalidOption (''invalid value for invoke_on_select: \"'' @ raw @
        ''\" (expected 'read_only', 'all' or 'none')'')))"

fun invoke_as_str :: "invoke_on_select \<Rightarrow> string" where
  "invoke_as_str IReadOnly = ''read_only''"
| "invoke_as_str IAll = ''all''"
| "invoke_as_str INone = ''none''"

record column =
  property :: string
  col_sql :: string
  col_type :: column_type
  required :: bool
  col_hint :: "string option"

datatype output_shape = ONone | ElementOf string "column list" | Single "column list"

record planned_tool =
  tool_name :: string
  pt_sql_name :: string
  pt_schema :: string
  read_only :: bool
  invoke_select :: bool
  inputs :: "column list"
  shape :: output_shape
  params :: "string list"
  title :: "string option"
  description :: "string option"

fun shape_columns :: "output_shape \<Rightarrow> column list" where
  "shape_columns ONone = []"
| "shape_columns (ElementOf _ cols) = cols"
| "shape_columns (Single cols) = cols"

definition output_columns :: "planned_tool \<Rightarrow> column list" where
  "output_columns t = shape_columns (shape t)"

definition table_columns :: "planned_tool \<Rightarrow> column list" where
  "table_columns t = inputs t @ output_columns t"

fun is_element_shape :: "output_shape \<Rightarrow> bool" where
  "is_element_shape (ElementOf _ _) = True"
| "is_element_shape _ = False"

definition is_multi_row :: "planned_tool \<Rightarrow> bool" where
  "is_multi_row t = is_element_shape (shape t)"

record generation_plan =
  tools :: "planned_tool list"
  skipped :: "string list"
  warnings :: "string list"

datatype schema_mode = SingleSchema | PerUpstream

definition tool_display_name :: "json \<Rightarrow> string" where
  "tool_display_name tool = unwrap_or (get_str ''name'' tool) ''<unnamed>''"

section \<open>One tool\<close>

text \<open>The column name of a property: derived without prefix, an underscore when nothing is left.\<close>

definition column_name :: "string \<Rightarrow> string option" where
  "column_name name = map_option (\<lambda>d. if d = [] then ''_'' else d) (derive name [])"

definition output_column :: "(json \<Rightarrow> string) \<Rightarrow> string \<times> json \<Rightarrow> column option" where
  "output_column pr = (\<lambda>(name, prop).
     map_option (\<lambda>d. \<lparr>property = name, col_sql = d, col_type = map_type prop, required = False,
                      col_hint = enum_hint pr prop\<rparr>) (column_name name))"

definition array_items_of_objects :: "json \<Rightarrow> json option" where
  "array_items_of_objects schema =
     (if get_str ''type'' schema \<noteq> Some ''array'' then None
      else case jget ''items'' schema of
             None \<Rightarrow> None
           | Some items \<Rightarrow> if get_str ''type'' items = Some ''object'' then Some items else None)"

definition element_columns :: "(json \<Rightarrow> string) \<Rightarrow> json \<Rightarrow> column list option" where
  "element_columns pr items = traverse (output_column pr) (unwrap_or (properties items) [])"

definition analyze_output :: "(json \<Rightarrow> string) \<Rightarrow> json option \<Rightarrow> output_shape option" where
  "analyze_output pr schema =
     (case schema of
        None \<Rightarrow> Some ONone
      | Some schema \<Rightarrow>
          (case properties schema of
             None \<Rightarrow> Some (Single [])
           | Some props \<Rightarrow>
               (let single = map_option Single (traverse (output_column pr) props)
                in case props of
                     [(only_property, only_schema)] \<Rightarrow>
                       (case array_items_of_objects only_schema of
                          Some items \<Rightarrow> map_option (ElementOf only_property) (element_columns pr items)
                        | None \<Rightarrow> single)
                   | _ \<Rightarrow> single)))"

fun input_columns ::
  "(json \<Rightarrow> string) \<Rightarrow> string set \<Rightarrow> string list \<Rightarrow> ((string \<times> json) \<times> string) list \<Rightarrow> column list"
where
  "input_columns pr req seen [] = []"
| "input_columns pr req seen (((prop, schema), sql) # rest) =
     \<lparr>property = prop,
      col_sql = (if sql \<in> set seen then sql @ ''_'' @ sha_suffix prop else sql),
      col_type = map_type schema, required = prop \<in> req, col_hint = enum_hint pr schema\<rparr>
     # input_columns pr req (sql # seen) rest"

definition declared_read_only :: "json \<Rightarrow> bool" where
  "declared_read_only tool =
     (case jget ''annotations'' tool of
        None \<Rightarrow> False
      | Some a \<Rightarrow> unwrap_or (get_bool ''readOnlyHint'' a) False)"

fun gate_invokes :: "invoke_on_select \<Rightarrow> bool \<Rightarrow> bool" where
  "gate_invokes IReadOnly ro = ro"
| "gate_invokes IAll ro = True"
| "gate_invokes INone ro = False"

definition param_order :: "string list \<Rightarrow> column list \<Rightarrow> string list" where
  "param_order req cols =
     List.map_filter (\<lambda>name. map_option col_sql (find (\<lambda>c. property c = name) cols)) req
     @ map col_sql (filter (\<lambda>c. \<not> required c) cols)"

definition skip_reason :: string where
  "skip_reason = ''inputSchema is not a JSON Schema object with properties (PRD-8 '' @ sect_sign @ ''4.2)''"

definition plan_one ::
  "(json \<Rightarrow> string) \<Rightarrow> json \<Rightarrow> string \<Rightarrow> string \<Rightarrow> string \<Rightarrow> invoke_on_select \<Rightarrow> (string + planned_tool) option"
where
  "plan_one pr tool local_name sqln target_schema gate =
     (let input_schema = unwrap_or (jget ''inputSchema'' tool) JNull
      in case properties input_schema of
           None \<Rightarrow> Some (Inl skip_reason)
         | Some input_properties \<Rightarrow>
             (case (traverse column_name (map fst input_properties),
                    analyze_output pr (jget ''outputSchema'' tool)) of
                (Some derived, Some out) \<Rightarrow>
                  (let inputs = input_columns pr (required_set input_schema) [] (zip input_properties derived);
                       read_only = declared_read_only tool
                   in Some (Inr
                        \<lparr>tool_name = unwrap_or (get_str ''name'' tool) local_name,
                         pt_sql_name = sqln, pt_schema = target_schema,
                         read_only = read_only, invoke_select = gate_invokes gate read_only,
                         inputs = inputs, shape = out,
                         params = param_order (required_list input_schema) inputs,
                         title = get_str ''title'' tool, description = get_str ''description'' tool\<rparr>))
              | _ \<Rightarrow> None))"

section \<open>The batch\<close>

text \<open>The first pass: a named tool with its target schema and the name used there.\<close>

type_synonym routed = "json \<times> string \<times> string"

definition route_name :: "schema_mode \<Rightarrow> string \<Rightarrow> string \<Rightarrow> string \<times> string" where
  "route_name mode schema name =
     (case mode of
        SingleSchema \<Rightarrow> (schema, name)
      | PerUpstream \<Rightarrow>
          (case split_once (CHR ''.'') name of
             Some (upstream, rest) \<Rightarrow>
               if upstream \<noteq> [] \<and> rest \<noteq> [] then (upstream, rest) else (schema, name)
           | None \<Rightarrow> (schema, name)))"

definition usable_name :: "json \<Rightarrow> string option" where
  "usable_name tool = (case get_str ''name'' tool of Some n \<Rightarrow> (if n \<noteq> [] then Some n else None) | None \<Rightarrow> None)"

fun route_tools :: "schema_mode \<Rightarrow> string \<Rightarrow> json list \<Rightarrow> routed list \<times> string list" where
  "route_tools mode schema [] = ([], [])"
| "route_tools mode schema (tool # rest) =
     (let (routed, warnings) = route_tools mode schema rest
      in case usable_name tool of
           Some name \<Rightarrow> ((tool, route_name mode schema name) # routed, warnings)
         | None \<Rightarrow> (routed, ''skipped a tool entry with no usable name'' # warnings))"

definition target_indexes :: "routed list \<Rightarrow> string \<Rightarrow> nat list" where
  "target_indexes routed target = filter (\<lambda>i. fst (snd (routed ! i)) = target) [0..<length routed]"

definition assign_target :: "routed list \<Rightarrow> string \<Rightarrow> string list \<Rightarrow> string \<Rightarrow> string list option" where
  "assign_target routed pre sql_names target =
     (let indexes = target_indexes routed target;
          locals = map (\<lambda>i. snd (snd (routed ! i))) indexes
      in map_option (\<lambda>deduped. foldl (\<lambda>ns (i, _, sql). ns[i := sql]) sql_names (zip indexes deduped))
           (dedup locals pre))"

fun assign_names :: "routed list \<Rightarrow> string \<Rightarrow> string list \<Rightarrow> string list \<Rightarrow> string list option" where
  "assign_names routed pre [] sql_names = Some sql_names"
| "assign_names routed pre (target # targets) sql_names =
     Option.bind (assign_target routed pre sql_names target) (assign_names routed pre targets)"

fun plan_loop ::
  "(json \<Rightarrow> string) \<Rightarrow> invoke_on_select \<Rightarrow> (routed \<times> string) list \<Rightarrow> generation_plan \<Rightarrow> string list
   \<Rightarrow> (generation_plan \<times> string list) option"
where
  "plan_loop pr gate [] out promoted = Some (out, promoted)"
| "plan_loop pr gate (((tool, target, local), sqln) # rest) out promoted =
     (case plan_one pr tool local sqln target gate of
        None \<Rightarrow> None
      | Some (Inr planned) \<Rightarrow>
          plan_loop pr gate rest (out\<lparr>tools := tools out @ [planned]\<rparr>)
            (if gate = IAll \<and> \<not> read_only planned then promoted @ [tool_name planned] else promoted)
      | Some (Inl reason) \<Rightarrow>
          plan_loop pr gate rest
            (out\<lparr>skipped := skipped out @ [tool_display_name tool],
                 warnings := warnings out @ [''skipped '' @ tool_display_name tool @ '': '' @ reason]\<rparr>)
            promoted)"

definition promotion_warning :: "string list \<Rightarrow> string" where
  "promotion_warning promoted =
     ''invoke_on_select 'all': the following tools are not declared read-only but '' @
     ''their tables will invoke on SELECT: '' @ str_join '', '' promoted"

definition plan ::
  "(json \<Rightarrow> string) \<Rightarrow> json list \<Rightarrow> string \<Rightarrow> string \<Rightarrow> invoke_on_select \<Rightarrow> schema_mode
   \<Rightarrow> generation_plan mcp_result option"
where
  "plan pr tool_list schema pre gate mode =
     (if schema = [] then Some (Inl (InvalidOption ''the target schema name must not be empty''))
      else
        (let (routed, warnings) = route_tools mode schema tool_list;
             targets = remdups (map (\<lambda>r. fst (snd r)) routed)
         in case assign_names routed pre targets (replicate (length routed) []) of
              None \<Rightarrow> None
            | Some sql_names \<Rightarrow>
                (case plan_loop pr gate (zip routed sql_names)
                        \<lparr>tools = [], skipped = [], warnings = warnings\<rparr> [] of
                   None \<Rightarrow> None
                 | Some (out, promoted) \<Rightarrow>
                     Some (Inr
                       (if gate = IAll \<and> promoted \<noteq> []
                        then out\<lparr>warnings := generation_plan.warnings out @ [promotion_warning promoted]\<rparr>
                        else out)))))"

section \<open>Name assignment\<close>

lemma write_names_length [simp]:
  "length (foldl (\<lambda>ns (i, _, sql). ns[i := sql]) ns ps) = length ns"
  by (induction ps arbitrary: ns) (auto split: prod.splits)

lemma write_names_other:
  "k \<notin> set is \<Longrightarrow> foldl (\<lambda>ns (i, _, sql). ns[i := sql]) ns (zip is ds) ! k = ns ! k"
proof (induction "is" arbitrary: ns ds)
  case (Cons i "is")
  then show ?case by (cases ds) auto
qed simp

lemma write_names_at:
  "distinct is \<Longrightarrow> length ds = length is \<Longrightarrow> p < length is \<Longrightarrow> is ! p < length ns
   \<Longrightarrow> foldl (\<lambda>ns (i, _, sql). ns[i := sql]) ns (zip is ds) ! (is ! p) = snd (ds ! p)"
proof (induction "is" arbitrary: ns ds p)
  case (Cons i "is")
  then obtain d ds' where ds: "ds = d # ds'" by (cases ds) auto
  show ?case
  proof (cases p)
    case 0
    with Cons.prems ds show ?thesis
      by (cases d) (simp add: write_names_other)
  next
    case (Suc q)
    with Cons ds show ?thesis by (cases d) simp
  qed
qed simp

text \<open>The position of an index among those of its target, and the name it ends up with.\<close>

definition slot_rank :: "routed list \<Rightarrow> nat \<Rightarrow> nat" where
  "slot_rank routed i = length (filter (\<lambda>j. fst (snd (routed ! j)) = fst (snd (routed ! i))) [0..<i])"

definition target_locals :: "routed list \<Rightarrow> string \<Rightarrow> string list" where
  "target_locals routed target = map (\<lambda>i. snd (snd (routed ! i))) (target_indexes routed target)"

definition assigned_name :: "routed list \<Rightarrow> string \<Rightarrow> nat \<Rightarrow> string" where
  "assigned_name routed pre i =
     snd (the (dedup (target_locals routed (fst (snd (routed ! i)))) pre) ! slot_rank routed i)"

lemma target_indexes_rank:
  assumes "i < length routed"
  shows "slot_rank routed i < length (target_indexes routed (fst (snd (routed ! i))))"
    and "target_indexes routed (fst (snd (routed ! i))) ! slot_rank routed i = i"
proof -
  let ?P = "\<lambda>j. fst (snd (routed ! j)) = fst (snd (routed ! i))"
  have "[0..<length routed] = [0..<i] @ i # [Suc i..<length routed]"
    using assms upt_add_eq_append [of 0 i "length routed - i"] by (simp add: upt_conv_Cons)
  then have *: "target_indexes routed (fst (snd (routed ! i)))
      = filter ?P [0..<i] @ i # filter ?P [Suc i..<length routed]"
    by (simp add: target_indexes_def)
  show "slot_rank routed i < length (target_indexes routed (fst (snd (routed ! i))))"
    and "target_indexes routed (fst (snd (routed ! i))) ! slot_rank routed i = i"
    by (simp_all add: * slot_rank_def)
qed

lemma target_indexes_distinct: "distinct (target_indexes routed target)"
  by (simp add: target_indexes_def)

lemma target_indexes_set: "set (target_indexes routed target) = {i. i < length routed \<and> fst (snd (routed ! i)) = target}"
  by (auto simp: target_indexes_def)

lemma target_indexes_length: "length (target_indexes routed target) \<le> length routed"
  by (metis target_indexes_def length_filter_le length_upt minus_nat.diff_0)

lemma dedup_locals:
  assumes "ident_ok pre" "length routed < 2 ^ 64"
  obtains out where "dedup (target_locals routed target) pre = Some out"
    "length out = length (target_indexes routed target)" "distinct (map snd out)"
    "\<forall>c \<in> set (map snd out). ident_ok c \<and> length c \<le> 63"
proof -
  have "length (target_locals routed target) < 2 ^ 64"
    using assms(2) target_indexes_length [of routed target] by (simp add: target_locals_def)
  from dedup_post [OF assms(1) this] obtain derived out
    where out: "dedup (target_locals routed target) pre = Some out"
    "dedup_post [] (zip (target_locals routed target) derived) out"
    "length derived = length (target_locals routed target)"
    by blast
  then have "map fst out = target_locals routed target" by (simp add: dedup_post_def)
  then have "length out = length (target_indexes routed target)"
    by (metis length_map target_locals_def)
  with out show thesis by (intro that) (auto simp: dedup_post_def)
qed

lemma assign_target_result:
  assumes "ident_ok pre" "length routed < 2 ^ 64" "length ns = length routed"
  obtains ns' where "assign_target routed pre ns target = Some ns'" "length ns' = length routed"
    "\<forall>i < length routed. ns' ! i = (if fst (snd (routed ! i)) = target then assigned_name routed pre i else ns ! i)"
proof -
  let ?is = "target_indexes routed target"
  obtain out where out: "dedup (target_locals routed target) pre = Some out" and len: "length out = length ?is"
    by (rule dedup_locals [OF assms(1,2)])
  define ns' where "ns' = foldl (\<lambda>ns (i, _, sql). ns[i := sql]) ns (zip ?is out)"
  have "ns' ! i = (if fst (snd (routed ! i)) = target then assigned_name routed pre i else ns ! i)"
    if i: "i < length routed" for i
  proof (cases "fst (snd (routed ! i)) = target")
    case True
    note rank = target_indexes_rank [OF i, unfolded True]
    from write_names_at [OF target_indexes_distinct len rank(1), of ns] rank(2) assms(3) i
    have "ns' ! i = snd (out ! slot_rank routed i)" by (simp add: ns'_def)
    with True out show ?thesis by (simp add: assigned_name_def)
  next
    case False
    then have "i \<notin> set ?is" by (simp add: target_indexes_set)
    with False show ?thesis by (simp add: ns'_def write_names_other)
  qed
  moreover have "assign_target routed pre ns target = Some ns'"
    using out by (simp add: assign_target_def Let_def ns'_def target_locals_def)
  moreover have "length ns' = length routed" using assms(3) by (simp add: ns'_def)
  ultimately show thesis by (intro that) auto
qed

text \<open>Whatever order the targets are walked in, the names come out the same.\<close>

lemma assign_names_eq:
  assumes "ident_ok pre" "length routed < 2 ^ 64" "length ns = length routed"
  shows "\<exists>ns'. assign_names routed pre targets ns = Some ns' \<and> length ns' = length routed
    \<and> (\<forall>i < length routed. ns' ! i =
         (if fst (snd (routed ! i)) \<in> set targets then assigned_name routed pre i else ns ! i))"
  using assms(3)
proof (induction targets arbitrary: ns)
  case (Cons target targets)
  obtain ns1 where ns1: "assign_target routed pre ns target = Some ns1" "length ns1 = length routed"
    "\<forall>i < length routed. ns1 ! i = (if fst (snd (routed ! i)) = target then assigned_name routed pre i else ns ! i)"
    by (rule assign_target_result [OF assms(1,2) Cons.prems, of target])
  with Cons.IH [of ns1] show ?case by auto
qed simp

lemma assign_names_all:
  assumes "ident_ok pre" "length routed < 2 ^ 64"
    and "set targets = (\<lambda>r. fst (snd r)) ` set routed"
  shows "assign_names routed pre targets (replicate (length routed) [])
           = Some (map (assigned_name routed pre) [0..<length routed])"
proof -
  obtain ns where ns: "assign_names routed pre targets (replicate (length routed) []) = Some ns"
    "length ns = length routed"
    "\<forall>i < length routed. ns ! i = (if fst (snd (routed ! i)) \<in> set targets
        then assigned_name routed pre i else replicate (length routed) [] ! i)"
    using assign_names_eq [OF assms(1,2) length_replicate, of targets "[]"] by blast
  have "ns ! i = assigned_name routed pre i" if "i < length routed" for i
  proof -
    have "fst (snd (routed ! i)) \<in> set targets"
      unfolding assms(3) using nth_mem [OF that] by (rule image_eqI [OF refl])
    with ns(3) that show ?thesis by simp
  qed
  with ns(2) have "ns = map (assigned_name routed pre) [0..<length routed]"
    by (intro nth_equalityI) simp_all
  with ns(1) show ?thesis by simp
qed

lemma assigned_name_valid:
  assumes "ident_ok pre" "length routed < 2 ^ 64" "i < length routed"
  shows "ident_ok (assigned_name routed pre i) \<and> length (assigned_name routed pre i) \<le> 63"
proof -
  obtain out where out: "dedup (target_locals routed (fst (snd (routed ! i)))) pre = Some out"
    "length out = length (target_indexes routed (fst (snd (routed ! i))))"
    "\<forall>c \<in> set (map snd out). ident_ok c \<and> length c \<le> 63"
    by (rule dedup_locals [OF assms(1,2)])
  then have "out ! slot_rank routed i \<in> set out"
    using target_indexes_rank(1) [OF assms(3)] by simp
  with out show ?thesis by (simp add: assigned_name_def)
qed

lemma assigned_name_inj:
  assumes "ident_ok pre" "length routed < 2 ^ 64" "i < length routed" "j < length routed"
    and "fst (snd (routed ! i)) = fst (snd (routed ! j))"
    and "assigned_name routed pre i = assigned_name routed pre j"
  shows "i = j"
proof -
  let ?t = "fst (snd (routed ! j))"
  obtain out where out: "dedup (target_locals routed ?t) pre = Some out"
    "length out = length (target_indexes routed ?t)" "distinct (map snd out)"
    by (rule dedup_locals [OF assms(1,2)])
  note ri = target_indexes_rank [OF assms(3), unfolded assms(5)]
  note rj = target_indexes_rank [OF assms(4)]
  have "map snd out ! slot_rank routed i = map snd out ! slot_rank routed j"
    using assms(5,6) out ri(1) rj(1) by (simp add: assigned_name_def)
  then have "slot_rank routed i = slot_rank routed j"
    using out ri(1) rj(1) by (simp add: nth_eq_iff_index_eq del: nth_map)
  with ri(2) rj(2) show ?thesis by metis
qed

section \<open>Planning never panics\<close>

lemma ident_ok_Nil [simp]: "ident_ok []"
  by (simp add: ident_ok_def)

lemma column_name_total: "\<exists>s. column_name name = Some s"
  using derive_total [OF ident_ok_Nil, of name] by (auto simp: column_name_def)

lemma column_name_valid:
  "column_name name = Some s \<Longrightarrow> ident_ok s \<and> s \<noteq> [] \<and> length s \<le> 63"
  using derive_ident_ok [OF ident_ok_Nil, of name]
  by (cases "derive name []") (auto simp: column_name_def ident_ok_def ident_char_facts split: if_splits)

lemma traverse_total: "(\<And>x. \<exists>y. f x = Some y) \<Longrightarrow> \<exists>ys. traverse f xs = Some ys"
  using traverse_all_Some [of xs f "\<lambda>x. the (f x)"] by (metis option.sel)

lemma output_column_total: "\<exists>c. output_column pr p = Some c"
  using column_name_total [of "fst p"] by (auto simp: output_column_def split: prod.splits)

lemma analyze_output_total: "\<exists>sh. analyze_output pr schema = Some sh"
proof -
  have cols: "\<exists>cs. traverse (output_column pr) ps = Some cs" for ps
    by (rule traverse_total) (rule output_column_total)
  then obtain f where "traverse (output_column pr) ps = Some (f ps)" for ps by metis
  then show ?thesis
    by (auto simp: analyze_output_def element_columns_def Let_def simp del: traverse.simps
        split: option.splits list.splits prod.splits)
qed

definition plannable :: "json \<Rightarrow> bool" where
  "plannable tool \<longleftrightarrow> properties (unwrap_or (jget ''inputSchema'' tool) JNull) \<noteq> None"

lemma plan_one_skip: "\<not> plannable tool \<Longrightarrow> plan_one pr tool local sqln target gate = Some (Inl skip_reason)"
  by (simp add: plan_one_def plannable_def Let_def)

lemma plan_one_ok:
  assumes "plannable tool"
  obtains t props derived where "plan_one pr tool local sqln target gate = Some (Inr t)"
    "properties (unwrap_or (jget ''inputSchema'' tool) JNull) = Some props"
    "traverse column_name (map fst props) = Some derived"
    "inputs t = input_columns pr (required_set (unwrap_or (jget ''inputSchema'' tool) JNull)) [] (zip props derived)"
    "params t = param_order (required_list (unwrap_or (jget ''inputSchema'' tool) JNull)) (inputs t)"
    "tool_name t = unwrap_or (get_str ''name'' tool) local" "pt_sql_name t = sqln" "pt_schema t = target"
    "read_only t = declared_read_only tool" "invoke_select t = gate_invokes gate (declared_read_only tool)"
proof -
  obtain props where props: "properties (unwrap_or (jget ''inputSchema'' tool) JNull) = Some props"
    using assms by (auto simp: plannable_def)
  obtain derived where derived: "traverse column_name (map fst props) = Some derived"
    using traverse_total [of column_name "map fst props"] column_name_total by blast
  obtain sh where sh: "analyze_output pr (jget ''outputSchema'' tool) = Some sh"
    using analyze_output_total by blast
  let ?schema = "unwrap_or (jget ''inputSchema'' tool) JNull"
  let ?inputs = "input_columns pr (required_set ?schema) [] (zip props derived)"
  let ?t = "\<lparr>tool_name = unwrap_or (get_str ''name'' tool) local, pt_sql_name = sqln, pt_schema = target,
    read_only = declared_read_only tool, invoke_select = gate_invokes gate (declared_read_only tool),
    inputs = ?inputs, shape = sh, params = param_order (required_list ?schema) ?inputs,
    title = get_str ''title'' tool, description = get_str ''description'' tool\<rparr>"
  have "plan_one pr tool local sqln target gate = Some (Inr ?t)"
    using props derived sh by (simp add: plan_one_def Let_def)
  from that [OF this props derived] show thesis by simp
qed

section \<open>The batch, in closed form\<close>

lemma route_tools_eq:
  "fst (route_tools mode schema ts)
     = map (\<lambda>t. (t, route_name mode schema (the (usable_name t)))) (filter (\<lambda>t. usable_name t \<noteq> None) ts)"
  by (induction ts) (auto simp: Let_def split: prod.splits option.splits)

lemma usable_nameD: "usable_name t = Some n \<Longrightarrow> get_str ''name'' t = Some n \<and> n \<noteq> []"
  by (auto simp: usable_name_def split: option.splits if_splits)

definition item_tool :: "(json \<Rightarrow> string) \<Rightarrow> invoke_on_select \<Rightarrow> routed \<times> string \<Rightarrow> planned_tool" where
  "item_tool pr gate = (\<lambda>((tool, target, local), sqln).
     case the (plan_one pr tool local sqln target gate) of Inr t \<Rightarrow> t | Inl _ \<Rightarrow> undefined)"

abbreviation item_plannable :: "routed \<times> string \<Rightarrow> bool" where
  "item_plannable it \<equiv> plannable (fst (fst it))"

lemma plan_loop_eq:
  "\<exists>out' promoted'. plan_loop pr gate items out promoted = Some (out', promoted')
    \<and> tools out' = tools out @ map (item_tool pr gate) (filter item_plannable items)
    \<and> skipped out' = skipped out @ map (\<lambda>it. tool_display_name (fst (fst it))) (filter (\<lambda>it. \<not> item_plannable it) items)
    \<and> set (warnings out) \<subseteq> set (warnings out')
    \<and> promoted' = promoted @ map tool_name
        (filter (\<lambda>t. gate = IAll \<and> \<not> read_only t) (map (item_tool pr gate) (filter item_plannable items)))"
proof (induction items arbitrary: out promoted)
  case (Cons it items)
  obtain tool target local sqln where it: "it = ((tool, target, local), sqln)" by (metis prod.collapse)
  show ?case
  proof (cases "plannable tool")
    case True
    then obtain t where t: "plan_one pr tool local sqln target gate = Some (Inr t)"
      by (rule plan_one_ok)
    then have item: "item_tool pr gate it = t" by (simp add: item_tool_def it)
    let ?p = "if gate = IAll \<and> \<not> read_only t then promoted @ [tool_name t] else promoted"
    from Cons.IH [of "out\<lparr>tools := tools out @ [t]\<rparr>" ?p] t item it True show ?thesis
      by auto
  next
    case False
    let ?out = "out\<lparr>skipped := skipped out @ [tool_display_name tool],
      warnings := warnings out @ [''skipped '' @ tool_display_name tool @ '': '' @ skip_reason]\<rparr>"
    from Cons.IH [of ?out promoted] plan_one_skip [OF False] it False show ?thesis
      by auto
  qed
qed simp

text \<open>The items of a batch, and the plan they give.\<close>

definition batch_items :: "json list \<Rightarrow> string \<Rightarrow> string \<Rightarrow> schema_mode \<Rightarrow> (routed \<times> string) list" where
  "batch_items ts schema pre mode =
     (let routed = fst (route_tools mode schema ts)
      in zip routed (map (assigned_name routed pre) [0..<length routed]))"

lemma plan_eq:
  assumes "ident_ok pre" "schema \<noteq> []" "length ts < 2 ^ 64"
  shows "\<exists>p. plan pr ts schema pre gate mode = Some (Inr p)
    \<and> tools p = map (item_tool pr gate) (filter item_plannable (batch_items ts schema pre mode))
    \<and> skipped p = map (\<lambda>it. tool_display_name (fst (fst it)))
        (filter (\<lambda>it. \<not> item_plannable it) (batch_items ts schema pre mode))
    \<and> (gate = IAll \<and> (\<exists>t \<in> set (tools p). \<not> read_only t) \<longrightarrow>
         promotion_warning (map tool_name (filter (\<lambda>t. \<not> read_only t) (tools p))) \<in> set (warnings p))"
proof -
  obtain routed ws where routed: "route_tools mode schema ts = (routed, ws)" by force
  have "length routed \<le> length ts"
    using route_tools_eq [of mode schema ts] routed by simp
  then have len: "length routed < 2 ^ 64" using assms(3) by simp
  let ?targets = "remdups (map (\<lambda>r. fst (snd r)) routed)"
  have names: "assign_names routed pre ?targets (replicate (length routed) [])
      = Some (map (assigned_name routed pre) [0..<length routed])"
    by (rule assign_names_all [OF assms(1) len]) simp
  have items: "batch_items ts schema pre mode = zip routed (map (assigned_name routed pre) [0..<length routed])"
    by (simp add: batch_items_def routed Let_def)
  obtain out promoted where out:
    "plan_loop pr gate (batch_items ts schema pre mode) \<lparr>tools = [], skipped = [], warnings = ws\<rparr> []
       = Some (out, promoted)"
    "tools out = map (item_tool pr gate) (filter item_plannable (batch_items ts schema pre mode))"
    "skipped out = map (\<lambda>it. tool_display_name (fst (fst it)))
        (filter (\<lambda>it. \<not> item_plannable it) (batch_items ts schema pre mode))"
    "promoted = map tool_name (filter (\<lambda>t. gate = IAll \<and> \<not> read_only t) (tools out))"
    using plan_loop_eq [of pr gate "batch_items ts schema pre mode" "\<lparr>tools = [], skipped = [], warnings = ws\<rparr>" "[]"]
    by auto
  from out(1) names assms(2) show ?thesis
    by (auto simp: plan_def routed items out(2-4) [unfolded items] filter_empty_conv)
qed

section \<open>What a plan guarantees\<close>

lemma item_tool_facts:
  assumes "item_plannable it"
  shows "pt_sql_name (item_tool pr gate it) = snd it"
    and "pt_schema (item_tool pr gate it) = fst (snd (fst it))"
    and "tool_name (item_tool pr gate it) = unwrap_or (get_str ''name'' (fst (fst it))) (snd (snd (fst it)))"
    and "read_only (item_tool pr gate it) = declared_read_only (fst (fst it))"
    and "invoke_select (item_tool pr gate it) = gate_invokes gate (declared_read_only (fst (fst it)))"
proof -
  obtain tool target local sqln where it: "it = ((tool, target, local), sqln)" by (metis prod.collapse)
  with assms have "plannable tool" by simp
  then obtain t where t: "plan_one pr tool local sqln target gate = Some (Inr t)"
    "tool_name t = unwrap_or (get_str ''name'' tool) local" "pt_sql_name t = sqln" "pt_schema t = target"
    "read_only t = declared_read_only tool" "invoke_select t = gate_invokes gate (declared_read_only tool)"
    by (rule plan_one_ok)
  then have "item_tool pr gate it = t" by (simp add: item_tool_def it)
  with t it show "pt_sql_name (item_tool pr gate it) = snd it"
    and "pt_schema (item_tool pr gate it) = fst (snd (fst it))"
    and "tool_name (item_tool pr gate it) = unwrap_or (get_str ''name'' (fst (fst it))) (snd (snd (fst it)))"
    and "read_only (item_tool pr gate it) = declared_read_only (fst (fst it))"
    and "invoke_select (item_tool pr gate it) = gate_invokes gate (declared_read_only (fst (fst it)))"
    by simp_all
qed

lemma batch_items_routed:
  "map fst (batch_items ts schema pre mode)
     = map (\<lambda>t. (t, route_name mode schema (the (usable_name t)))) (filter (\<lambda>t. usable_name t \<noteq> None) ts)"
  by (simp add: batch_items_def Let_def route_tools_eq)

lemma batch_items_tools:
  "map (\<lambda>it. fst (fst it)) (batch_items ts schema pre mode) = filter (\<lambda>t. usable_name t \<noteq> None) ts"
proof -
  have "map (\<lambda>it. fst (fst it)) (batch_items ts schema pre mode)
      = map fst (map fst (batch_items ts schema pre mode))" by simp
  also have "\<dots> = filter (\<lambda>t. usable_name t \<noteq> None) ts"
    unfolding batch_items_routed by (simp add: comp_def)
  finally show ?thesis .
qed

lemma filter_items:
  "map (\<lambda>it. f (fst (fst it))) (filter (\<lambda>it. P (fst (fst it))) (batch_items ts schema pre mode))
     = map f (filter (\<lambda>t. usable_name t \<noteq> None \<and> P t) ts)"
proof -
  have "map (\<lambda>it. f (fst (fst it))) (filter (\<lambda>it. P (fst (fst it))) (batch_items ts schema pre mode))
      = map f (filter P (map (\<lambda>it. fst (fst it)) (batch_items ts schema pre mode)))"
    by (simp add: filter_map comp_def)
  also have "\<dots> = map f (filter (\<lambda>t. usable_name t \<noteq> None \<and> P t) ts)"
    unfolding batch_items_tools by (simp add: conj_commute)
  finally show ?thesis .
qed

lemma batch_items_named: "it \<in> set (batch_items ts schema pre mode) \<Longrightarrow> usable_name (fst (fst it)) \<noteq> None"
proof -
  assume "it \<in> set (batch_items ts schema pre mode)"
  then have "fst (fst it) \<in> set (map (\<lambda>it. fst (fst it)) (batch_items ts schema pre mode))" by simp
  then show ?thesis unfolding batch_items_tools by simp
qed

lemma batch_items_keys:
  assumes "ident_ok pre" "length ts < 2 ^ 64"
  shows "distinct (map (\<lambda>it. (fst (snd (fst it)), snd it)) (batch_items ts schema pre mode))"
    and "\<forall>it \<in> set (batch_items ts schema pre mode). ident_ok (snd it) \<and> length (snd it) \<le> 63"
proof -
  define routed where "routed = fst (route_tools mode schema ts)"
  have items: "batch_items ts schema pre mode = zip routed (map (assigned_name routed pre) [0..<length routed])"
    by (simp add: batch_items_def routed_def Let_def)
  have len: "length routed < 2 ^ 64"
    using assms(2) length_filter_le [of "\<lambda>t. usable_name t \<noteq> None" ts]
    by (simp only: routed_def route_tools_eq length_map)
  show "distinct (map (\<lambda>it. (fst (snd (fst it)), snd it)) (batch_items ts schema pre mode))"
    unfolding items distinct_conv_nth
    by (auto dest: assigned_name_inj [OF assms(1) len])
  show "\<forall>it \<in> set (batch_items ts schema pre mode). ident_ok (snd it) \<and> length (snd it) \<le> 63"
    unfolding items by (auto simp: set_zip assigned_name_valid [OF assms(1) len])
qed



text \<open>C17. One bad tool never fails a batch and no tool is lost: the planned tools and the skipped ones
  split the named entries of the list, each in the server's order, by whether the entry's input
  schema declares properties.\<close>

theorem plan_partition:
  assumes "ident_ok pre" "schema \<noteq> []" "length ts < 2 ^ 64"
  shows "\<exists>p. plan pr ts schema pre gate mode = Some (Inr p)
    \<and> map tool_name (tools p) = map tool_display_name (filter (\<lambda>t. usable_name t \<noteq> None \<and> plannable t) ts)
    \<and> skipped p = map tool_display_name (filter (\<lambda>t. usable_name t \<noteq> None \<and> \<not> plannable t) ts)"
proof -
  let ?items = "batch_items ts schema pre mode"
  obtain p where p: "plan pr ts schema pre gate mode = Some (Inr p)"
    "tools p = map (item_tool pr gate) (filter item_plannable ?items)"
    "skipped p = map (\<lambda>it. tool_display_name (fst (fst it))) (filter (\<lambda>it. \<not> item_plannable it) ?items)"
    using plan_eq [OF assms] by blast
  have "tool_name (item_tool pr gate it) = tool_display_name (fst (fst it))"
    if it: "it \<in> set ?items" "item_plannable it" for it
  proof -
    obtain n where "get_str ''name'' (fst (fst it)) = Some n"
      using batch_items_named [OF it(1)] usable_nameD by blast
    with it(2) show ?thesis by (simp add: item_tool_facts tool_display_name_def)
  qed
  then have "map tool_name (tools p) = map (\<lambda>it. tool_display_name (fst (fst it))) (filter item_plannable ?items)"
    unfolding p(2) by simp
  also have "\<dots> = map tool_display_name (filter (\<lambda>t. usable_name t \<noteq> None \<and> plannable t) ts)"
    by (rule filter_items)
  finally have names: "map tool_name (tools p) = \<dots>" .
  have "skipped p = map tool_display_name (filter (\<lambda>t. usable_name t \<noteq> None \<and> \<not> plannable t) ts)"
    unfolding p(3) by (rule filter_items)
  with p(1) names show ?thesis by blast
qed

theorem plan_partition_witness:
  "\<exists>p. plan (\<lambda>_. []) [JObj [(''name'', JStr ''bad'')],
          JObj [(''name'', JStr ''ok''), (''inputSchema'', JObj [(''properties'', JObj [])])]] ''s'' [] INone SingleSchema
        = Some (Inr p) \<and> map tool_name (tools p) = [''ok''] \<and> skipped p = [''bad'']"
proof -
  let ?ts = "[JObj [(''name'', JStr ''bad'')],
    JObj [(''name'', JStr ''ok''), (''inputSchema'', JObj [(''properties'', JObj [])])]]"
  have "length ?ts < 2 ^ 64" by simp
  from plan_partition [OF ident_ok_Nil _ this, of "''s''" "\<lambda>_. []" INone SingleSchema]
  show ?thesis
    by (auto simp: usable_name_def plannable_def properties_def tool_display_name_def get_defs)
qed

lemma declared_read_only_iff:
  "declared_read_only tool \<longleftrightarrow> (\<exists>a. jget ''annotations'' tool = Some a \<and> jget ''readOnlyHint'' a = Some (JBool True))"
proof (cases "jget ''annotations'' tool")
  case (Some a)
  show ?thesis
  proof (cases "jget ''readOnlyHint'' a")
    case hint: (Some v)
    with Some show ?thesis by (cases v) (simp_all add: declared_read_only_def get_bool_def)
  qed (simp add: Some declared_read_only_def get_bool_def)
qed (simp add: declared_read_only_def)

text \<open>C4. The invocation gate. Every planned tool comes from an entry of the list with that name. Under
  \<^verbatim>\<open>read_only\<close> (the default) its table invokes on SELECT exactly when that entry declares
  \<^verbatim>\<open>readOnlyHint: true\<close>; under \<^verbatim>\<open>none\<close> never; under \<^verbatim>\<open>all\<close> always, and then one warning names every
  planned tool that is not declared read-only.\<close>

theorem plan_gate:
  assumes "ident_ok pre" "schema \<noteq> []" "length ts < 2 ^ 64"
  shows "\<exists>p. plan pr ts schema pre gate mode = Some (Inr p)
    \<and> (\<forall>t \<in> set (tools p). \<exists>tool \<in> set ts. get_str ''name'' tool = Some (tool_name t)
         \<and> (read_only t \<longleftrightarrow> (\<exists>a. jget ''annotations'' tool = Some a \<and> jget ''readOnlyHint'' a = Some (JBool True)))
         \<and> (gate = IReadOnly \<longrightarrow> (invoke_select t \<longleftrightarrow> read_only t))
         \<and> (gate = INone \<longrightarrow> \<not> invoke_select t)
         \<and> (gate = IAll \<longrightarrow> invoke_select t))
    \<and> (gate = IAll \<and> (\<exists>t \<in> set (tools p). \<not> read_only t) \<longrightarrow>
         promotion_warning (map tool_name (filter (\<lambda>t. \<not> read_only t) (tools p))) \<in> set (warnings p))"
proof -
  let ?items = "batch_items ts schema pre mode"
  obtain p where p: "plan pr ts schema pre gate mode = Some (Inr p)"
    "tools p = map (item_tool pr gate) (filter item_plannable ?items)"
    "gate = IAll \<and> (\<exists>t \<in> set (tools p). \<not> read_only t) \<longrightarrow>
       promotion_warning (map tool_name (filter (\<lambda>t. \<not> read_only t) (tools p))) \<in> set (warnings p)"
    using plan_eq [OF assms] by blast
  have "\<exists>tool \<in> set ts. get_str ''name'' tool = Some (tool_name t)
         \<and> (read_only t \<longleftrightarrow> (\<exists>a. jget ''annotations'' tool = Some a \<and> jget ''readOnlyHint'' a = Some (JBool True)))
         \<and> (gate = IReadOnly \<longrightarrow> (invoke_select t \<longleftrightarrow> read_only t))
         \<and> (gate = INone \<longrightarrow> \<not> invoke_select t)
         \<and> (gate = IAll \<longrightarrow> invoke_select t)"
    if t: "t \<in> set (tools p)" for t
  proof -
    from t p(2) obtain it where it: "it \<in> set ?items" "item_plannable it" "t = item_tool pr gate it" by auto
    have "fst (fst it) \<in> set (map (\<lambda>it. fst (fst it)) ?items)" using it(1) by simp
    then have "fst (fst it) \<in> set ts" unfolding batch_items_tools by simp
    moreover obtain n where "get_str ''name'' (fst (fst it)) = Some n"
      using batch_items_named [OF it(1)] usable_nameD by blast
    ultimately show ?thesis
      unfolding declared_read_only_iff [symmetric] it(3) using it(2)
      by (intro bexI [of _ "fst (fst it)"]) (simp_all add: item_tool_facts)
  qed
  with p(1,3) show ?thesis by (intro exI [of _ p]) blast
qed

theorem plan_gate_witness:
  "\<exists>p. plan (\<lambda>_. []) [JObj [(''name'', JStr ''rm''), (''inputSchema'', JObj [(''properties'', JObj [])])]] ''s'' [] IReadOnly SingleSchema
        = Some (Inr p) \<and> (\<forall>t \<in> set (tools p). \<not> invoke_select t)"
proof -
  let ?ts = "[JObj [(''name'', JStr ''rm''), (''inputSchema'', JObj [(''properties'', JObj [])])]]"
  have "length ?ts < 2 ^ 64" by simp
  from plan_gate [OF ident_ok_Nil _ this, of "''s''" "\<lambda>_. []" IReadOnly SingleSchema]
  show ?thesis by auto
qed

section \<open>Input columns and parameters\<close>

lemma input_columns_props:
  "map property (input_columns pr req seen items) = map (\<lambda>it. fst (fst it)) items"
  by (induction pr req seen items rule: input_columns.induct) auto

lemma input_columns_required:
  "c \<in> set (input_columns pr req seen items) \<Longrightarrow> required c \<longleftrightarrow> property c \<in> req"
  by (induction pr req seen items rule: input_columns.induct) auto

lemma input_columns_distinct:
  "distinct (map snd items) \<Longrightarrow> set seen \<inter> set (map snd items) = {}
   \<Longrightarrow> map col_sql (input_columns pr req seen items) = map snd items"
  by (induction pr req seen items rule: input_columns.induct) auto

lemma find_property:
  assumes "distinct (map property cols)"
  shows "find (\<lambda>c. property c = name) cols = Some c \<longleftrightarrow> c \<in> set cols \<and> property c = name"
proof
  assume "find (\<lambda>c. property c = name) cols = Some c"
  then show "c \<in> set cols \<and> property c = name" by (auto simp: find_Some_iff)
next
  assume "c \<in> set cols \<and> property c = name"
  then show "find (\<lambda>c. property c = name) cols = Some c"
    using find_distinct_key [OF assms, of c] by auto
qed

abbreviation required_params :: "string list \<Rightarrow> column list \<Rightarrow> string list" where
  "required_params req cols \<equiv>
     List.map_filter (\<lambda>name. map_option col_sql (find (\<lambda>c. property c = name) cols)) req"

lemma required_params_set:
  assumes "distinct (map property cols)"
  shows "set (required_params req cols) = col_sql ` {c \<in> set cols. property c \<in> set req}"
  by (auto simp: List.map_filter_def find_property [OF assms] image_iff)
    (metis assms find_property option.sel option.simps(9))+

lemma required_params_distinct:
  assumes "distinct (map property cols)" "distinct (map col_sql cols)" "distinct req"
  shows "distinct (required_params req cols)"
proof -
  have "x = y" if "find (\<lambda>c. property c = x) cols = Some c" "find (\<lambda>c. property c = y) cols = Some d"
    and "col_sql c = col_sql d" for x y c d
  proof -
    from that(1,2) have "c \<in> set cols" "d \<in> set cols" "property c = x" "property d = y"
      by (simp_all add: find_property [OF assms(1)])
    with assms(2) that(3) show ?thesis by (auto simp: distinct_map dest: inj_onD)
  qed
  then have "inj_on (\<lambda>name. the (map_option col_sql (find (\<lambda>c. property c = name) cols)))
      {x \<in> set req. map_option col_sql (find (\<lambda>c. property c = x) cols) \<noteq> None}"
    by (intro inj_onI) auto
  then show ?thesis
    using assms(3) by (simp add: List.map_filter_def distinct_map comp_def)
qed

lemma plan_one_Inr:
  assumes "plan_one pr tool local sqln target gate = Some (Inr t)"
  obtains props derived where
    "properties (unwrap_or (jget ''inputSchema'' tool) JNull) = Some props"
    "traverse column_name (map fst props) = Some derived"
    "inputs t = input_columns pr (required_set (unwrap_or (jget ''inputSchema'' tool) JNull)) [] (zip props derived)"
    "params t = param_order (required_list (unwrap_or (jget ''inputSchema'' tool) JNull)) (inputs t)"
proof -
  have "plannable tool"
    using assms plan_one_skip [of tool pr local sqln target gate] by (cases "plannable tool") auto
  then obtain t' props derived where t': "plan_one pr tool local sqln target gate = Some (Inr t')"
    and facts: "properties (unwrap_or (jget ''inputSchema'' tool) JNull) = Some props"
    "traverse column_name (map fst props) = Some derived"
    "inputs t' = input_columns pr (required_set (unwrap_or (jget ''inputSchema'' tool) JNull)) [] (zip props derived)"
    "params t' = param_order (required_list (unwrap_or (jget ''inputSchema'' tool) JNull)) (inputs t')"
    by (rule plan_one_ok)
  from t' assms have "t' = t" by simp
  from facts [unfolded this] show thesis by (rule that)
qed

lemma input_properties_distinct:
  assumes "json_wf tool" "plan_one pr tool local sqln target gate = Some (Inr t)"
  shows "distinct (map property (inputs t))"
    and "c \<in> set (inputs t) \<Longrightarrow>
      required c \<longleftrightarrow> property c \<in> set (required_list (unwrap_or (jget ''inputSchema'' tool) JNull))"
proof -
  let ?schema = "unwrap_or (jget ''inputSchema'' tool) JNull"
  obtain props derived where p: "properties ?schema = Some props"
    "traverse column_name (map fst props) = Some derived"
    "inputs t = input_columns pr (required_set ?schema) [] (zip props derived)"
    by (rule plan_one_Inr [OF assms(2)])
  have "json_wf ?schema"
    using assms(1) json_wf_jget [OF assms(1)] by (cases "jget ''inputSchema'' tool") auto
  then have "distinct (map fst props)" using p(1) by (rule properties_distinct)
  moreover have "map (\<lambda>it. fst (fst it)) (zip props derived) = map fst (map fst (zip props derived))" by simp
  moreover have "map fst (zip props derived) = props"
    using traverse_length [OF p(2)] by simp
  ultimately show "distinct (map property (inputs t))"
    by (simp only: p(3) input_columns_props)
  show "c \<in> set (inputs t) \<Longrightarrow> required c \<longleftrightarrow> property c \<in> set (required_list ?schema)"
    unfolding p(3) using input_columns_required by (simp add: required_set_list)
qed

text \<open>The generated function's parameters are exactly the tool's input columns, the required ones
  before every optional one (SQL allows no parameter without a default after one with it). If the
  schema repeats no required name and no two columns share a name, no parameter is repeated.\<close>

theorem params_cover_inputs:
  assumes "json_wf tool" "plan_one pr tool local sqln target gate = Some (Inr t)"
  shows "set (params t) = set (map col_sql (inputs t))
    \<and> (\<exists>req. params t = req @ map col_sql (filter (\<lambda>c. \<not> required c) (inputs t))
          \<and> set req = col_sql ` {c \<in> set (inputs t). required c})
    \<and> (distinct (required_list (unwrap_or (jget ''inputSchema'' tool) JNull))
         \<and> distinct (map col_sql (inputs t)) \<longrightarrow> distinct (params t))"
proof -
  let ?req = "required_list (unwrap_or (jget ''inputSchema'' tool) JNull)"
  note props = input_properties_distinct [OF assms]
  have params: "params t = required_params ?req (inputs t) @ map col_sql (filter (\<lambda>c. \<not> required c) (inputs t))"
    by (rule plan_one_Inr [OF assms(2)]) (simp only: param_order_def)
  have req: "set (required_params ?req (inputs t)) = col_sql ` {c \<in> set (inputs t). required c}"
    using required_params_set [OF props(1), of ?req] props(2) by auto
  have "distinct (params t)" if "distinct ?req" "distinct (map col_sql (inputs t))"
    unfolding params
    using that required_params_distinct [OF props(1) that(2,1)] req
    by (auto simp: distinct_map_filter distinct_map inj_on_def)
  with params req show ?thesis by auto
qed

theorem params_cover_inputs_witness:
  "\<exists>t. plan_one (\<lambda>_. []) (JObj [(''inputSchema'', JObj [(''properties'', JObj [(''a'', JNull), (''b'', JNull)]),
            (''required'', JArr [JStr ''b''])])]) ''x'' ''x'' ''s'' IAll = Some (Inr t)
     \<and> set (params t) = set (map col_sql (inputs t))"
proof -
  let ?tool = "JObj [(''inputSchema'', JObj [(''properties'', JObj [(''a'', JNull), (''b'', JNull)]),
            (''required'', JArr [JStr ''b''])])]"
  have "plannable ?tool" by (simp add: plannable_def properties_def)
  then obtain t where t: "plan_one (\<lambda>_. []) ?tool ''x'' ''x'' ''s'' IAll = Some (Inr t)"
    by (rule plan_one_ok)
  have "json_wf ?tool" by simp
  from params_cover_inputs [OF this t] t show ?thesis by blast
qed

section \<open>Where names can still clash\<close>

text \<open>
  The suffix of a colliding property is not itself checked against the other columns: a schema
  with the properties \<^verbatim>\<open>x\<close>, \<^verbatim>\<open>X\<close> and \<^verbatim>\<open>x_\<close> followed by the hash of \<^verbatim>\<open>X\<close> gets two columns of one
  name, which \<^verbatim>\<open>CREATE FOREIGN TABLE\<close> refuses.
\<close>

lemma successively_no_underscore: "\<forall>c \<in> set s. c \<noteq> CHR ''_'' \<Longrightarrow> successively no_double s"
  by (induction s rule: induct_list012) (auto simp: no_double_def)

lemma column_name_hash_suffix:
  "column_name (''x_'' @ sha_suffix p) = Some (''x_'' @ sha_suffix p)"
proof -
  let ?h = "sha_suffix p"
  have hex: "\<forall>c \<in> set ?h. is_hex_char c" using sha_suffix_is_hex [of p] by (simp add: list_all_iff)
  have nous: "\<forall>c \<in> set ?h. c \<noteq> CHR ''_''"
    using hex by (auto simp: is_hex_char_def ascii_defs)
  have ne: "?h \<noteq> []" using length_sha_suffix [of p] by fastforce
  have "list_all ident_char (''x_'' @ ?h)"
    using hex by (auto simp: list_all_iff intro: ident_char_facts) (simp add: ident_char_def ascii_defs)
  moreover have "successively no_double (''x_'' @ ?h)"
    using successively_no_underscore [OF nous] nous ne
    by (cases ?h) (simp_all add: no_double_def)
  moreover have "last (''x_'' @ ?h) \<noteq> CHR ''_''" using ne nous by simp
  ultimately have core: "core_ok (''x_'' @ ?h)" by (simp add: core_ok_def)
  have "derive_base (''x_'' @ ?h) = ''x_'' @ ?h"
    using derive_base_of_core(1) [OF core] by (simp add: ascii_defs)
  then show ?thesis
    by (simp add: column_name_def derive_eq [OF ident_ok_Nil])
qed

lemma input_columns_can_collide:
  "\<exists>props derived. distinct props \<and> traverse column_name props = Some derived
     \<and> \<not> distinct (map col_sql (input_columns pr req [] (zip (map (\<lambda>p. (p, JNull)) props) derived)))"
proof -
  let ?y = "''x_'' @ sha_suffix ''X''"
  have names: "column_name ''x'' = Some ''x''" "column_name ''X'' = Some ''x''" by code_simp+
  have "sha_suffix ''X'' \<noteq> []" using length_sha_suffix [of "''X''"] by fastforce
  then show ?thesis
    using names column_name_hash_suffix [of "''X''"]
    by (intro exI [of _ "[''x'', ''X'', ?y]"] exI [of _ "[''x'', ''x'', ?y]"]) simp
qed

text \<open>A tool whose name holds no letter or digit derives to the empty identifier.\<close>

lemma derive_can_be_empty: "derive ''---'' [] = Some []"
  by code_simp

end
