(* ===== verification/Sql_Lex.thy ===== *)
theory Sql_Lex
  imports Rust_Str
begin

text \<open>
  The part of PostgreSQL's lexical rules the generated statements touch (manual, 4.1): quoted
  identifiers and string literals with doubled quotes (\<^verbatim>\<open>standard_conforming_strings\<close> on), dollar
  quoting, words and single symbols. It is the reference the emitters of \<^verbatim>\<open>codegen\<close> and
  \<^verbatim>\<open>import.rs\<close> are checked against: a server-supplied string must come back as one token.
\<close>

section \<open>Tokens\<close>

datatype token = TWord string | TIdent string | TLit string | TDollar string | TSym char

definition sql_space :: "char \<Rightarrow> bool" where
  "sql_space c \<longleftrightarrow> c = CHR '' '' \<or> c = CHR 0x0A \<or> c = CHR 0x09 \<or> c = CHR 0x0D"

definition word_start :: "char \<Rightarrow> bool" where
  "word_start c \<longleftrightarrow> is_ascii_alphabetic c \<or> c = CHR ''_'' \<or> \<not> is_ascii c"

definition word_char :: "char \<Rightarrow> bool" where
  "word_char c \<longleftrightarrow> word_start c \<or> is_ascii_digit c \<or> c = CHR ''$''"

text \<open>The text up to the closing quote, doubled quotes undone, and what follows it.\<close>

fun read_quoted :: "char \<Rightarrow> string \<Rightarrow> (string \<times> string) option" where
  "read_quoted q [] = None"
| "read_quoted q (c # s) =
     (if c = q then
        (case s of
           d # s' \<Rightarrow> if d = q then map_option (\<lambda>(x, r). (q # x, r)) (read_quoted q s') else Some ([], s)
         | [] \<Rightarrow> Some ([], []))
      else map_option (\<lambda>(x, r). (c # x, r)) (read_quoted q s))"

text \<open>The text before the first occurrence of a delimiter, and what follows the delimiter.\<close>

fun read_until :: "string \<Rightarrow> string \<Rightarrow> (string \<times> string) option" where
  "read_until delim [] = (if delim = [] then Some ([], []) else None)"
| "read_until delim (c # s) =
     (case strip_prefix delim (c # s) of
        Some r \<Rightarrow> Some ([], r)
      | None \<Rightarrow> map_option (\<lambda>(x, r). (c # x, r)) (read_until delim s))"

text \<open>A dollar-quote opener: the tag between two dollar signs.\<close>

definition dollar_tag :: "string \<Rightarrow> (string \<times> string) option" where
  "dollar_tag s =
     (case dropWhile (\<lambda>c. word_start c \<or> is_ascii_digit c) s of
        d # r \<Rightarrow> (if d = CHR ''$'' \<and> (s = d # r \<or> word_start (hd s))
                   then Some (takeWhile (\<lambda>c. word_start c \<or> is_ascii_digit c) s, r) else None)
      | [] \<Rightarrow> None)"

lemma read_quoted_length: "read_quoted q s = Some (x, r) \<Longrightarrow> length r < length s"
proof (induction q s arbitrary: x r rule: read_quoted.induct)
  case (2 q c s)
  show ?case
  proof (cases "c = q \<and> s \<noteq> [] \<and> hd s = q")
    case True
    then obtain s' where s: "s = q # s'" by (cases s) auto
    with True 2 obtain x' where "read_quoted q s' = Some (x', r)" by auto
    with 2(1) True s have "length r < length s'" by auto
    with s show ?thesis by simp
  next
    case False
    with 2 show ?thesis by (auto split: if_splits list.splits intro: less_SucI)
  qed
qed simp

lemma read_until_length: "read_until d s = Some (x, r) \<Longrightarrow> length r \<le> length s"
proof (induction s arbitrary: x)
  case (Cons c s)
  show ?case
  proof (cases "strip_prefix d (c # s)")
    case None
    with Cons.prems obtain x' where "read_until d s = Some (x', r)" by auto
    from Cons.IH [OF this] show ?thesis by simp
  next
    case (Some r')
    with Cons.prems have "c # s = d @ r" by (simp add: strip_prefix_Some_iff)
    then have "length (c # s) = length d + length r" by (metis length_append)
    then show ?thesis by simp
  qed
qed (auto split: if_splits)

lemma dollar_tag_length: "dollar_tag s = Some (t, r) \<Longrightarrow> length r < length s"
  using length_dropWhile_le [of "\<lambda>c. word_start c \<or> is_ascii_digit c" s]
  by (auto simp: dollar_tag_def split: list.splits if_splits)

function sql_lex :: "string \<Rightarrow> token list option" where
  "sql_lex [] = Some []"
| "sql_lex (c # s) =
     (if sql_space c then sql_lex s
      else if c = CHR 0x22 then
        (case read_quoted c s of
           None \<Rightarrow> None
         | Some (x, r) \<Rightarrow> if x = [] then None else map_option (Cons (TIdent x)) (sql_lex r))
      else if c = CHR 0x27 then
        (case read_quoted c s of
           None \<Rightarrow> None
         | Some (x, r) \<Rightarrow> map_option (Cons (TLit x)) (sql_lex r))
      else if c = CHR ''$'' then
        (case dollar_tag s of
           None \<Rightarrow> map_option (Cons (TSym c)) (sql_lex s)
         | Some (tag, r) \<Rightarrow>
             (case read_until (c # tag @ [c]) r of
                None \<Rightarrow> None
              | Some (x, r') \<Rightarrow> map_option (Cons (TDollar x)) (sql_lex r')))
      else if word_start c then
        map_option (Cons (TWord (c # takeWhile word_char s))) (sql_lex (dropWhile word_char s))
      else map_option (Cons (TSym c)) (sql_lex s))"
  by pat_completeness auto
termination
proof (relation "measure length", goal_cases)
  case (6 c s t tag r u x r')
  then have "length r' \<le> length r" "length r < length s"
    by (auto dest: read_until_length dollar_tag_length)
  then show ?case by simp
qed (auto dest: read_quoted_length intro: less_SucI le_imp_less_Suc length_dropWhile_le)

declare sql_lex.simps(2) [simp del]

section \<open>Lexing by pieces\<close>

text \<open>
  \<open>lexes s ts\<close>: whatever separator or end follows, \<open>s\<close> contributes exactly the tokens \<open>ts\<close>.
  \<open>lexes_any\<close> asks nothing of what follows; a piece that ends in a separator has it.
\<close>

definition separator :: "char \<Rightarrow> bool" where
  "separator c \<longleftrightarrow> sql_space c \<or> c \<in> set '',.();''"

definition clean :: "string \<Rightarrow> bool" where
  "clean rest \<longleftrightarrow> rest = [] \<or> separator (hd rest)"

definition lexes :: "string \<Rightarrow> token list \<Rightarrow> bool" where
  "lexes s ts \<longleftrightarrow> (\<forall>rest. clean rest \<longrightarrow> sql_lex (s @ rest) = map_option (\<lambda>u. ts @ u) (sql_lex rest))"

definition lexes_any :: "string \<Rightarrow> token list \<Rightarrow> bool" where
  "lexes_any s ts \<longleftrightarrow> (\<forall>rest. sql_lex (s @ rest) = map_option (\<lambda>u. ts @ u) (sql_lex rest))"

definition sep_tokens :: "string \<Rightarrow> token list" where
  "sep_tokens s = map TSym (filter (\<lambda>c. \<not> sql_space c) s)"

lemma separator_facts:
  assumes "separator c"
  shows "c \<noteq> CHR 0x22" "c \<noteq> CHR 0x27" "c \<noteq> CHR ''$''" "\<not> word_start c" "\<not> word_char c"
  using assms by (auto simp: separator_def sql_space_def word_char_def word_start_def ascii_defs)

lemma lex_separator:
  assumes "separator c"
  shows "sql_lex (c # s) = (if sql_space c then sql_lex s else map_option (Cons (TSym c)) (sql_lex s))"
  using separator_facts [OF assms] by (simp add: sql_lex.simps(2))

lemma lexes_anyD: "lexes_any s ts \<Longrightarrow> sql_lex s = Some ts"
  unfolding lexes_any_def by (metis append_Nil2 sql_lex.simps(1) option.map(2) self_append_conv)

lemma lexes_any_lexes: "lexes_any s ts \<Longrightarrow> lexes s ts"
  by (simp add: lexes_any_def lexes_def)

lemma lexes_any_append: "lexes_any s ts \<Longrightarrow> lexes_any s' ts' \<Longrightarrow> lexes_any (s @ s') (ts @ ts')"
  by (simp add: lexes_any_def option.map_comp comp_def)

lemma lexes_any_then: "lexes_any s ts \<Longrightarrow> lexes s' ts' \<Longrightarrow> lexes (s @ s') (ts @ ts')"
  by (simp add: lexes_any_def lexes_def option.map_comp comp_def)

lemma lexes_any_Nil: "lexes_any [] []"
  by (simp add: lexes_any_def option.map_ident)

lemma lexes_any_seps: "list_all separator s \<Longrightarrow> lexes_any s (sep_tokens s)"
  by (induction s) (auto simp: lexes_any_def sep_tokens_def lex_separator option.map_comp comp_def option.map_ident)

lemma lexes_sep:
  assumes "lexes s ts" "list_all separator p" "p \<noteq> []"
  shows "lexes_any (s @ p) (ts @ sep_tokens p)"
proof -
  have "clean (p @ rest)" for rest using assms(2,3) by (cases p) (auto simp: clean_def)
  with assms(1) lexes_any_seps [OF assms(2)] show ?thesis
    by (simp add: lexes_def lexes_any_def option.map_comp comp_def)
qed

lemma read_quoted_doubled:
  "rest = [] \<or> hd rest \<noteq> q \<Longrightarrow> read_quoted q (replace_char q [q, q] x @ q # rest) = Some (x, rest)"
  by (induction x) (auto split: list.splits)

lemma lexes_quoted_ident:
  assumes "x \<noteq> []"
  shows "lexes ([CHR 0x22] @ replace_char (CHR 0x22) [CHR 0x22, CHR 0x22] x @ [CHR 0x22]) [TIdent x]"
  unfolding lexes_def
proof (intro allI impI)
  fix rest
  assume "clean rest"
  then have "rest = [] \<or> hd rest \<noteq> CHR 0x22" by (auto simp: clean_def dest: separator_facts)
  from read_quoted_doubled [OF this, of x] assms
  show "sql_lex (([CHR 0x22] @ replace_char (CHR 0x22) [CHR 0x22, CHR 0x22] x @ [CHR 0x22]) @ rest)
      = map_option (\<lambda>u. [TIdent x] @ u) (sql_lex rest)"
    by (simp add: sql_lex.simps(2) sql_space_def)
qed

lemma lexes_quoted_literal:
  "lexes ([CHR 0x27] @ replace_char (CHR 0x27) [CHR 0x27, CHR 0x27] x @ [CHR 0x27]) [TLit x]"
  unfolding lexes_def
proof (intro allI impI)
  fix rest
  assume "clean rest"
  then have "rest = [] \<or> hd rest \<noteq> CHR 0x27" by (auto simp: clean_def dest: separator_facts)
  from read_quoted_doubled [OF this, of x]
  show "sql_lex (([CHR 0x27] @ replace_char (CHR 0x27) [CHR 0x27, CHR 0x27] x @ [CHR 0x27]) @ rest)
      = map_option (\<lambda>u. [TLit x] @ u) (sql_lex rest)"
    by (simp add: sql_lex.simps(2) sql_space_def)
qed

definition plain_word :: "string \<Rightarrow> bool" where
  "plain_word w \<longleftrightarrow> w \<noteq> [] \<and> word_start (hd w) \<and> list_all word_char w"

lemma lexes_word:
  assumes "plain_word w"
  shows "lexes w [TWord w]"
  unfolding lexes_def
proof (intro allI impI)
  fix rest
  assume rest: "clean rest"
  obtain c w' where w: "w = c # w'" "word_start c" "list_all word_char w'"
    using assms by (cases w) (auto simp: plain_word_def)
  have c: "\<not> sql_space c" "c \<noteq> CHR 0x22" "c \<noteq> CHR 0x27" "c \<noteq> CHR ''$''"
    using w(2) by (auto simp: word_start_def sql_space_def ascii_defs)
  have "takeWhile word_char (w' @ rest) = w' @ takeWhile word_char rest"
    "dropWhile word_char (w' @ rest) = dropWhile word_char rest"
    using w(3) by (auto simp: list_all_iff takeWhile_append2 dropWhile_append2)
  moreover have "takeWhile word_char rest = []" "dropWhile word_char rest = rest"
    using rest by (cases rest; auto simp: clean_def dest: separator_facts)+
  ultimately show "sql_lex (w @ rest) = map_option (\<lambda>u. [TWord w] @ u) (sql_lex rest)"
    using w c by (simp add: sql_lex.simps(2))
qed

text \<open>Words separated by spaces, as the fixed parts of the statements are.\<close>

lemma lexes_words:
  "list_all plain_word ws \<Longrightarrow> lexes (str_join '' '' ws) (map TWord ws)"
proof (induction ws rule: induct_list012)
  case 1
  then show ?case by (simp add: lexes_any_lexes lexes_any_Nil)
next
  case (2 w)
  then show ?case by (simp add: lexes_word)
next
  case (3 w v ws)
  have "lexes_any (w @ '' '') ([TWord w] @ sep_tokens '' '')"
    using 3 by (intro lexes_sep lexes_word) (simp_all add: separator_def sql_space_def)
  from lexes_any_then [OF this 3(2)] 3(3) show ?case
    by (simp add: sep_tokens_def sql_space_def)
qed

fun comma_tokens :: "token list list \<Rightarrow> token list" where
  "comma_tokens [] = []"
| "comma_tokens [ts] = ts"
| "comma_tokens (ts # us # tss) = ts @ TSym (CHR '','') # comma_tokens (us # tss)"

lemma lexes_join:
  assumes "list_all separator sep" "sep_tokens sep = [TSym (CHR '','')]"
    and "\<And>x. x \<in> set xs \<Longrightarrow> lexes (f x) (g x)"
  shows "lexes (str_join sep (map f xs)) (comma_tokens (map g xs))"
  using assms(3)
proof (induction xs rule: induct_list012)
  case 1
  then show ?case by (simp add: lexes_any_lexes lexes_any_Nil)
next
  case (2 x)
  then show ?case by simp
next
  case (3 x y xs)
  have "sep \<noteq> []" using assms(2) by (auto simp: sep_tokens_def)
  then have "lexes_any (f x @ sep) (g x @ sep_tokens sep)"
    using 3(3) assms(1) by (intro lexes_sep) auto
  from lexes_any_then [OF this 3(2)] 3(3) show ?case by (simp add: assms(2))
qed

section \<open>Dollar quoting\<close>

text \<open>Every dollar sign is followed by a digit, as in positional parameters.\<close>

fun dollar_ok :: "string \<Rightarrow> bool" where
  "dollar_ok [] = True"
| "dollar_ok (c # s) =
     ((c = CHR ''$'' \<longrightarrow> (case s of [] \<Rightarrow> False | d # _ \<Rightarrow> is_ascii_digit d)) \<and> dollar_ok s)"

lemma dollar_ok_append: "dollar_ok s \<Longrightarrow> dollar_ok t \<Longrightarrow> dollar_ok (s @ t)"
  by (induction s) (auto split: list.splits)

lemma dollar_ok_free: "CHR ''$'' \<notin> set s \<Longrightarrow> dollar_ok s"
  by (induction s) auto

lemma dollar_ok_join:
  "dollar_ok sep \<Longrightarrow> \<forall>s \<in> set ss. dollar_ok s \<Longrightarrow> dollar_ok (str_join sep ss)"
  by (induction sep ss rule: str_join.induct) (auto intro: dollar_ok_append)

lemma read_until_dollar:
  assumes "dollar_ok b"
  shows "read_until (CHR ''$'' # CHR ''p'' # t) (b @ (CHR ''$'' # CHR ''p'' # t) @ rest) = Some (b, rest)"
  using assms
proof (induction b)
  case Nil
  have "strip_prefix (CHR ''$'' # CHR ''p'' # t) ((CHR ''$'' # CHR ''p'' # t) @ rest) = Some rest"
    by (simp add: strip_prefix_Some_iff)
  then show ?case by simp
next
  case (Cons c b)
  have "\<not> prefix (CHR ''$'' # CHR ''p'' # t) ((c # b) @ (CHR ''$'' # CHR ''p'' # t) @ rest)"
    using Cons.prems by (cases b) (auto simp: ascii_defs)
  then have "strip_prefix (CHR ''$'' # CHR ''p'' # t) ((c # b) @ (CHR ''$'' # CHR ''p'' # t) @ rest) = None"
    by (simp only: strip_prefix_def if_False)
  with Cons show ?case by simp
qed

end
