(* ===== verification/Codegen_Ddl.thy ===== *)
theory Codegen_Ddl
  imports Codegen_Plan Sql_Lex
begin

text \<open>
  \<^verbatim>\<open>codegen/table.rs\<close>, \<^verbatim>\<open>codegen/function.rs\<close> and \<^verbatim>\<open>codegen/view.rs\<close>: the statements emitted for
  one planned tool. \<open>function_body\<close> panics (\<open>None\<close>) on a parameter that is no input column.
\<close>

section \<open>Quoting and tables\<close>

definition quote_ident :: "string \<Rightarrow> string" where
  "quote_ident name = [CHR 0x22] @ replace_char (CHR 0x22) [CHR 0x22, CHR 0x22] name @ [CHR 0x22]"

definition quote_literal :: "string \<Rightarrow> string" where
  "quote_literal value = [CHR 0x27] @ replace_char (CHR 0x27) [CHR 0x27, CHR 0x27] value @ [CHR 0x27]"

definition table_name :: "planned_tool \<Rightarrow> string" where
  "table_name t = ''tool_'' @ pt_sql_name t"

definition view_name :: "planned_tool \<Rightarrow> string" where
  "view_name t = ''v_tool_'' @ pt_sql_name t"

record extra_options =
  eo_upstream :: "string option"
  eo_cache_ttl_ms :: "nat option"

definition table_options :: "planned_tool \<Rightarrow> extra_options \<Rightarrow> (string \<times> string) list" where
  "table_options t extra =
     [(''tool'', tool_name t),
      (''invoke_on_select'', if invoke_select t then ''true'' else ''false'')]
     @ (case eo_upstream extra of Some u \<Rightarrow> [(''upstream'', u)] | None \<Rightarrow> [])
     @ (case eo_cache_ttl_ms extra of Some ttl \<Rightarrow> [(''cache_ttl_ms'', show_nat ttl)] | None \<Rightarrow> [])"

definition nl :: string where "nl = [CHR 0x0A]"

definition qualified_name :: "string \<Rightarrow> string \<Rightarrow> string" where
  "qualified_name schema name = quote_ident schema @ ''.'' @ quote_ident name"

definition column_def :: "string \<Rightarrow> column_type \<Rightarrow> string" where
  "column_def name ty = ''  '' @ quote_ident name @ '' '' @ sql_name ty"

definition option_def :: "string \<times> string \<Rightarrow> string" where
  "option_def = (\<lambda>(k, v). k @ '' '' @ quote_literal v)"

definition create_table :: "string \<Rightarrow> planned_tool \<Rightarrow> extra_options \<Rightarrow> string" where
  "create_table server_name t extra =
     (let columns = map (\<lambda>c. column_def (col_sql c) (col_type c)) (table_columns t)
                      @ [column_def ''content'' Ty_Jsonb, column_def ''is_error'' Ty_Boolean];
          options = str_join '', '' (map option_def (table_options t extra))
      in ''CREATE FOREIGN TABLE '' @ qualified_name (pt_schema t) (table_name t) @ '' ('' @ nl
         @ str_join ('','' @ nl) columns @ nl @ '') SERVER '' @ quote_ident server_name
         @ '' OPTIONS ('' @ options @ '');'')"

definition column_comments :: "planned_tool \<Rightarrow> string list" where
  "column_comments t =
     List.map_filter (\<lambda>c. map_option (\<lambda>hint.
         ''COMMENT ON COLUMN '' @ qualified_name (pt_schema t) (table_name t) @ ''.'' @ quote_ident (col_sql c)
         @ '' IS '' @ quote_literal hint @ '';'') (col_hint c)) (table_columns t)"

section \<open>Views\<close>

definition eligible :: "planned_tool \<Rightarrow> bool" where
  "eligible t \<longleftrightarrow> read_only t \<and> invoke_select t \<and> list_all (\<lambda>c. \<not> required c) (inputs t)"

definition create_view :: "planned_tool \<Rightarrow> string option" where
  "create_view t =
     (if \<not> eligible t then None
      else Some (let columns = map (\<lambda>c. quote_ident (col_sql c)) (output_columns t)
                                 @ [quote_ident ''content'', quote_ident ''is_error'']
        in ''CREATE VIEW '' @ qualified_name (pt_schema t) (view_name t) @ '' AS SELECT ''
           @ str_join '', '' columns @ '' FROM '' @ qualified_name (pt_schema t) (table_name t) @ '';''))"

definition drop_view :: "string \<Rightarrow> string \<Rightarrow> string" where
  "drop_view schema name = ''DROP VIEW '' @ qualified_name schema name @ '' RESTRICT;''"

section \<open>Functions\<close>

definition input_by_sql :: "planned_tool \<Rightarrow> string \<Rightarrow> column option" where
  "input_by_sql t p = find (\<lambda>c. col_sql c = p) (inputs t)"

definition parameter_types :: "planned_tool \<Rightarrow> column_type list" where
  "parameter_types t = List.map_filter (\<lambda>p. map_option col_type (input_by_sql t p)) (params t)"

definition positional :: "nat \<Rightarrow> string" where
  "positional n = CHR ''$'' # show_nat n"

definition conjunct :: "planned_tool \<Rightarrow> nat \<times> string \<Rightarrow> string option" where
  "conjunct t = (\<lambda>(n, param).
     map_option (\<lambda>c.
       let binding = ''t.'' @ quote_ident param @ '' = '' @ positional n
       in if required c then binding
          else ''('' @ positional n @ ''::'' @ sql_name (col_type c) @ '' IS NULL OR '' @ binding @ '')'')
     (input_by_sql t param))"

definition insert_clause :: "planned_tool \<Rightarrow> string \<Rightarrow> string" where
  "insert_clause t qualified =
     (if params t = [] then
        ''INSERT INTO '' @ qualified @ '' DEFAULT VALUES RETURNING '' @ quote_ident ''content'' @ '', '' @ quote_ident ''is_error''
      else
        ''INSERT INTO '' @ qualified @ '' ('' @ str_join '', '' (map quote_ident (params t)) @ '') VALUES (''
        @ str_join '', '' (map positional [1..<length (params t) + 1]) @ '') RETURNING ''
        @ quote_ident ''content'' @ '', '' @ quote_ident ''is_error'')"

definition function_body :: "planned_tool \<Rightarrow> string option" where
  "function_body t =
     (let qualified = qualified_name (pt_schema t) (table_name t)
      in map_option (\<lambda>conjuncts.
        let where_clause = (if conjuncts = [] then [] else '' WHERE '' @ str_join '' AND '' conjuncts)
        in if is_multi_row t then
             (let returning = str_join '', '' (map (\<lambda>c. ''t.'' @ quote_ident (col_sql c)) (output_columns t))
              in if read_only t \<and> invoke_select t then
                   ''SELECT '' @ returning @ '' FROM '' @ qualified @ '' AS t'' @ where_clause
                 else
                   (let nulls = str_join '', '' (map (\<lambda>c. ''NULL::'' @ sql_name (col_type c)) (output_columns t))
                    in ''WITH call AS ('' @ insert_clause t qualified @ '') SELECT '' @ nulls @ '' FROM call AS t''))
           else if read_only t \<and> invoke_select t then
             ''SELECT jsonb_build_object('' @ quote_literal ''content'' @ '', t.'' @ quote_ident ''content''
             @ '', '' @ quote_literal ''is_error'' @ '', t.'' @ quote_ident ''is_error'' @ '') FROM '' @ qualified
             @ '' AS t'' @ where_clause
           else
             ''WITH call AS ('' @ insert_clause t qualified @ '') SELECT jsonb_build_object(''
             @ quote_literal ''content'' @ '', '' @ quote_ident ''content'' @ '', '' @ quote_literal ''is_error''
             @ '', '' @ quote_ident ''is_error'' @ '') FROM call'')
      (traverse (conjunct t) (enumerate 1 (params t))))"

definition signature_item :: "planned_tool \<Rightarrow> string \<times> column_type \<Rightarrow> string" where
  "signature_item t = (\<lambda>(name, ty).
     let optional = (case input_by_sql t name of Some c \<Rightarrow> \<not> required c | None \<Rightarrow> False)
     in if optional then quote_ident name @ '' '' @ sql_name ty @ '' DEFAULT NULL''
        else quote_ident name @ '' '' @ sql_name ty)"

definition returns_clause :: "planned_tool \<Rightarrow> string" where
  "returns_clause t =
     (if is_multi_row t then
        (let columns = str_join '', '' (map (\<lambda>c. quote_ident (col_sql c) @ '' '' @ sql_name (col_type c)) (output_columns t))
         in if columns = [] then
              ''RETURNS TABLE ('' @ quote_ident ''content'' @ '' jsonb, '' @ quote_ident ''is_error'' @ '' boolean)''
            else ''RETURNS TABLE ('' @ columns @ '')'')
      else ''RETURNS jsonb'')"

definition fn_delim :: string where "fn_delim = ''$pg_mcp_fn$''"

definition create_function :: "planned_tool \<Rightarrow> string option" where
  "create_function t =
     map_option (\<lambda>body.
       ''CREATE FUNCTION '' @ qualified_name (pt_schema t) (pt_sql_name t) @ ''(''
       @ str_join '', '' (map (signature_item t) (zip (params t) (parameter_types t))) @ '') ''
       @ returns_clause t @ '' LANGUAGE sql VOLATILE PARALLEL UNSAFE AS '' @ fn_delim @ '' '' @ body
       @ '' '' @ fn_delim @ '';'')
     (function_body t)"

definition comment_text :: "planned_tool \<Rightarrow> string option" where
  "comment_text t =
     (case (title t, description t) of
        (None, None) \<Rightarrow> None
      | (Some ti, None) \<Rightarrow> Some ti
      | (None, Some d) \<Rightarrow> Some d
      | (Some ti, Some d) \<Rightarrow> Some (ti @ '': '' @ d))"

definition comment_on_function :: "planned_tool \<Rightarrow> string option" where
  "comment_on_function t =
     map_option (\<lambda>text.
       ''COMMENT ON FUNCTION '' @ qualified_name (pt_schema t) (pt_sql_name t) @ ''(''
       @ str_join '', '' (map sql_name (parameter_types t)) @ '') IS '' @ quote_literal text @ '';'')
     (comment_text t)"

definition drop_function :: "string \<Rightarrow> string \<Rightarrow> column_type list \<Rightarrow> string" where
  "drop_function schema name arg_types =
     ''DROP FUNCTION '' @ qualified_name schema name @ ''('' @ str_join '', '' (map sql_name arg_types)
     @ '') RESTRICT;''"

section \<open>The statements as tokens\<close>

lemmas word_eval = plain_word_def word_start_def word_char_def ascii_defs
lemmas sep_eval = separator_def sql_space_def sep_tokens_def

lemma lexes_ident: "name \<noteq> [] \<Longrightarrow> lexes (quote_ident name) [TIdent name]"
  unfolding quote_ident_def by (rule lexes_quoted_ident)

lemma lexes_literal: "lexes (quote_literal v) [TLit v]"
  unfolding quote_literal_def by (rule lexes_quoted_literal)

lemma lexes_kw:
  "list_all plain_word ws \<Longrightarrow> list_all separator p \<Longrightarrow> p \<noteq> []
   \<Longrightarrow> lexes_any (str_join '' '' ws @ p) (map TWord ws @ sep_tokens p)"
  by (intro lexes_sep lexes_words)

lemma lexes_qualified:
  assumes "schema \<noteq> []" "name \<noteq> []"
  shows "lexes (qualified_name schema name) [TIdent schema, TSym (CHR ''.''), TIdent name]"
proof -
  have "lexes_any (quote_ident schema @ ''.'') ([TIdent schema] @ sep_tokens ''.'')"
    using assms by (intro lexes_sep lexes_ident) (simp_all add: sep_eval)
  from lexes_any_then [OF this lexes_ident [OF assms(2)]] show ?thesis
    by (simp add: qualified_name_def sep_eval)
qed

fun type_tokens :: "column_type \<Rightarrow> token list" where
  "type_tokens Ty_Float8 = [TWord ''double'', TWord ''precision'']"
| "type_tokens ty = [TWord (sql_name ty)]"

lemma lexes_type: "lexes (sql_name ty) (type_tokens ty)"
proof (cases "ty = Ty_Float8")
  case True
  have "lexes (str_join '' '' [''double'', ''precision'']) (map TWord [''double'', ''precision''])"
    by (intro lexes_words) (simp add: word_eval)
  with True show ?thesis by simp
next
  case False
  then have "type_tokens ty = [TWord (sql_name ty)]" by (cases ty) simp_all
  moreover have "plain_word (sql_name ty)" using False by (cases ty) (simp_all add: word_eval)
  ultimately show ?thesis by (simp add: lexes_word)
qed

definition col_tokens :: "column \<Rightarrow> token list" where
  "col_tokens c = TIdent (col_sql c) # type_tokens (col_type c)"

lemma lexes_named_type:
  assumes "name \<noteq> []"
  shows "lexes (quote_ident name @ '' '' @ sql_name ty) (TIdent name # type_tokens ty)"
proof -
  have "lexes_any (quote_ident name @ '' '') ([TIdent name] @ sep_tokens '' '')"
    using assms by (intro lexes_sep lexes_ident) (simp_all add: sep_eval)
  from lexes_any_then [OF this lexes_type] show ?thesis by (simp add: sep_eval)
qed

lemma lexes_column_def:
  assumes "name \<noteq> []"
  shows "lexes (column_def name ty) (TIdent name # type_tokens ty)"
proof -
  have "lexes_any ''  '' (sep_tokens ''  '')" by (rule lexes_any_seps) (simp add: sep_eval)
  from lexes_any_then [OF this lexes_named_type [OF assms]] show ?thesis
    by (simp add: column_def_def sep_eval)
qed

lemma lexes_option_def:
  assumes "plain_word (fst kv)"
  shows "lexes (option_def kv) [TWord (fst kv), TLit (snd kv)]"
proof -
  have "lexes_any (fst kv @ '' '') ([TWord (fst kv)] @ sep_tokens '' '')"
    using assms by (intro lexes_sep lexes_word) (simp_all add: sep_eval)
  from lexes_any_then [OF this lexes_literal [of "snd kv"]] show ?thesis
    by (cases kv) (simp add: option_def_def sep_eval)
qed

lemma option_keys_plain: "kv \<in> set (table_options t extra) \<Longrightarrow> plain_word (fst kv)"
  by (auto simp: table_options_def split: option.splits) (simp_all add: word_eval)

text \<open>The columns of a generated table: the tool's own, then the fixed pair.\<close>

definition ddl_columns :: "planned_tool \<Rightarrow> (string \<times> column_type) list" where
  "ddl_columns t = map (\<lambda>c. (col_sql c, col_type c)) (table_columns t) @ [(''content'', Ty_Jsonb), (''is_error'', Ty_Boolean)]"

definition create_table_tokens :: "string \<Rightarrow> planned_tool \<Rightarrow> extra_options \<Rightarrow> token list" where
  "create_table_tokens server_name t extra =
     map TWord [''CREATE'', ''FOREIGN'', ''TABLE''] @ [TIdent (pt_schema t), TSym (CHR ''.''), TIdent (table_name t), TSym (CHR ''('')]
     @ comma_tokens (map (\<lambda>(n, ty). TIdent n # type_tokens ty) (ddl_columns t))
     @ [TSym (CHR '')''), TWord ''SERVER'', TIdent server_name, TWord ''OPTIONS'', TSym (CHR ''('')]
     @ comma_tokens (map (\<lambda>(k, v). [TWord k, TLit v]) (table_options t extra))
     @ [TSym (CHR '')''), TSym (CHR '';'')]"

text \<open>C2. Whatever strings the server published, the generated \<^verbatim>\<open>CREATE FOREIGN TABLE\<close> reads as the
  intended statement: the schema, table, column and server names and the option values each come
  back as exactly one identifier or literal token, so none of them can alter the statement. The
  names must be nonempty, which is all the identifier syntax asks.\<close>

theorem create_table_lexes:
  assumes "pt_schema t \<noteq> []" "server_name \<noteq> []" "list_all (\<lambda>c. col_sql c \<noteq> []) (table_columns t)"
  shows "sql_lex (create_table server_name t extra) = Some (create_table_tokens server_name t extra)"
proof -
  have 1: "lexes_any (''CREATE FOREIGN TABLE '') (map TWord [''CREATE'', ''FOREIGN'', ''TABLE''])"
    using lexes_kw [of "[''CREATE'', ''FOREIGN'', ''TABLE'']" "'' ''"] by (simp add: word_eval sep_eval)
  have 2: "lexes_any (qualified_name (pt_schema t) (table_name t) @ '' ('' @ nl)
      [TIdent (pt_schema t), TSym (CHR ''.''), TIdent (table_name t), TSym (CHR ''('')]"
    using lexes_sep [OF lexes_qualified [OF assms(1), of "table_name t"], of "'' ('' @ nl"]
    by (simp add: table_name_def nl_def sep_eval)
  have cols: "map (\<lambda>c. column_def (col_sql c) (col_type c)) (table_columns t)
      @ [column_def ''content'' Ty_Jsonb, column_def ''is_error'' Ty_Boolean]
      = map (\<lambda>(n, ty). column_def n ty) (ddl_columns t)"
    by (simp add: ddl_columns_def)
  have "lexes (str_join ('','' @ nl) (map (\<lambda>(n, ty). column_def n ty) (ddl_columns t)))
      (comma_tokens (map (\<lambda>(n, ty). TIdent n # type_tokens ty) (ddl_columns t)))"
    using assms(3) by (intro lexes_join)
      (auto simp: sep_eval nl_def ddl_columns_def list_all_iff intro!: lexes_column_def)
  from lexes_sep [OF this, of "nl @ '') ''"]
  have 3: "lexes_any (str_join ('','' @ nl) (map (\<lambda>(n, ty). column_def n ty) (ddl_columns t)) @ nl @ '') '')
      (comma_tokens (map (\<lambda>(n, ty). TIdent n # type_tokens ty) (ddl_columns t)) @ [TSym (CHR '')'')])"
    by (simp add: nl_def sep_eval)
  have 4: "lexes_any (''SERVER '') [TWord ''SERVER'']"
    using lexes_kw [of "[''SERVER'']" "'' ''"] by (simp add: word_eval sep_eval)
  have 5: "lexes_any (quote_ident server_name @ '' '') [TIdent server_name]"
    using lexes_sep [OF lexes_ident [OF assms(2)], of "'' ''"] by (simp add: sep_eval)
  have 6: "lexes_any (''OPTIONS ('') [TWord ''OPTIONS'', TSym (CHR ''('')]"
    using lexes_kw [of "[''OPTIONS'']" "'' (''"] by (simp add: word_eval sep_eval)
  have "lexes (str_join '', '' (map option_def (table_options t extra)))
      (comma_tokens (map (\<lambda>(k, v). [TWord k, TLit v]) (table_options t extra)))"
    using lexes_option_def [OF option_keys_plain]
    by (intro lexes_join) (auto simp: sep_eval split: prod.splits)
  from lexes_sep [OF this, of "'');''"]
  have 7: "lexes_any (str_join '', '' (map option_def (table_options t extra)) @ '');'')
      (comma_tokens (map (\<lambda>(k, v). [TWord k, TLit v]) (table_options t extra)) @ [TSym (CHR '')''), TSym (CHR '';'')])"
    by (simp add: sep_eval)
  note all = lexes_any_append [OF 1 lexes_any_append [OF 2 lexes_any_append [OF 3
    lexes_any_append [OF 4 lexes_any_append [OF 5 lexes_any_append [OF 6 7]]]]]]
  have "create_table server_name t extra = ''CREATE FOREIGN TABLE '' @ (qualified_name (pt_schema t) (table_name t) @ '' ('' @ nl)
      @ (str_join ('','' @ nl) (map (\<lambda>(n, ty). column_def n ty) (ddl_columns t)) @ nl @ '') '') @ ''SERVER ''
      @ (quote_ident server_name @ '' '') @ ''OPTIONS ('' @ str_join '', '' (map option_def (table_options t extra)) @ '');''"
    unfolding create_table_def cols Let_def by simp
  with lexes_anyD [OF all] show ?thesis by (simp add: create_table_tokens_def)
qed

theorem create_table_lexes_witness:
  "sql_lex (create_table ''s'' \<lparr>tool_name = ''a');--'', pt_sql_name = ''a'', pt_schema = [CHR 0x22], read_only = True,
      invoke_select = True, inputs = [], shape = ONone, params = [], title = None, description = None\<rparr>
      \<lparr>eo_upstream = None, eo_cache_ttl_ms = None\<rparr>)
   = Some (create_table_tokens ''s'' \<lparr>tool_name = ''a');--'', pt_sql_name = ''a'', pt_schema = [CHR 0x22], read_only = True,
      invoke_select = True, inputs = [], shape = ONone, params = [], title = None, description = None\<rparr>
      \<lparr>eo_upstream = None, eo_cache_ttl_ms = None\<rparr>)"
  by (rule create_table_lexes) (simp_all add: table_columns_def output_columns_def)

section \<open>Function statements\<close>

lemma conjunct_total: "snd np \<in> set (map col_sql (inputs t)) \<Longrightarrow> \<exists>s. conjunct t np = Some s"
proof -
  assume "snd np \<in> set (map col_sql (inputs t))"
  then have "find (\<lambda>c. col_sql c = snd np) (inputs t) \<noteq> None" by (auto simp: find_None_iff)
  then show ?thesis by (auto simp: conjunct_def input_by_sql_def split: prod.splits)
qed

lemma traverse_total_on: "(\<And>x. x \<in> set xs \<Longrightarrow> \<exists>y. f x = Some y) \<Longrightarrow> \<exists>ys. traverse f xs = Some ys"
  using traverse_all_Some [of xs f "\<lambda>x. the (f x)"] by fastforce

lemma traverse_Some_mem: "traverse f xs = Some ys \<Longrightarrow> y \<in> set ys \<Longrightarrow> \<exists>x \<in> set xs. f x = Some y"
  by (induction xs arbitrary: ys) (auto split: option.splits)

lemma function_body_total:
  assumes "set (params t) \<subseteq> set (map col_sql (inputs t))"
  shows "\<exists>b. function_body t = Some b"
proof -
  have "\<exists>ys. traverse (conjunct t) (enumerate 1 (params t)) = Some ys"
    using assms by (intro traverse_total_on conjunct_total)
      (auto simp: enumerate_eq_zip simp del: set_map dest!: set_zip_rightD)
  then show ?thesis by (auto simp: function_body_def Let_def)
qed

lemma parameter_types_length:
  assumes "set (params t) \<subseteq> set (map col_sql (inputs t))"
  shows "length (parameter_types t) = length (params t)"
proof -
  have "find (\<lambda>c. col_sql c = p) (inputs t) \<noteq> None" if "p \<in> set (params t)" for p
    using assms that by (auto simp: find_None_iff subset_iff)
  then have "filter (\<lambda>p. map_option col_type (input_by_sql t p) \<noteq> None) (params t) = params t"
    by (intro filter_True) (auto simp: input_by_sql_def)
  then show ?thesis
    by (simp add: parameter_types_def List.map_filter_def)
qed

text \<open>Positional parameters are the only dollar signs of a body whose names hold none.\<close>

lemma dollar_free_sql_name: "CHR ''$'' \<notin> set (sql_name ty)"
  by (cases ty) simp_all

lemma dollar_free_quote: "CHR ''$'' \<notin> set s \<Longrightarrow> CHR ''$'' \<notin> set (quote_ident s)"
  by (auto simp: quote_ident_def replace_char_def)

lemma dollar_free_literal: "CHR ''$'' \<notin> set s \<Longrightarrow> CHR ''$'' \<notin> set (quote_literal s)"
  by (auto simp: quote_literal_def replace_char_def)

lemma dollar_ok_positional: "dollar_ok (positional n)"
proof -
  obtain c s where cs: "show_nat n = c # s" using show_nat_digits [of n] by (cases "show_nat n") auto
  have "CHR ''$'' \<notin> set (show_nat n)"
    using show_nat_digits [of n] by (auto simp: list_all_iff ascii_defs)
  then have "dollar_ok (show_nat n)" by (rule dollar_ok_free)
  with cs show_nat_head_digit [OF cs] show ?thesis by (simp add: positional_def)
qed

lemma ident_ok_dollar_free: "ident_ok s \<Longrightarrow> CHR ''$'' \<notin> set s"
  by (auto simp: ident_ok_def list_all_iff ident_char_def ascii_defs)

definition names_dollar_free :: "planned_tool \<Rightarrow> bool" where
  "names_dollar_free t \<longleftrightarrow> CHR ''$'' \<notin> set (pt_schema t) \<and> CHR ''$'' \<notin> set (pt_sql_name t)
     \<and> (\<forall>c \<in> set (table_columns t). CHR ''$'' \<notin> set (col_sql c)) \<and> (\<forall>p \<in> set (params t). CHR ''$'' \<notin> set p)"

lemma dollar_ok_conjunct:
  assumes "conjunct t (n, p) = Some s" "CHR ''$'' \<notin> set p"
  shows "dollar_ok s"
proof -
  have b: "dollar_ok (''t.'' @ quote_ident p @ '' = '' @ positional n)"
    using assms(2) by (intro dollar_ok_append dollar_ok_positional dollar_ok_free dollar_free_quote) simp_all
  have "dollar_ok (''('' @ positional n @ ''::'' @ sql_name ty @ '' IS NULL OR '' @ (''t.'' @ quote_ident p @ '' = '' @ positional n) @ '')'')" for ty
    by (intro dollar_ok_append b dollar_ok_positional dollar_ok_free dollar_free_sql_name) simp_all
  with b assms(1) show ?thesis by (auto simp: conjunct_def Let_def)
qed

lemma dollar_ok_insert_clause:
  assumes "dollar_ok q" "\<forall>p \<in> set (params t). CHR ''$'' \<notin> set p"
  shows "dollar_ok (insert_clause t q)"
proof -
  have "dollar_ok (str_join '', '' (map quote_ident (params t)))"
    using assms(2) by (intro dollar_ok_join) (auto simp: dollar_ok_free dollar_free_quote)
  moreover have "dollar_ok (str_join '', '' (map positional [1..<length (params t) + 1]))"
    by (intro dollar_ok_join) (auto simp: dollar_ok_positional simp del: upt_Suc)
  moreover have "dollar_ok (quote_ident ''content'')" "dollar_ok (quote_ident ''is_error'')"
    by (simp_all add: dollar_ok_free dollar_free_quote)
  ultimately show ?thesis
    using assms(1) unfolding insert_clause_def by (auto intro!: dollar_ok_append)
qed

lemma dollar_ok_body:
  assumes "names_dollar_free t" "function_body t = Some b"
  shows "dollar_ok b"
proof -
  note free = assms(1) [unfolded names_dollar_free_def]
  obtain cs where cs: "traverse (conjunct t) (enumerate 1 (params t)) = Some cs"
    using assms(2) by (auto simp: function_body_def Let_def)
  have "dollar_ok c" if "c \<in> set cs" for c
  proof -
    from cs that obtain n p where "(n, p) \<in> set (enumerate 1 (params t))" "conjunct t (n, p) = Some c"
      using traverse_Some_mem by fastforce
    with free show ?thesis
      by (intro dollar_ok_conjunct) (auto simp: enumerate_eq_zip dest!: set_zip_rightD)
  qed
  then have w: "dollar_ok (if cs = [] then [] else '' WHERE '' @ str_join '' AND '' cs)"
    using dollar_ok_join [of "'' AND ''" cs] by simp
  have q: "dollar_ok (qualified_name (pt_schema t) (table_name t))"
    unfolding qualified_name_def table_name_def
    using free by (intro dollar_ok_append dollar_ok_free dollar_free_quote) simp_all
  have i: "dollar_ok (insert_clause t (qualified_name (pt_schema t) (table_name t)))"
    using free by (intro dollar_ok_insert_clause q) blast
  have outs: "\<forall>c \<in> set (output_columns t). CHR ''$'' \<notin> set (col_sql c)"
    using free by (simp add: table_columns_def)
  then have r: "dollar_ok (str_join '', '' (map (\<lambda>c. ''t.'' @ quote_ident (col_sql c)) (output_columns t)))"
    by (intro dollar_ok_join) (auto simp: dollar_ok_free dollar_free_quote)
  have n: "dollar_ok (str_join '', '' (map (\<lambda>c. ''NULL::'' @ sql_name (col_type c)) (output_columns t)))"
    by (intro dollar_ok_join) (auto simp: dollar_ok_free dollar_free_sql_name)
  have k: "dollar_ok (quote_ident ''content'')" "dollar_ok (quote_ident ''is_error'')"
    "dollar_ok (quote_literal ''content'')" "dollar_ok (quote_literal ''is_error'')"
    by (simp_all add: dollar_ok_free dollar_free_quote dollar_free_literal)
  show ?thesis
    using assms(2) w q i r n k
    by (auto simp: function_body_def Let_def cs [simplified] intro!: dollar_ok_append split: if_splits)
qed

definition sig_tokens :: "planned_tool \<Rightarrow> string \<times> column_type \<Rightarrow> token list" where
  "sig_tokens t = (\<lambda>(n, ty). TIdent n # type_tokens ty
     @ (if (case input_by_sql t n of Some c \<Rightarrow> \<not> required c | None \<Rightarrow> False) then [TWord ''DEFAULT'', TWord ''NULL''] else []))"

definition returns_tokens :: "planned_tool \<Rightarrow> token list" where
  "returns_tokens t =
     (if is_multi_row t then
        [TWord ''RETURNS'', TWord ''TABLE'', TSym (CHR ''('')]
        @ comma_tokens (if output_columns t = [] then [[TIdent ''content'', TWord ''jsonb''], [TIdent ''is_error'', TWord ''boolean'']]
                        else map col_tokens (output_columns t))
        @ [TSym (CHR '')'')]
      else [TWord ''RETURNS'', TWord ''jsonb''])"

definition create_function_tokens :: "planned_tool \<Rightarrow> string \<Rightarrow> token list" where
  "create_function_tokens t body =
     [TWord ''CREATE'', TWord ''FUNCTION'', TIdent (pt_schema t), TSym (CHR ''.''), TIdent (pt_sql_name t), TSym (CHR ''('')]
     @ comma_tokens (map (sig_tokens t) (zip (params t) (parameter_types t))) @ [TSym (CHR '')'')]
     @ returns_tokens t @ map TWord [''LANGUAGE'', ''sql'', ''VOLATILE'', ''PARALLEL'', ''UNSAFE'', ''AS'']
     @ [TDollar ('' '' @ body @ '' ''), TSym (CHR '';'')]"

lemma lexes_signature_item:
  assumes "fst nt \<noteq> []"
  shows "lexes (signature_item t nt) (sig_tokens t nt)"
proof -
  have "lexes (quote_ident (fst nt) @ '' '' @ sql_name (snd nt)) (TIdent (fst nt) # type_tokens (snd nt))"
    using assms by (rule lexes_named_type)
  moreover from lexes_sep [OF this, of "'' ''"]
  have "lexes_any ((quote_ident (fst nt) @ '' '' @ sql_name (snd nt)) @ '' '') (TIdent (fst nt) # type_tokens (snd nt))"
    by (simp add: sep_eval)
  moreover have "lexes ''DEFAULT NULL'' [TWord ''DEFAULT'', TWord ''NULL'']"
    using lexes_words [of "[''DEFAULT'', ''NULL'']"] by (simp add: word_eval)
  ultimately show ?thesis
    using lexes_any_then by (cases nt) (fastforce simp: signature_item_def sig_tokens_def Let_def)
qed

lemma lexes_returns:
  assumes "\<forall>c \<in> set (output_columns t). col_sql c \<noteq> []"
  shows "lexes_any (returns_clause t @ '' '') (returns_tokens t)"
proof (cases "is_multi_row t")
  case False
  with lexes_kw [of "[''RETURNS'', ''jsonb'']" "'' ''"] show ?thesis
    by (simp add: returns_clause_def returns_tokens_def word_eval sep_eval)
next
  case True
  let ?names = "if output_columns t = [] then [(''content'', Ty_Jsonb), (''is_error'', Ty_Boolean)]
    else map (\<lambda>c. (col_sql c, col_type c)) (output_columns t)"
  let ?cols = "str_join '', '' (map (\<lambda>(n, ty). quote_ident n @ '' '' @ sql_name ty) ?names)"
  have 1: "lexes_any ''RETURNS TABLE ('' [TWord ''RETURNS'', TWord ''TABLE'', TSym (CHR ''('')]"
    using lexes_kw [of "[''RETURNS'', ''TABLE'']" "'' (''"] by (simp add: word_eval sep_eval)
  have col: "lexes (case p of (n, ty) \<Rightarrow> quote_ident n @ '' '' @ sql_name ty) (case p of (n, ty) \<Rightarrow> TIdent n # type_tokens ty)"
    if "p \<in> set ?names" for p
  proof -
    have "fst p \<noteq> []" using that assms by (auto split: if_splits)
    from lexes_named_type [OF this, of "snd p"] show ?thesis by (simp add: case_prod_beta)
  qed
  have "lexes ?cols (comma_tokens (map (\<lambda>(n, ty). TIdent n # type_tokens ty) ?names))"
    by (rule lexes_join [OF _ _ col]) (simp_all add: sep_eval)
  from lexes_sep [OF this, of "'') ''"]
  have 2: "lexes_any (?cols @ '') '') (comma_tokens (map (\<lambda>(n, ty). TIdent n # type_tokens ty) ?names) @ [TSym (CHR '')'')])"
    by (simp add: sep_eval)
  have "quote_ident n @ s \<noteq> []" for n s by (simp add: quote_ident_def)
  then have nonempty: "output_columns t \<noteq> [] \<Longrightarrow>
      str_join '', '' (map (\<lambda>c. quote_ident (col_sql c) @ '' '' @ sql_name (col_type c)) (output_columns t)) \<noteq> []"
    by (cases "output_columns t"; cases "tl (output_columns t)") auto
  have "returns_clause t @ '' '' = ''RETURNS TABLE ('' @ ?cols @ '') ''"
    using True nonempty by (auto simp: returns_clause_def Let_def comp_def)
  moreover have "returns_tokens t = [TWord ''RETURNS'', TWord ''TABLE'', TSym (CHR ''('')]
      @ comma_tokens (map (\<lambda>(n, ty). TIdent n # type_tokens ty) ?names) @ [TSym (CHR '')'')]"
    using True by (auto simp: returns_tokens_def comp_def col_tokens_def [abs_def])
  ultimately show ?thesis using lexes_any_append [OF 1 2] by simp
qed

lemma lexes_dollar:
  assumes "dollar_ok b"
  shows "lexes_any (fn_delim @ b @ fn_delim) [TDollar b]"
proof -
  have "dollar_tag (''pg_mcp_fn$'' @ r) = Some (''pg_mcp_fn'', r)" for r
    by (simp add: dollar_tag_def word_eval)
  moreover have "read_until fn_delim (b @ fn_delim @ rest) = Some (b, rest)" for rest
    using read_until_dollar [OF assms, of "''g_mcp_fn$''" rest] by (simp add: fn_delim_def)
  ultimately show ?thesis
    by (simp add: lexes_any_def fn_delim_def sql_lex.simps(2) sql_space_def)
qed

lemma create_function_lexes_gen:
  assumes "function_body t = Some b" "dollar_ok b" "pt_schema t \<noteq> []" "pt_sql_name t \<noteq> []"
    and "\<forall>p \<in> set (params t). p \<noteq> []" "\<forall>c \<in> set (output_columns t). col_sql c \<noteq> []"
  shows "\<exists>s. create_function t = Some s \<and> sql_lex s = Some (create_function_tokens t b)"
proof -
  let ?sig = "str_join '', '' (map (signature_item t) (zip (params t) (parameter_types t)))"
  have 1: "lexes_any ''CREATE FUNCTION '' [TWord ''CREATE'', TWord ''FUNCTION'']"
    using lexes_kw [of "[''CREATE'', ''FUNCTION'']" "'' ''"] by (simp add: word_eval sep_eval)
  have 2: "lexes_any (qualified_name (pt_schema t) (pt_sql_name t) @ ''('')
      [TIdent (pt_schema t), TSym (CHR ''.''), TIdent (pt_sql_name t), TSym (CHR ''('')]"
    using lexes_sep [OF lexes_qualified [OF assms(3,4)], of "''(''"] by (simp add: sep_eval)
  have "lexes ?sig (comma_tokens (map (sig_tokens t) (zip (params t) (parameter_types t))))"
    using assms(5) by (intro lexes_join lexes_signature_item)
      (auto simp: sep_eval dest!: set_zip_leftD)
  from lexes_sep [OF this, of "'') ''"]
  have 3: "lexes_any (?sig @ '') '') (comma_tokens (map (sig_tokens t) (zip (params t) (parameter_types t))) @ [TSym (CHR '')'')])"
    by (simp add: sep_eval)
  have 4: "lexes_any (returns_clause t @ '' '') (returns_tokens t)" by (rule lexes_returns [OF assms(6)])
  have 5: "lexes_any ''LANGUAGE sql VOLATILE PARALLEL UNSAFE AS ''
      (map TWord [''LANGUAGE'', ''sql'', ''VOLATILE'', ''PARALLEL'', ''UNSAFE'', ''AS''])"
    using lexes_kw [of "[''LANGUAGE'', ''sql'', ''VOLATILE'', ''PARALLEL'', ''UNSAFE'', ''AS'']" "'' ''"]
    by (simp add: word_eval sep_eval)
  have "dollar_ok ('' '' @ b @ '' '')" using assms(2) dollar_ok_append [of b "'' ''"] by simp
  note 6 = lexes_dollar [OF this]
  have 7: "lexes_any '';'' [TSym (CHR '';'')]"
    using lexes_any_seps [of "'';''"] by (simp add: sep_eval)
  note all = lexes_any_append [OF 1 lexes_any_append [OF 2 lexes_any_append [OF 3
    lexes_any_append [OF 4 lexes_any_append [OF 5 lexes_any_append [OF 6 7]]]]]]
  show ?thesis
    using lexes_anyD [OF all] assms(1)
    by (intro exI conjI) (simp_all add: create_function_def create_function_tokens_def)
qed

lemma input_columns_names:
  assumes "c \<in> set (input_columns pr req seen items)" "\<forall>it \<in> set items. ident_ok (snd it) \<and> snd it \<noteq> []"
  shows "col_sql c \<noteq> [] \<and> CHR ''$'' \<notin> set (col_sql c)"
  using assms
proof (induction pr req seen items rule: input_columns.induct)
  case (2 pr req seen p schema sql rest)
  have "CHR ''$'' \<notin> set (sha_suffix p)"
    using sha_suffix_is_hex [of p] by (auto simp: list_all_iff is_hex_char_def ascii_defs)
  with 2 show ?case by (auto dest: ident_ok_dollar_free split: if_splits)
qed simp

lemma column_names_ok:
  assumes "traverse column_name names = Some derived" "d \<in> set derived"
  shows "ident_ok d \<and> d \<noteq> []"
  using traverse_Some_mem [OF assms] column_name_valid by blast

lemma shape_columns_names:
  assumes "analyze_output pr schema = Some sh" "c \<in> set (shape_columns sh)"
  shows "col_sql c \<noteq> [] \<and> CHR ''$'' \<notin> set (col_sql c)"
proof -
  have out: "col_sql c \<noteq> [] \<and> CHR ''$'' \<notin> set (col_sql c)"
    if cs: "traverse (output_column pr) ps = Some cs" "c \<in> set cs" for ps cs
  proof -
    obtain p where "output_column pr p = Some c" using traverse_Some_mem [OF cs] by blast
    then obtain d where "column_name (fst p) = Some d" "col_sql c = d"
      by (auto simp: output_column_def split: prod.splits)
    with column_name_valid show ?thesis using ident_ok_dollar_free by blast
  qed
  with assms show ?thesis
    by (auto simp: analyze_output_def element_columns_def Let_def simp del: traverse.simps
        split: option.splits list.splits prod.splits)
qed

lemma plan_one_shape:
  assumes "plan_one pr tool local sqln target gate = Some (Inr t)"
  shows "analyze_output pr (jget ''outputSchema'' tool) = Some (shape t)"
    and "pt_sql_name t = sqln" and "pt_schema t = target"
  using assms by (auto simp: plan_one_def Let_def split: option.splits)

lemma planned_names:
  assumes "plan_one pr tool local sqln target gate = Some (Inr t)" "c \<in> set (table_columns t)"
  shows "col_sql c \<noteq> [] \<and> CHR ''$'' \<notin> set (col_sql c)"
proof -
  obtain props derived where p: "traverse column_name (map fst props) = Some derived"
    "inputs t = input_columns pr (required_set (unwrap_or (jget ''inputSchema'' tool) JNull)) [] (zip props derived)"
    by (rule plan_one_Inr [OF assms(1)])
  have "\<forall>it \<in> set (zip props derived). ident_ok (snd it) \<and> snd it \<noteq> []"
    using column_names_ok [OF p(1)] by (auto dest: set_zip_rightD)
  with input_columns_names [of c pr _ "[]" "zip props derived"] p(2)
    shape_columns_names [OF plan_one_shape(1) [OF assms(1)]] assms(2)
  show ?thesis by (auto simp: table_columns_def output_columns_def)
qed

lemma planned_params:
  assumes "json_wf tool" "plan_one pr tool local sqln target gate = Some (Inr t)"
  shows "set (params t) = set (map col_sql (inputs t))"
proof -
  let ?req = "required_list (unwrap_or (jget ''inputSchema'' tool) JNull)"
  note props = input_properties_distinct [OF assms]
  have "params t = required_params ?req (inputs t) @ map col_sql (filter (\<lambda>c. \<not> required c) (inputs t))"
    by (rule plan_one_Inr [OF assms(2)]) (simp only: param_order_def)
  with required_params_set [OF props(1), of ?req] props(2) show ?thesis by auto
qed



section \<open>Where the quoting does not protect\<close>

text \<open>
  The schema of an upstream is the part of the server-published tool name before the first dot,
  and the body repeats it inside the dollar quotes. A name holding the closing delimiter ends the
  quoted body early: the rest of the body is then read as SQL.
\<close>

lemma schema_breaks_out_of_dollar_quotes:
  assumes "pt_schema t = fn_delim" "read_only t" "invoke_select t" "shape t = ONone" "params t = []"
  shows "\<exists>b. function_body t = Some b \<and> str_contains fn_delim b"
proof -
  have "quote_ident fn_delim = [CHR 0x22] @ fn_delim @ [CHR 0x22]"
    by (simp add: quote_ident_def fn_delim_def)
  then have q: "qualified_name fn_delim (table_name t)
      = [CHR 0x22] @ fn_delim @ ([CHR 0x22] @ ''.'' @ quote_ident (table_name t))"
    by (simp add: qualified_name_def)
  let ?pre = "''SELECT jsonb_build_object('' @ quote_literal ''content'' @ '', t.'' @ quote_ident ''content''
     @ '', '' @ quote_literal ''is_error'' @ '', t.'' @ quote_ident ''is_error'' @ '') FROM '' @ [CHR 0x22]"
  have "function_body t = Some (?pre @ fn_delim @ ([CHR 0x22] @ ''.'' @ quote_ident (table_name t) @ '' AS t''))"
    using assms by (simp add: function_body_def is_multi_row_def q)
  then show ?thesis unfolding str_contains_iff by blast
qed

text \<open>A tool whose derived name is empty gets a statement PostgreSQL cannot read.\<close>

lemma empty_function_name_unreadable:
  assumes "pt_sql_name t = []" "pt_schema t = ''s''" "create_function t = Some s"
  shows "sql_lex s = None"
proof -
  obtain r where s: "s = ''CREATE FUNCTION '' @ (quote_ident ''s'' @ ''.'') @ [CHR 0x22, CHR 0x22, CHR ''('']  @ r"
    using assms by (auto simp: create_function_def qualified_name_def quote_ident_def)
  have 1: "lexes_any ''CREATE FUNCTION '' [TWord ''CREATE'', TWord ''FUNCTION'']"
    using lexes_kw [of "[''CREATE'', ''FUNCTION'']" "'' ''"] by (simp add: word_eval sep_eval)
  have 2: "lexes_any (quote_ident ''s'' @ ''.'') [TIdent ''s'', TSym (CHR ''.'')]"
    using lexes_sep [OF lexes_ident [of "''s''"], of "''.''"] by (simp add: sep_eval)
  have "sql_lex ([CHR 0x22, CHR 0x22, CHR ''(''] @ r) = None"
    by (simp add: sql_lex.simps(2) sql_space_def)
  with lexes_any_append [OF 1 2] show ?thesis
    unfolding s lexes_any_def by (metis append_assoc option.simps(8))
qed

text \<open>A fan-out over objects without declared properties declares two result columns and selects none.\<close>

lemma empty_element_mismatch:
  assumes "shape t = ElementOf p []" "read_only t" "invoke_select t" "params t = []"
  shows "returns_clause t = ''RETURNS TABLE ('' @ quote_ident ''content'' @ '' jsonb, '' @ quote_ident ''is_error'' @ '' boolean)''
    \<and> function_body t = Some (''SELECT  FROM '' @ qualified_name (pt_schema t) (table_name t) @ '' AS t'')"
  using assms by (simp add: returns_clause_def function_body_def is_multi_row_def output_columns_def)

end
