(* ===== verification/Import.thy ===== *)
theory Import
  imports Codegen_Ddl "HOL-Library.Multiset"
begin

text \<open>
  \<^verbatim>\<open>import.rs\<close>: the import options, the table filters, and the statement builders of the plain,
  the per-tool and the engine layout. \<open>pr\<close> is the JSON printer (values appear in error messages).
\<close>

section \<open>Options\<close>

definition TABLE_OPTION_UPSTREAM :: string where "TABLE_OPTION_UPSTREAM = ''upstream''"
definition TABLE_OPTION_CACHE_TTL_MS :: string where "TABLE_OPTION_CACHE_TTL_MS = ''cache_ttl_ms''"

record import_options =
  io_cache_ttl_ms :: "nat option"
  all_upstreams :: bool
  per_tool :: bool
  io_invoke :: invoke_on_select
  io_prefix :: string
  per_upstream_schema :: bool

definition default_options :: import_options where
  "default_options = \<lparr>io_cache_ttl_ms = None, all_upstreams = False, per_tool = False,
     io_invoke = IReadOnly, io_prefix = [], per_upstream_schema = False\<rparr>"

definition validate_prefix :: "string \<Rightarrow> string mcp_result" where
  "validate_prefix raw =
     (if list_all (\<lambda>b. is_ascii_lowercase b \<or> is_ascii_digit b \<or> b = CHR ''_'') raw
         \<and> \<not> (case raw of [] \<Rightarrow> False | b # _ \<Rightarrow> is_ascii_digit b)
      then Inr raw
      else Inl (InvalidOption (''invalid value for import option \"prefix\": \"'' @ raw @
        ''\" is not an identifier fragment (lowercase letters, digits, underscores; must not start with a digit)'')))"

definition bad_value :: "(json \<Rightarrow> string) \<Rightarrow> string \<Rightarrow> json \<Rightarrow> string \<Rightarrow> mcp_error" where
  "bad_value pr key val expected =
     InvalidOption (''invalid value for import option \"'' @ key @ ''\": '' @ pr val @ '' is not '' @ expected)"

definition bool_option :: "(json \<Rightarrow> string) \<Rightarrow> string \<Rightarrow> json \<Rightarrow> bool mcp_result" where
  "bool_option pr key val = ok_or (as_bool val) (bad_value pr key val ''true or false'')"

definition string_option :: "(json \<Rightarrow> string) \<Rightarrow> string \<Rightarrow> json \<Rightarrow> string mcp_result" where
  "string_option pr key val = ok_or (as_str val) (bad_value pr key val ''a string'')"

definition ttl_value :: "json \<Rightarrow> nat option" where
  "ttl_value val =
     (case as_u64 val of
        Some n \<Rightarrow> Some n
      | None \<Rightarrow> Option.bind (as_str val) (\<lambda>s. parse_u64 (trim s)))"

definition parse_entry :: "(json \<Rightarrow> string) \<Rightarrow> import_options \<Rightarrow> string \<times> json \<Rightarrow> import_options mcp_result" where
  "parse_entry pr opts = (\<lambda>(key, val).
     if key = ''cache_ttl_ms'' then
       rmap (\<lambda>n. opts\<lparr>io_cache_ttl_ms := Some n\<rparr>)
         (ok_or (ttl_value val) (bad_value pr key val ''a non-negative integer''))
     else if key = ''all_upstreams'' then rmap (\<lambda>b. opts\<lparr>all_upstreams := b\<rparr>) (bool_option pr key val)
     else if key = ''per_tool'' then rmap (\<lambda>b. opts\<lparr>per_tool := b\<rparr>) (bool_option pr key val)
     else if key = ''invoke_on_select'' then
       rmap (\<lambda>g. opts\<lparr>io_invoke := g\<rparr>) (rbind (string_option pr key val) invoke_parse)
     else if key = ''prefix'' then
       rmap (\<lambda>p. opts\<lparr>io_prefix := p\<rparr>) (rbind (string_option pr key val) validate_prefix)
     else if key = ''per_upstream_schema'' then
       rmap (\<lambda>b. opts\<lparr>per_upstream_schema := b\<rparr>) (bool_option pr key val)
     else Inl (InvalidOption (''unknown import option \"'' @ key @
       ''\" (valid options: all_upstreams, cache_ttl_ms, per_tool, invoke_on_select, prefix, per_upstream_schema)'')))"

fun parse_entries :: "(json \<Rightarrow> string) \<Rightarrow> import_options \<Rightarrow> (string \<times> json) list \<Rightarrow> import_options mcp_result" where
  "parse_entries pr opts [] = Inr opts"
| "parse_entries pr opts (kv # kvs) = rbind (parse_entry pr opts kv) (\<lambda>o'. parse_entries pr o' kvs)"

fun parse_options :: "(json \<Rightarrow> string) \<Rightarrow> json \<Rightarrow> import_options mcp_result" where
  "parse_options pr JNull = Inr default_options"
| "parse_options pr (JObj kvs) = parse_entries pr default_options kvs"
| "parse_options pr v = Inl (InvalidOption (''mcp.import options must be a jsonb object, got: '' @ pr v))"

definition stamped_options :: "import_options \<Rightarrow> (string \<times> string) list" where
  "stamped_options opts =
     (case io_cache_ttl_ms opts of
        Some ttl \<Rightarrow> [(TABLE_OPTION_CACHE_TTL_MS, show_nat ttl)]
      | None \<Rightarrow> [])"

section \<open>Statements\<close>

datatype table_filter = FAll | LimitTo "string list" | Except "string list"

definition create_foreign_table ::
  "string \<Rightarrow> string \<Rightarrow> table_spec \<Rightarrow> (string \<times> string) list \<Rightarrow> string"
where
  "create_foreign_table server_name local_schema sp topts =
     (let cols = str_join ('','' @ nl) (map (\<lambda>c. column_def (col_name c) (pg_type c)) (columns sp));
          options = (if topts = [] then []
                     else '' OPTIONS ('' @ str_join '', '' (map option_def topts) @ '')'')
      in ''CREATE FOREIGN TABLE '' @ qualified_name local_schema (ts_name sp) @ '' ('' @ nl @ cols @ nl
         @ '') SERVER '' @ quote_ident server_name @ options @ '';'')"

fun filter_accepts :: "table_filter \<Rightarrow> string \<Rightarrow> bool" where
  "filter_accepts FAll name = True"
| "filter_accepts (LimitTo names) name = (name \<in> set names)"
| "filter_accepts (Except names) name = (name \<notin> set names)"

definition statements_with :: "string \<Rightarrow> string \<Rightarrow> table_filter \<Rightarrow> import_options \<Rightarrow> string list" where
  "statements_with server_name local_schema flt opts =
     map (\<lambda>e. create_foreign_table server_name local_schema (spec e) (stamped_options opts))
       (filter (\<lambda>e. filter_accepts flt (ts_name (spec e))) REGISTRY)"

definition statements :: "string \<Rightarrow> string \<Rightarrow> table_filter \<Rightarrow> string list" where
  "statements server_name local_schema flt = statements_with server_name local_schema flt default_options"

definition tool_extra :: "string \<Rightarrow> import_options \<Rightarrow> planned_tool \<Rightarrow> extra_options" where
  "tool_extra local_schema opts t =
     \<lparr>eo_upstream = (if per_upstream_schema opts \<and> pt_schema t \<noteq> local_schema then Some (pt_schema t) else None),
      eo_cache_ttl_ms = io_cache_ttl_ms opts\<rparr>"

definition tool_statements :: "string \<Rightarrow> string \<Rightarrow> import_options \<Rightarrow> planned_tool \<Rightarrow> string list option" where
  "tool_statements server_name local_schema opts t =
     map_option (\<lambda>fn.
       [create_table server_name t (tool_extra local_schema opts t)] @ column_comments t @ [fn]
       @ (case comment_on_function t of Some c \<Rightarrow> [c] | None \<Rightarrow> [])
       @ (case create_view t of Some v \<Rightarrow> [v] | None \<Rightarrow> []))
     (create_function t)"

definition create_schema :: "string \<Rightarrow> string" where
  "create_schema name = ''CREATE SCHEMA '' @ quote_ident name @ '';''"

fun per_tool_statements ::
  "string \<Rightarrow> string \<Rightarrow> import_options \<Rightarrow> string list \<Rightarrow> planned_tool list \<Rightarrow> string list option"
where
  "per_tool_statements server_name local_schema opts created [] = Some []"
| "per_tool_statements server_name local_schema opts created (t # ts) =
     (let fresh = per_upstream_schema opts \<and> pt_schema t \<noteq> local_schema \<and> pt_schema t \<notin> set created
      in case tool_statements server_name local_schema opts t of
           None \<Rightarrow> None
         | Some stmts \<Rightarrow>
             map_option (\<lambda>rest. (if fresh then [create_schema (pt_schema t)] else []) @ stmts @ rest)
               (per_tool_statements server_name local_schema opts
                  (if fresh then created @ [pt_schema t] else created) ts))"

definition per_tool_plan ::
  "(json \<Rightarrow> string) \<Rightarrow> string \<Rightarrow> string \<Rightarrow> json list \<Rightarrow> import_options
   \<Rightarrow> (string list \<times> generation_plan) mcp_result option"
where
  "per_tool_plan pr server_name local_schema tool_list opts =
     (let mode = (if per_upstream_schema opts then PerUpstream else SingleSchema)
      in case plan pr tool_list local_schema (io_prefix opts) (io_invoke opts) mode of
           None \<Rightarrow> None
         | Some (Inl e) \<Rightarrow> Some (Inl e)
         | Some (Inr planned) \<Rightarrow>
             map_option (\<lambda>out. Inr (out, planned))
               (per_tool_statements server_name local_schema opts [] (tools planned)))"

fun is_federated :: "source_kind \<Rightarrow> bool" where
  "is_federated (SList _) = True"
| "is_federated (ReadThrough _) = True"
| "is_federated _ = False"

definition is_engine_local :: "table_spec \<Rightarrow> bool" where
  "is_engine_local sp = list_all (\<lambda>c. \<not> is_federated (source c)) (columns sp)"

text \<open>\<^verbatim>\<open>sort\<close> on strings is byte-wise lexicographic; \<^verbatim>\<open>dedup\<close> then removes equal neighbours.\<close>

definition upstreams_from_tool_names :: "string list \<Rightarrow> string list" where
  "upstreams_from_tool_names names =
     remdups_adj (sort (List.map_filter (\<lambda>n. map_option fst (split_once (CHR ''.'') n)) names))"

definition engine_statements :: "string \<Rightarrow> string \<Rightarrow> import_options \<Rightarrow> string list \<Rightarrow> string list" where
  "engine_statements server_name local_schema opts upstreams =
     concat (map (\<lambda>upstream.
       create_schema upstream
       # map (\<lambda>e. create_foreign_table server_name upstream (spec e)
                    ((TABLE_OPTION_UPSTREAM, upstream) # stamped_options opts))
           (filter (\<lambda>e. \<not> is_engine_local (spec e)) REGISTRY)) upstreams)
     @ map (\<lambda>e. create_foreign_table server_name local_schema (spec e)
                  (if is_engine_local (spec e) then stamped_options opts
                   else (TABLE_OPTION_UPSTREAM, []) # stamped_options opts)) REGISTRY"

section \<open>Properties\<close>

lemma validate_prefix_iff: "validate_prefix raw = Inr p \<longleftrightarrow> p = raw \<and> ident_ok raw"
  by (auto simp: validate_prefix_def ident_ok_def ident_char_def list_all_iff split: list.splits if_splits)

lemma parse_entry_prefix:
  "ident_ok (io_prefix opts) \<Longrightarrow> parse_entry pr opts kv = Inr opts' \<Longrightarrow> ident_ok (io_prefix opts')"
  by (cases kv) (auto simp: parse_entry_def rmap_def validate_prefix_iff split: if_splits sum.splits
      elim!: rbind_eq_Inr_iff [THEN iffD1, elim_format])

definition option_keys :: "string set" where
  "option_keys = {''all_upstreams'', ''cache_ttl_ms'', ''per_tool'', ''invoke_on_select'', ''prefix'', ''per_upstream_schema''}"

lemma parse_entry_known: "parse_entry pr opts kv = Inr opts' \<Longrightarrow> fst kv \<in> option_keys"
  by (cases kv) (auto simp: parse_entry_def option_keys_def split: if_splits)

definition ttl_bounded :: "import_options \<Rightarrow> bool" where
  "ttl_bounded opts \<longleftrightarrow> (\<forall>n. io_cache_ttl_ms opts = Some n \<longrightarrow> n < 2 ^ 64)"

lemma ttl_value_bounded: "json_wf v \<Longrightarrow> ttl_value v = Some n \<Longrightarrow> n < 2 ^ 64"
proof (cases v)
  case (JNum k)
  assume "json_wf v" "ttl_value v = Some n"
  with JNum show ?thesis by (cases k) (auto simp: ttl_value_def)
qed (auto simp: ttl_value_def dest: parse_u64_range)

lemma parse_entry_ttl:
  "ttl_bounded opts \<Longrightarrow> json_wf (snd kv) \<Longrightarrow> parse_entry pr opts kv = Inr opts' \<Longrightarrow> ttl_bounded opts'"
  by (cases kv) (auto simp: parse_entry_def rmap_def ok_or_def ttl_bounded_def dest: ttl_value_bounded
      split: if_splits sum.splits option.splits)

lemma parse_entries_ok:
  "parse_entries pr opts kvs = Inr opts' \<Longrightarrow> ident_ok (io_prefix opts) \<Longrightarrow> ttl_bounded opts
   \<Longrightarrow> \<forall>kv \<in> set kvs. json_wf (snd kv)
   \<Longrightarrow> ident_ok (io_prefix opts') \<and> ttl_bounded opts' \<and> fst ` set kvs \<subseteq> option_keys"
proof (induction kvs arbitrary: opts)
  case (Cons kv kvs)
  then obtain o1 where o1: "parse_entry pr opts kv = Inr o1" "parse_entries pr o1 kvs = Inr opts'"
    by (auto simp: rbind_eq_Inr_iff)
  have "ident_ok (io_prefix o1)" by (rule parse_entry_prefix [OF Cons.prems(2) o1(1)])
  moreover have "ttl_bounded o1" using Cons.prems(4) by (intro parse_entry_ttl [OF Cons.prems(3) _ o1(1)]) simp
  ultimately show ?case
    using Cons.IH [OF o1(2)] Cons.prems(4) parse_entry_known [OF o1(1)] by auto
qed simp

lemma parse_options_ok:
  assumes "parse_options pr v = Inr opts" "json_wf v"
  shows "ident_ok (io_prefix opts)" "ttl_bounded opts"
  using assms parse_entries_ok [of pr default_options _ opts]
  by (cases v; auto simp: default_options_def ttl_bounded_def list_all_iff)+

text \<open>C19. Accepted import options are safe to generate with: the prefix is an identifier fragment, the
  TTL fits its 64 bits, and every key of the object is one of the six documented options.\<close>

theorem parse_options_safe:
  assumes "json_wf v" "parse_options pr v = Inr opts"
  shows "ident_ok (io_prefix opts) \<and> (\<forall>n. io_cache_ttl_ms opts = Some n \<longrightarrow> n < 2 ^ 64)
    \<and> (v = JNull \<or> (\<exists>kvs. v = JObj kvs \<and> fst ` set kvs \<subseteq> option_keys))"
proof -
  have "v = JNull \<or> (\<exists>kvs. v = JObj kvs \<and> fst ` set kvs \<subseteq> option_keys)"
    using assms parse_entries_ok [of pr default_options _ opts]
    by (cases v) (auto simp: default_options_def ttl_bounded_def list_all_iff)
  with parse_options_ok [OF assms(2,1)] show ?thesis by (simp add: ttl_bounded_def)
qed

theorem parse_options_safe_witness:
  "\<exists>opts. parse_options (\<lambda>_. []) (JObj [(''prefix'', JStr ''npl_''), (''per_tool'', JBool True)]) = Inr opts
     \<and> io_prefix opts = ''npl_'' \<and> ident_ok (io_prefix opts)"
proof -
  let ?v = "JObj [(''prefix'', JStr ''npl_''), (''per_tool'', JBool True)]"
  have p: "parse_options (\<lambda>_. []) ?v = Inr (default_options\<lparr>io_prefix := ''npl_'', per_tool := True\<rparr>)"
    by (simp add: parse_entry_def bool_option_def string_option_def validate_prefix_def ascii_defs)
  have "json_wf ?v" by simp
  from parse_options_safe [OF this p] p show ?thesis by simp
qed

section \<open>Generation never panics\<close>

lemma tool_statements_total:
  assumes "set (params t) = set (map col_sql (inputs t))"
  shows "\<exists>s. tool_statements server_name local_schema opts t = Some s"
  using function_body_total [of t] assms by (auto simp: tool_statements_def create_function_def)

lemma per_tool_statements_total:
  "\<forall>t \<in> set ts. set (params t) = set (map col_sql (inputs t))
   \<Longrightarrow> \<exists>s. per_tool_statements server_name local_schema opts created ts = Some s"
proof (induction ts arbitrary: created)
  case (Cons t ts)
  obtain s where s: "tool_statements server_name local_schema opts t = Some s"
    using tool_statements_total Cons.prems by (metis list.set_intros(1))
  obtain created' where "created' = (if per_upstream_schema opts \<and> pt_schema t \<noteq> local_schema
      \<and> pt_schema t \<notin> set created then created @ [pt_schema t] else created)" by blast
  with Cons.IH [of created'] Cons.prems s show ?case by (auto simp: Let_def)
qed simp

lemma planned_tools_params:
  assumes "ident_ok pre" "schema \<noteq> []" "length ts < 2 ^ 64" "\<forall>v \<in> set ts. json_wf v"
    and "plan pr ts schema pre gate mode = Some (Inr p)" "t \<in> set (tools p)"
  shows "set (params t) = set (map col_sql (inputs t))"
proof -
  let ?items = "batch_items ts schema pre mode"
  have "tools p = map (item_tool pr gate) (filter item_plannable ?items)"
    using plan_eq [OF assms(1-3), of pr gate mode] assms(5) by auto
  then obtain it where it: "it \<in> set ?items" "item_plannable it" "t = item_tool pr gate it"
    using assms(6) by auto
  have "fst (fst it) \<in> set (map (\<lambda>it. fst (fst it)) ?items)" using it(1) by simp
  then have wf: "json_wf (fst (fst it))" unfolding batch_items_tools using assms(4) by simp
  obtain tool target local sqln where eq: "it = ((tool, target, local), sqln)" by (metis prod.collapse)
  with it(2) have "plannable tool" by simp
  then obtain t' where t': "plan_one pr tool local sqln target gate = Some (Inr t')" by (rule plan_one_ok)
  with it(3) eq have "t' = t" by (simp add: item_tool_def)
  with planned_params [of tool pr local sqln target gate t] t' wf eq show ?thesis by simp
qed



section \<open>Filters and layouts\<close>

lemma mset_filter_split: "mset (map f (filter P xs)) + mset (map f (filter (\<lambda>x. \<not> P x) xs)) = mset (map f xs)"
  by (induction xs) auto

text \<open>The two \<^verbatim>\<open>IMPORT FOREIGN SCHEMA\<close> filters are complementary: what \<^verbatim>\<open>LIMIT TO\<close> and \<^verbatim>\<open>EXCEPT\<close>
  create for one list of names together is exactly the full import, each table once; and the
  engine layout gives every upstream the eight federated tables and keeps \<^verbatim>\<open>server\<close> and
  \<^verbatim>\<open>tool_calls\<close> for the engine.\<close>

theorem import_layouts:
  "mset (statements_with srv schema (LimitTo names) opts) + mset (statements_with srv schema (Except names) opts)
     = mset (statements_with srv schema FAll opts)
   \<and> map (\<lambda>e. ts_name (spec e)) (filter (\<lambda>e. is_engine_local (spec e)) REGISTRY) = [''server'', ''tool_calls'']
   \<and> length (engine_statements srv schema opts upstreams) = 9 * length upstreams + 10"
proof (intro conjI)
  show "mset (statements_with srv schema (LimitTo names) opts) + mset (statements_with srv schema (Except names) opts)
     = mset (statements_with srv schema FAll opts)"
    unfolding statements_with_def filter_accepts.simps
    by (subst mset_filter_split) simp
  show "map (\<lambda>e. ts_name (spec e)) (filter (\<lambda>e. is_engine_local (spec e)) REGISTRY) = [''server'', ''tool_calls'']"
    by (simp add: REGISTRY_def is_engine_local_def spec_defs)
  have "length (filter (\<lambda>e. \<not> is_engine_local (spec e)) REGISTRY) = 8" "length REGISTRY = 10"
    by (simp_all add: REGISTRY_def is_engine_local_def spec_defs)
  then show "length (engine_statements srv schema opts upstreams) = 9 * length upstreams + 10"
    by (simp add: engine_statements_def length_concat comp_def sum_list_triv)
qed

lemma remdups_adj_strict: "sorted xs \<Longrightarrow> sorted_wrt (<) (remdups_adj (xs :: string list))"
proof (induction xs rule: remdups_adj.induct)
  case (3 x y xs)
  then show ?case by (auto simp: order_le_less)
qed simp_all

lemma upstreams_spec:
  "sorted_wrt (<) (upstreams_from_tool_names names)"
  "set (upstreams_from_tool_names names) = {u. \<exists>n \<in> set names. \<exists>r. split_once (CHR ''.'') n = Some (u, r)}"
  by (auto simp: upstreams_from_tool_names_def remdups_adj_strict List.map_filter_def image_iff) force+

text \<open>A tool name with a leading dot makes an upstream with no name, whose schema cannot be created.\<close>

lemma leading_dot_upstream: "upstreams_from_tool_names [''.x''] = [[]]" "sql_lex (create_schema []) = None"
proof -
  show "upstreams_from_tool_names [''.x''] = [[]]"
    by (simp add: upstreams_from_tool_names_def List.map_filter_def)
  have "lexes_any ''CREATE SCHEMA '' [TWord ''CREATE'', TWord ''SCHEMA'']"
    using lexes_kw [of "[''CREATE'', ''SCHEMA'']" "'' ''"] by (simp add: word_eval sep_eval)
  moreover have "sql_lex (quote_ident [] @ '';'') = None"
    by (simp add: quote_ident_def sql_lex.simps(2) sql_space_def)
  ultimately show "sql_lex (create_schema []) = None"
    unfolding create_schema_def lexes_any_def by (metis option.simps(8))
qed

end
