(* ===== verification/Effect.thy ===== *)
theory Effect
  imports Mcp_Errors "HOL-Library.Sublist"
begin

text \<open>
  Fallible computations on a state. A Rust method \<^verbatim>\<open>fn f(&mut self, ...) -> McpResult<T>\<close> is a
  function from the state it may change to its result and the state it leaves, on the error path
  too: an error does not roll the state back.
\<close>

section \<open>Combinators\<close>

type_synonym ('s, 'e, 'a) effe = "'s \<Rightarrow> ('e + 'a) \<times> 's"
type_synonym ('s, 'a) eff = "('s, mcp_error, 'a) effe"

definition eret :: "'a \<Rightarrow> ('s, 'e, 'a) effe" where
  "eret x = (\<lambda>s. (Inr x, s))"

definition elift :: "'e + 'a \<Rightarrow> ('s, 'e, 'a) effe" where
  "elift r = (\<lambda>s. (r, s))"

text \<open>The \<^verbatim>\<open>?\<close> operator.\<close>

definition ebind :: "('s, 'e, 'a) effe \<Rightarrow> ('a \<Rightarrow> ('s, 'e, 'b) effe) \<Rightarrow> ('s, 'e, 'b) effe" where
  "ebind m f = (\<lambda>s. case m s of (Inl e, s') \<Rightarrow> (Inl e, s') | (Inr x, s') \<Rightarrow> f x s')"

text \<open>\<^verbatim>\<open>map_err\<close>.\<close>

definition emap_err :: "('e \<Rightarrow> 'f) \<Rightarrow> ('s, 'e, 'a) effe \<Rightarrow> ('s, 'f, 'a) effe" where
  "emap_err g m = (\<lambda>s. case m s of (Inl e, s') \<Rightarrow> (Inl (g e), s') | (Inr x, s') \<Rightarrow> (Inr x, s'))"

text \<open>A loop over a list whose body may fail, collecting the results.\<close>

fun emap :: "('a \<Rightarrow> ('s, 'e, 'b) effe) \<Rightarrow> 'a list \<Rightarrow> ('s, 'e, 'b list) effe" where
  "emap f [] = eret []"
| "emap f (x # xs) = ebind (f x) (\<lambda>y. ebind (emap f xs) (\<lambda>ys. eret (y # ys)))"

named_theorems eff_simps \<open>unfolding rules of the combinators\<close>

lemma eret_apply [eff_simps]: "eret x s = (Inr x, s)"
  by (simp add: eret_def)

lemma elift_apply [eff_simps]: "elift r s = (r, s)"
  by (simp add: elift_def)

lemma ebind_apply [eff_simps]:
  "ebind m f s = (case m s of (Inl e, s') \<Rightarrow> (Inl e, s') | (Inr x, s') \<Rightarrow> f x s')"
  by (simp add: ebind_def)

lemma emap_err_apply [eff_simps]:
  "emap_err g m s = (case m s of (Inl e, s') \<Rightarrow> (Inl (g e), s') | (Inr x, s') \<Rightarrow> (Inr x, s'))"
  by (simp add: emap_err_def)

lemma snd_emap_err [simp]: "snd (emap_err g m s) = snd (m s)"
  by (simp add: emap_err_def split: prod.splits sum.splits)

lemma ebind_Inr: "ebind m f s = (Inr y, t) \<longleftrightarrow> (\<exists>x u. m s = (Inr x, u) \<and> f x u = (Inr y, t))"
  by (auto simp: ebind_def split: prod.splits sum.splits)

lemma ebind_Inl:
  "ebind m f s = (Inl e, t) \<longleftrightarrow> m s = (Inl e, t) \<or> (\<exists>x u. m s = (Inr x, u) \<and> f x u = (Inl e, t))"
  by (auto simp: ebind_def split: prod.splits sum.splits)

section \<open>How the state may change\<close>

text \<open>
  \<open>evolves R m\<close>: whatever the outcome, \<open>m\<close> moves the state along \<open>R\<close>. The relations of interest
  (the wire log grows, other keys are left alone) are reflexive and transitive, and then the
  combinators inherit the bound from their parts.
\<close>

definition evolves :: "('s \<Rightarrow> 's \<Rightarrow> bool) \<Rightarrow> ('s, 'e, 'a) effe \<Rightarrow> bool" where
  "evolves R m \<longleftrightarrow> (\<forall>s. R s (snd (m s)))"

lemma evolvesI: "(\<And>s. R s (snd (m s))) \<Longrightarrow> evolves R m"
  by (simp add: evolves_def)

lemma evolves_at: "evolves R m \<Longrightarrow> R s (snd (m s))"
  by (simp add: evolves_def)

lemma evolvesD: "evolves R m \<Longrightarrow> m s = (r, s') \<Longrightarrow> R s s'"
  unfolding evolves_def by (metis snd_conv)

locale evolution =
  fixes R :: "'s \<Rightarrow> 's \<Rightarrow> bool"
  assumes evo_refl: "R s s"
    and evo_trans: "R s t \<Longrightarrow> R t u \<Longrightarrow> R s u"
begin

lemma evo_ret: "evolves R (eret x)"
  by (simp add: evolves_def eret_def evo_refl)

lemma evo_lift: "evolves R (elift r)"
  by (simp add: evolves_def elift_def evo_refl)

lemma evo_bind:
  assumes "evolves R m" "\<And>x. evolves R (f x)"
  shows "evolves R (ebind m f)"
proof (rule evolvesI)
  fix s
  obtain r t where rt: "m s = (r, t)" by force
  then have st: "R s t" by (rule evolvesD [OF assms(1)])
  show "R s (snd (ebind m f s))"
  proof (cases r)
    case (Inl e)
    with rt st show ?thesis by (simp add: ebind_def)
  next
    case (Inr x)
    have "R t (snd (f x t))" using assms(2) [of x] by (simp add: evolves_def)
    with Inr rt st evo_trans show ?thesis by (auto simp: ebind_def)
  qed
qed

lemma evo_map: "(\<And>x. evolves R (f x)) \<Longrightarrow> evolves R (emap f xs)"
  by (induction xs) (simp_all add: evo_ret evo_bind)

lemma evo_map_err: "evolves R m \<Longrightarrow> evolves R (emap_err g m)"
  by (simp add: evolves_def)

lemmas evo_intros = evo_ret evo_lift evo_bind evo_map evo_map_err

end

end
