(* ===== verification/Sse.thy ===== *)
theory Sse
  imports Mcp_Errors
begin

text \<open>
  \<^verbatim>\<open>sse.rs\<close>: the event-stream reader. A stream is what the successive \<^verbatim>\<open>read_line\<close> calls see: with
  each call the milliseconds elapsed at the loop's deadline check, then end of stream, an I/O
  error of some kind, or a line, followed, should that line dispatch an event, by the answer of
  the interrupt check. The JSON parser is the parameter \<open>parse\<close>; frames handed to the observer are
  returned beside the result.
\<close>

section \<open>The reader\<close>

datatype sse_stream =
    SEof nat
  | SErr nat string
  | SLine nat "mcp_error option" string sse_stream

record event =
  ev_event :: "string option"
  ev_id :: "string option"
  ev_data :: string

definition default_event :: event where
  "default_event = \<lparr>ev_event = None, ev_id = None, ev_data = []\<rparr>"

fun json_id :: "json \<Rightarrow> int option" where
  "json_id (JNum n) = number_as_i64 n"
| "json_id (JStr s) = parse_i64 s"
| "json_id _ = None"

definition has_id :: "int \<Rightarrow> json \<Rightarrow> bool" where
  "has_id want parsed \<longleftrightarrow> Option.bind (jget ''id'' parsed) json_id = Some want"

definition trim_eol :: "string \<Rightarrow> string" where
  "trim_eol line = rev (dropWhile (\<lambda>c. c = CHR 0x0D \<or> c = CHR 0x0A) (rev line))"

definition field_value :: "string \<Rightarrow> string \<times> string" where
  "field_value line =
     (case split_once (CHR '':'') line of
        Some (f, v) \<Rightarrow> (f, unwrap_or (strip_prefix '' '' v) v)
      | None \<Rightarrow> (line, []))"

definition timed_out :: "nat \<Rightarrow> mcp_error" where
  "timed_out timeout =
     Transport (''MCP request timed out after '' @ show_nat timeout @ ''ms while reading the event stream'')"

definition stream_ended :: mcp_error where
  "stream_ended = Transport ''MCP event stream ended before the response arrived''"

fun read_loop ::
  "(string \<Rightarrow> json option) \<Rightarrow> int \<Rightarrow> nat \<Rightarrow> event \<Rightarrow> string list \<Rightarrow> sse_stream \<Rightarrow> json mcp_result \<times> json list"
where
  "read_loop parse want_id timeout pending data_lines (SEof elapsed) =
     (if elapsed \<ge> timeout then (Inl (timed_out timeout), []) else (Inl stream_ended, []))"
| "read_loop parse want_id timeout pending data_lines (SErr elapsed kind) =
     (if elapsed \<ge> timeout then (Inl (timed_out timeout), [])
      else (Inl (Transport (''event stream read failed: '' @ kind)), []))"
| "read_loop parse want_id timeout pending data_lines (SLine elapsed interrupt line rest) =
     (if elapsed \<ge> timeout then (Inl (timed_out timeout), [])
      else
        (let trimmed = trim_eol line
         in if trimmed = [] then
              (case interrupt of
                 Some e \<Rightarrow> (Inl e, [])
               | None \<Rightarrow>
                   (case (if data_lines \<noteq> [] then parse (str_join [CHR 0x0A] data_lines) else None) of
                      Some parsed \<Rightarrow>
                        if has_id want_id parsed then (Inr parsed, [parsed])
                        else (case read_loop parse want_id timeout default_event [] rest of
                                (r, seen) \<Rightarrow> (r, parsed # seen))
                    | None \<Rightarrow> read_loop parse want_id timeout default_event [] rest))
            else if prefix '':'' trimmed then read_loop parse want_id timeout pending data_lines rest
            else
              (let (field, value) = field_value trimmed
               in if field = ''data'' then read_loop parse want_id timeout pending (data_lines @ [value]) rest
                  else if field = ''id'' then read_loop parse want_id timeout (pending\<lparr>ev_id := Some value\<rparr>) data_lines rest
                  else if field = ''event'' then read_loop parse want_id timeout (pending\<lparr>ev_event := Some value\<rparr>) data_lines rest
                  else read_loop parse want_id timeout pending data_lines rest)))"

definition read_until_id_observed ::
  "(string \<Rightarrow> json option) \<Rightarrow> sse_stream \<Rightarrow> int \<Rightarrow> nat \<Rightarrow> json mcp_result \<times> json list"
where
  "read_until_id_observed parse stream want_id timeout = read_loop parse want_id timeout default_event [] stream"

definition read_until_id :: "(string \<Rightarrow> json option) \<Rightarrow> sse_stream \<Rightarrow> int \<Rightarrow> nat \<Rightarrow> json mcp_result" where
  "read_until_id parse stream want_id timeout = fst (read_until_id_observed parse stream want_id timeout)"

section \<open>Reference decoding\<close>

text \<open>
  The event-stream format by blocks: the \<^verbatim>\<open>data\<close> values between two blank lines, joined by newlines,
  are one payload; comments and other fields contribute nothing, and an unterminated block is no
  event.
\<close>

definition data_of :: "string \<Rightarrow> string option" where
  "data_of line = (if prefix '':'' line then None
     else if fst (field_value line) = ''data'' then Some (snd (field_value line)) else None)"

definition payload :: "string list \<Rightarrow> string list" where
  "payload block = (let ds = List.map_filter data_of block in if ds = [] then [] else [str_join [CHR 0x0A] ds])"

function payloads :: "string list \<Rightarrow> string list" where
  "payloads ls =
     (case dropWhile (\<lambda>l. l \<noteq> []) ls of
        [] \<Rightarrow> []
      | _ # rest \<Rightarrow> payload (takeWhile (\<lambda>l. l \<noteq> []) ls) @ payloads rest)"
  by pat_completeness auto
termination
proof (relation "measure length", goal_cases)
  case (2 ls x rest)
  then have "length (x # rest) \<le> length ls" by (metis length_dropWhile_le)
  then show ?case by simp
qed simp

declare payloads.simps [simp del]

fun stream_lines :: "sse_stream \<Rightarrow> string list" where
  "stream_lines (SLine _ _ l rest) = trim_eol l # stream_lines rest"
| "stream_lines _ = []"

text \<open>Every read came before the deadline, nothing interrupted, and the stream was closed in order.\<close>

fun undisturbed :: "nat \<Rightarrow> sse_stream \<Rightarrow> bool" where
  "undisturbed timeout (SEof t) = (t < timeout)"
| "undisturbed timeout (SErr _ _) = False"
| "undisturbed timeout (SLine t i _ rest) = (t < timeout \<and> i = None \<and> undisturbed timeout rest)"

section \<open>Properties\<close>

text \<open>\<open>pfx\<close> are lines of the open block that gave the data collected so far.\<close>

lemma read_loop_reference:
  assumes "undisturbed timeout s" "\<forall>l \<in> set pfx. l \<noteq> []" "List.map_filter data_of pfx = data_lines"
  shows "fst (read_loop parse want timeout pending data_lines s) =
    (case find (has_id want) (List.map_filter parse (payloads (pfx @ stream_lines s))) of
       Some v \<Rightarrow> Inr v | None \<Rightarrow> Inl stream_ended)"
  using assms
proof (induction s arbitrary: pending data_lines pfx)
  case (SEof t)
  then have "dropWhile (\<lambda>l. l \<noteq> []) pfx = []" by (simp add: dropWhile_eq_Nil_conv)
  then have "payloads pfx = []" by (subst payloads.simps) (simp only: list.case)
  with SEof show ?case by (simp add: List.map_filter_def)
next
  case (SErr t k)
  then show ?case by simp
next
  case (SLine t i l rest)
  let ?l = "trim_eol l"
  have t: "\<not> timeout \<le> t" "i = None" "undisturbed timeout rest" using SLine.prems(1) by auto
  show ?case
  proof (cases "?l = []")
    case True
    have tw: "takeWhile (\<lambda>l. l \<noteq> []) (pfx @ [] # ls) = pfx" "dropWhile (\<lambda>l. l \<noteq> []) (pfx @ [] # ls) = [] # ls" for ls
      using SLine.prems(2) by (auto simp: takeWhile_append2 dropWhile_append2)
    have pl: "payloads (pfx @ [] # stream_lines rest) = payload pfx @ payloads (stream_lines rest)"
      by (subst payloads.simps) (simp add: tw)
    have ih: "fst (read_loop parse want timeout default_event [] rest) =
        (case find (has_id want) (List.map_filter parse (payloads (stream_lines rest))) of
           Some v \<Rightarrow> Inr v | None \<Rightarrow> Inl stream_ended)"
      using SLine.IH [OF t(3), of "[]" "[]" default_event] by (simp add: List.map_filter_def)
    show ?thesis
    proof (cases "data_lines = [] \<or> parse (str_join [CHR 0x0A] data_lines) = None")
      case none: True
      then have "List.map_filter parse (payload pfx) = []"
        using SLine.prems(3) by (auto simp: payload_def Let_def List.map_filter_def)
      with none True t ih pl show ?thesis
        by (auto simp: List.map_filter_def)
    next
      case some: False
      then obtain v where v: "data_lines \<noteq> []" "parse (str_join [CHR 0x0A] data_lines) = Some v" by auto
      then have "List.map_filter parse (payload pfx) = [v]"
        using SLine.prems(3) by (auto simp: payload_def Let_def List.map_filter_def)
      then have "List.map_filter parse (payloads (pfx @ [] # stream_lines rest))
          = v # List.map_filter parse (payloads (stream_lines rest))"
        by (simp add: pl List.map_filter_def)
      with v True t ih show ?thesis by (auto split: prod.splits)
    qed
  next
    case False
    have step: "fst (read_loop parse want timeout p (data_lines @ (case data_of ?l of Some d \<Rightarrow> [d] | None \<Rightarrow> [])) rest) =
        (case find (has_id want) (List.map_filter parse (payloads (pfx @ stream_lines (SLine t i l rest)))) of
           Some v \<Rightarrow> Inr v | None \<Rightarrow> Inl stream_ended)" for p
      using SLine.IH [OF t(3), of "pfx @ [?l]" "data_lines @ (case data_of ?l of Some d \<Rightarrow> [d] | None \<Rightarrow> [])" p]
        SLine.prems(2,3) False
      by (auto simp: List.map_filter_def split: option.splits)
    obtain f v where fv: "field_value ?l = (f, v)" by force
    show ?thesis
    proof (cases "prefix '':'' ?l")
      case True
      with False t step [of pending] show ?thesis by (simp add: data_of_def)
    next
      case no_comment: False
      show ?thesis
      proof (cases "f = ''data''")
        case True
        with False no_comment t fv step [of pending] show ?thesis by (simp add: data_of_def)
      next
        case no_data: False
        with no_comment fv step have "fst (read_loop parse want timeout p data_lines rest) =
            (case find (has_id want) (List.map_filter parse (payloads (pfx @ stream_lines (SLine t i l rest)))) of
               Some v \<Rightarrow> Inr v | None \<Rightarrow> Inl stream_ended)" for p
          by (simp add: data_of_def)
        with False no_comment no_data t fv show ?thesis by simp
      qed
    qed
  qed
qed

text \<open>C13. Reading a reply from an event stream is decoding the stream: on a stream that stays within the
  deadline, is not interrupted and ends, the reader returns the first payload that parses and
  carries the wanted id, however the payload was split into \<^verbatim>\<open>data\<close> lines and whatever keepalives,
  other fields and other messages lie in between, and reports the missing reply otherwise.\<close>

theorem read_until_id_decodes:
  assumes "undisturbed timeout s"
  shows "read_until_id parse s want timeout =
    (case find (has_id want) (List.map_filter parse (payloads (stream_lines s))) of
       Some v \<Rightarrow> Inr v | None \<Rightarrow> Inl stream_ended)"
  using read_loop_reference [OF assms, of "[]" "[]"]
  by (simp add: read_until_id_def read_until_id_observed_def List.map_filter_def)

theorem read_until_id_decodes_witness:
  "read_until_id (\<lambda>p. if p = ''x'' then Some (JObj [(''id'', JNum (PosInt 7))]) else None)
     (SLine 0 None ''data: y'' (SLine 0 None [] (SLine 0 None '':keepalive'' (SLine 1 None ''data:x'' (SLine 1 None [] (SEof 2)))))) 7 10
   = Inr (JObj [(''id'', JNum (PosInt 7))])"
proof -
  let ?s = "SLine 0 None ''data: y'' (SLine 0 None [] (SLine 0 None '':keepalive'' (SLine 1 None ''data:x'' (SLine 1 None [] (SEof 2)))))"
  have "undisturbed 10 ?s" by simp
  note r = read_until_id_decodes [OF this, of "\<lambda>p. if p = ''x'' then Some (JObj [(''id'', JNum (PosInt 7))]) else None" 7]
  have "payloads (stream_lines ?s) = [''y'', ''x'']"
    by (simp add: payloads.simps payload_def trim_eol_def List.map_filter_def data_of_def field_value_def strip_prefix_def)
  then show ?thesis unfolding r by (simp add: List.map_filter_def has_id_def)
qed

fun interrupt_errors :: "sse_stream \<Rightarrow> mcp_error set" where
  "interrupt_errors (SLine _ i _ rest) = set_option i \<union> interrupt_errors rest"
| "interrupt_errors _ = {}"

definition read_sound :: "int \<Rightarrow> mcp_error set \<Rightarrow> json mcp_result \<times> json list \<Rightarrow> bool" where
  "read_sound want errs = (\<lambda>(r, seen). case r of
     Inr v \<Rightarrow> has_id want v \<and> (\<exists>before. seen = before @ [v] \<and> (\<forall>x \<in> set before. \<not> has_id want x))
   | Inl e \<Rightarrow> (\<forall>x \<in> set seen. \<not> has_id want x) \<and> (sqlstate e = ''08006'' \<or> e \<in> errs))"

lemma read_sound_Cons:
  "read_sound want errs (r, seen) \<Longrightarrow> \<not> has_id want x \<Longrightarrow> read_sound want errs (r, x # seen)"
  by (cases r) (force simp: read_sound_def intro: exI [of _ "x # _"])+

lemma read_sound_mono: "read_sound want errs p \<Longrightarrow> errs \<subseteq> errs' \<Longrightarrow> read_sound want errs' p"
  by (auto simp: read_sound_def split: sum.splits)

lemma read_loop_sound:
  "read_sound want (interrupt_errors s) (read_loop parse want timeout pending data_lines s)"
proof (induction s arbitrary: pending data_lines)
  case (SEof t)
  then show ?case by (simp add: read_sound_def timed_out_def stream_ended_def)
next
  case (SErr t k)
  then show ?case by (simp add: read_sound_def timed_out_def)
next
  case (SLine t i l rest)
  have rest: "read_sound want (interrupt_errors (SLine t i l rest)) (read_loop parse want timeout p d rest)" for p d
    by (rule read_sound_mono [OF SLine.IH]) auto
  have seen: "\<not> has_id want v \<Longrightarrow> read_loop parse want timeout p d rest = (r, seen)
    \<Longrightarrow> read_sound want (interrupt_errors (SLine t i l rest)) (r, v # seen)" for v p d r seen
    using rest [of p d] by (intro read_sound_Cons) simp_all
  have late: "read_sound want E (Inl (timed_out timeout), [])" for E
    by (simp add: read_sound_def timed_out_def)
  have intr: "i = Some e \<Longrightarrow> read_sound want (interrupt_errors (SLine t i l rest)) (Inl e, [])" for e
    by (simp add: read_sound_def)
  have hit: "has_id want v \<Longrightarrow> read_sound want E (Inr v, [v])" for v E
    by (simp add: read_sound_def)
  show ?case
  proof (cases "timeout \<le> t \<or> trim_eol l \<noteq> []")
    case True
    obtain f v where fv: "field_value (trim_eol l) = (f, v)" by force
    from True show ?thesis using rest late by (auto simp: fv Let_def simp del: interrupt_errors.simps)
  next
    case dispatch: False
    show ?thesis
    proof (cases i)
      case (Some e)
      with dispatch intr [OF Some] show ?thesis by simp
    next
      case None
      show ?thesis
      proof (cases "if data_lines \<noteq> [] then parse (str_join [CHR 0x0A] data_lines) else None")
        case nothing: None
        with dispatch None rest [of default_event "[]"] show ?thesis by (simp del: interrupt_errors.simps)
      next
        case (Some v)
        obtain r sn where rs: "read_loop parse want timeout default_event [] rest = (r, sn)" by force
        from Some dispatch None rs hit [of v] seen [OF _ rs] show ?thesis
          by (cases "has_id want v") (simp_all del: interrupt_errors.simps)
      qed
    qed
  qed
qed

text \<open>C18. The reader answers for its own request only, on any stream: a returned message carries the
  wanted id and is the first observed frame that does; when none arrives, the deadline, a read
  failure or the end of the stream is a connection failure (08006), or the pending interrupt is
  the error.\<close>

theorem read_until_id_sound:
  "case read_until_id_observed parse s want timeout of (r, seen) \<Rightarrow>
     (case r of
        Inr v \<Rightarrow> has_id want v \<and> (\<exists>before. seen = before @ [v] \<and> (\<forall>x \<in> set before. \<not> has_id want x))
      | Inl e \<Rightarrow> (\<forall>x \<in> set seen. \<not> has_id want x) \<and> (sqlstate e = ''08006'' \<or> e \<in> interrupt_errors s))"
  using read_loop_sound [of want s parse timeout default_event "[]"]
  by (simp add: read_until_id_observed_def read_sound_def)

theorem read_until_id_sound_witness:
  "read_until_id (\<lambda>_. None) (SLine 3 (Some (Transport ''cancel'')) [] (SEof 4)) 1 10 = Inl (Transport ''cancel'')
   \<and> snd (read_until_id_observed (\<lambda>_. None) (SLine 3 (Some (Transport ''cancel'')) [] (SEof 4)) 1 10) = []"
  using read_until_id_sound [where parse = "\<lambda>_. None" and s = "SLine 3 (Some (Transport ''cancel'')) [] (SEof 4)" and want = 1 and timeout = 10]
  by (simp add: read_until_id_def read_until_id_observed_def trim_eol_def)

end
