(* ===== verification/Client.thy ===== *)
theory Client
  imports Effect Sse
begin

text \<open>
  \<^verbatim>\<open>client.rs\<close>: JSON-RPC over MCP Streamable HTTP. The session object, one HTTP exchange, the
  handshake, requests with their single re-initialize, and the cursor-following list helper.

  The outside is the parameter \<open>env\<close>: what the server answers (\<open>answer\<close>, by the number of the
  exchange, everything sent before and the request), when an interrupt is pending (\<open>interrupt\<close>),
  and serde's encoder and parser. The record \<open>world\<close> keeps the log of what went over the wire and
  the clock; later components extend it with the rest of the backend's state.
\<close>

section \<open>The wire\<close>

record http_request =
  rq_url :: string
  rq_headers :: "(string \<times> string) list"

text \<open>
  A response as \<^verbatim>\<open>ureq\<close> hands it out: the status, the case-insensitive header lookup, and its body
  as the two readers see it, complete bytes (or the kind of the read failure) or an event stream.
\<close>

record http_response =
  rs_status :: nat
  rs_header :: "string \<Rightarrow> string option"
  rs_body :: "string + string"
  rs_stream :: sse_stream

text \<open>The outcomes of \<^verbatim>\<open>send_bytes\<close>: a response, an error status, or a transport error of some kind.\<close>

datatype http_reply =
    H_Response http_response
  | H_Status nat
  | H_Transport string

record env =
  answer :: "nat \<Rightarrow> (http_request \<times> json) list \<Rightarrow> http_request \<times> json \<Rightarrow> nat \<times> http_reply"
  interrupt :: "nat \<Rightarrow> mcp_error option"
  encode_error :: "json \<Rightarrow> string option"
  from_json_str :: "string \<Rightarrow> json option"

record world =
  sent :: "(http_request \<times> json) list"
  clock :: nat
  tick :: nat

section \<open>Sessions\<close>

definition CLIENT_PROTOCOL_VERSION :: string where "CLIENT_PROTOCOL_VERSION = ''2025-11-25''"
definition CLIENT_NAME :: string where "CLIENT_NAME = ''pg_mcp''"
definition CLIENT_VERSION :: string where "CLIENT_VERSION = ''0.3.0''"
definition MAX_JSON_BODY :: nat where "MAX_JSON_BODY = 64 * 1024 * 1024"
definition MAX_LIST_PAGES :: nat where "MAX_LIST_PAGES = 1000"

lemmas client_consts = CLIENT_PROTOCOL_VERSION_def CLIENT_NAME_def CLIENT_VERSION_def

datatype bearer = Bearer string

fun bearer_header :: "bearer \<Rightarrow> string" where
  "bearer_header (Bearer token) = ''Bearer '' @ token"

fun bearer_debug :: "bearer \<Rightarrow> string" where
  "bearer_debug (Bearer token) = ''Bearer(<redacted>)''"

text \<open>
  The session object. Its notification flags are the field \<open>tools_list_changed\<close>; the connection
  pool carries no protocol state and is left out. The request counter is an \<^verbatim>\<open>i64\<close>, the handshake
  counter a \<^verbatim>\<open>u32\<close>; both wrap.
\<close>

record mcp_session =
  ms_url :: string
  session_id :: "string option"
  protocol_version :: string
  server_info :: json
  capabilities :: json
  next_id :: int
  initialized_at :: nat
  initialize_count :: nat
  tools_list_changed :: bool

definition wrap_i64 :: "int \<Rightarrow> int" where
  "wrap_i64 i = (i + 2 ^ 63) mod 2 ^ 64 - 2 ^ 63"

definition observe :: "json \<Rightarrow> mcp_session \<Rightarrow> mcp_session" where
  "observe frame s =
     (if get_str ''method'' frame = Some ''notifications/tools/list_changed''
      then s\<lparr>tools_list_changed := True\<rparr> else s)"

definition take_tools_list_changed :: "mcp_session \<Rightarrow> bool \<times> mcp_session" where
  "take_tools_list_changed s = (tools_list_changed s, s\<lparr>tools_list_changed := False\<rparr>)"

text \<open>
  The transport. \<open>tr_notifications\<close> tells whether the session's flags are attached; the interrupt
  source is \<open>interrupt\<close> of the environment.
\<close>

record transport =
  tr_timeout :: nat
  tr_bearer :: "bearer option"
  tr_notifications :: bool

datatype wire =
    W_Json json "string option"
  | W_Sse sse_stream
  | W_Accepted
  | W_SessionGone
  | W_Failed mcp_error

section \<open>Envelopes\<close>

definition rpc_error :: "json \<Rightarrow> (int \<times> string) option" where
  "rpc_error v =
     (case jget ''error'' v of
        None \<Rightarrow> None
      | Some err \<Rightarrow> Some (unwrap_or (get_i64 ''code'' err) 0,
                        unwrap_or (get_str ''message'' err) ''MCP server returned an error''))"

definition finish :: "json \<Rightarrow> int \<Rightarrow> json mcp_result" where
  "finish v rid =
     (case rpc_error v of
        Some (code, msg) \<Rightarrow> Inl (from_rpc code msg)
      | None \<Rightarrow>
          (case jget ''result'' v of
             Some result \<Rightarrow> Inr result
           | None \<Rightarrow> Inl (Transport (''MCP response for request '' @ show_int rid
                        @ '' carried neither result nor error''))))"

definition text_content :: "json \<Rightarrow> string option" where
  "text_content result =
     (case get_array ''content'' result of
        None \<Rightarrow> None
      | Some items \<Rightarrow>
          (let parts = List.map_filter (\<lambda>item.
               if get_str ''type'' item = Some ''text'' then get_str ''text'' item else None) items
           in if parts = [] then None else Some (concat parts)))"

definition is_error_result :: "json \<Rightarrow> bool" where
  "is_error_result result = unwrap_or (get_bool ''isError'' result) False"

section \<open>One exchange\<close>

definition classify_status :: "nat \<Rightarrow> wire" where
  "classify_status status =
     (if status = 404 then W_SessionGone else W_Failed (from_http_status status))"

definition read_body :: "env \<Rightarrow> string + string \<Rightarrow> string option \<Rightarrow> wire" where
  "read_body env body sid =
     (case (case body of
              Inl kind \<Rightarrow> Inl kind
            | Inr bytes \<Rightarrow> (let text = take MAX_JSON_BODY bytes
                            in if utf8_valid text then Inr text else Inl ''InvalidData'')) of
        Inl kind \<Rightarrow> W_Failed (Transport (''could not read the MCP response body: '' @ kind))
      | Inr text \<Rightarrow>
          (case from_json_str env text of
             Some v \<Rightarrow> W_Json v sid
           | None \<Rightarrow> W_Failed (Transport ''MCP server returned a malformed JSON body'')))"

definition classify_response :: "env \<Rightarrow> http_response \<Rightarrow> wire" where
  "classify_response env r =
     (if rs_status r = 202 then W_Accepted
      else
        (let sid = rs_header r ''mcp-session-id'';
             content_type = to_ascii_lowercase (unwrap_or (rs_header r ''content-type'') [])
         in if str_contains ''text/event-stream'' content_type then W_Sse (rs_stream r)
            else read_body env (rs_body r) sid))"

definition dispatch :: "env \<Rightarrow> http_request \<Rightarrow> json \<Rightarrow> 'z world_scheme \<Rightarrow> wire \<times> 'z world_scheme" where
  "dispatch env request body w =
     (let w1 = w\<lparr>tick := tick w + 1\<rparr>
      in case interrupt env (tick w) of
           Some e \<Rightarrow> (W_Failed e, w1)
         | None \<Rightarrow>
             (case encode_error env body of
                Some e \<Rightarrow> (W_Failed (InvalidParams (''could not encode request: '' @ e)), w1)
              | None \<Rightarrow>
                  (let (delay, reply) = answer env (tick w) (sent w) (request, body);
                       w2 = w1\<lparr>sent := sent w @ [(request, body)], clock := clock w + delay\<rparr>
                   in (case reply of
                         H_Response r \<Rightarrow> classify_response env r
                       | H_Status status \<Rightarrow> classify_status status
                       | H_Transport kind \<Rightarrow>
                           W_Failed (Transport (''could not reach the MCP server: '' @ kind)), w2))))"

definition build :: "mcp_session \<Rightarrow> transport \<Rightarrow> string option \<Rightarrow> bool \<Rightarrow> http_request" where
  "build s tr sid send_protocol_version =
     \<lparr>rq_url = ms_url s,
      rq_headers =
        [(''content-type'', ''application/json''),
         (''accept'', ''application/json, text/event-stream''),
         (''user-agent'', CLIENT_NAME @ ''/'' @ CLIENT_VERSION)]
        @ (if send_protocol_version then [(''mcp-protocol-version'', protocol_version s)] else [])
        @ (case sid of Some i \<Rightarrow> [(''mcp-session-id'', i)] | None \<Rightarrow> [])
        @ (case tr_bearer tr of Some b \<Rightarrow> [(''authorization'', bearer_header b)] | None \<Rightarrow> [])\<rparr>"

definition read_stream ::
  "env \<Rightarrow> transport \<Rightarrow> sse_stream \<Rightarrow> int \<Rightarrow> mcp_session \<Rightarrow> json mcp_result \<times> mcp_session"
where
  "read_stream env tr reader want_id s =
     (case read_until_id_observed (from_json_str env) reader want_id (tr_timeout tr) of
        (r, frames) \<Rightarrow> (r, if tr_notifications tr then fold observe frames s else s))"

type_synonym 'z client_state = "mcp_session \<times> 'z world_scheme"

definition take_id :: "('z client_state, int) eff" where
  "take_id = (\<lambda>(s, w). (Inr (next_id s), (s\<lparr>next_id := wrap_i64 (next_id s + 1)\<rparr>, w)))"

definition notify :: "env \<Rightarrow> transport \<Rightarrow> json \<Rightarrow> ('z client_state, unit) eff" where
  "notify env tr body = (\<lambda>(s, w).
     let (wire, w') = dispatch env (build s tr (session_id s) True) body w
     in (case wire of
           W_Accepted \<Rightarrow> Inr ()
         | W_Json _ _ \<Rightarrow> Inr ()
         | W_SessionGone \<Rightarrow> Inr ()
         | W_Sse _ \<Rightarrow> Inr ()
         | W_Failed e \<Rightarrow> Inl e, (s, w')))"

text \<open>\<open>None\<close> means the session is gone and the caller may re-initialize once.\<close>

definition exchange_checked ::
  "env \<Rightarrow> transport \<Rightarrow> json \<Rightarrow> int \<Rightarrow> ('z client_state, (json \<times> string option) option) eff"
where
  "exchange_checked env tr body rid = (\<lambda>(s, w).
     let (wire, w') = dispatch env (build s tr (session_id s) True) body w
     in case wire of
          W_Json v sid \<Rightarrow>
            (case finish v rid of
               Inr result \<Rightarrow> (Inr (Some (result, sid)), (s, w'))
             | Inl e \<Rightarrow> if is_expired_session (message e) then (Inr None, (s, w')) else (Inl e, (s, w')))
        | W_Sse reader \<Rightarrow>
            (case read_stream env tr reader rid s of
               (r, s') \<Rightarrow> (rbind r (\<lambda>v. rmap (\<lambda>result. Some (result, None)) (finish v rid)), (s', w')))
        | W_Accepted \<Rightarrow> (Inl (Transport ''MCP server accepted the request without answering it''), (s, w'))
        | W_SessionGone \<Rightarrow> (Inr None, (s, w'))
        | W_Failed e \<Rightarrow> (Inl e, (s, w')))"

definition exchange ::
  "env \<Rightarrow> transport \<Rightarrow> json \<Rightarrow> int \<Rightarrow> string option \<Rightarrow> bool \<Rightarrow> ('z client_state, json \<times> string option) eff"
where
  "exchange env tr body rid sid send_protocol_version = (\<lambda>(s, w).
     let (wire, w') = dispatch env (build s tr sid send_protocol_version) body w
     in case wire of
          W_Json v sid' \<Rightarrow> (rmap (\<lambda>result. (result, sid')) (finish v rid), (s, w'))
        | W_Sse reader \<Rightarrow>
            (case read_stream env tr reader rid s of
               (r, s') \<Rightarrow> (rbind r (\<lambda>v. rmap (\<lambda>result. (result, None)) (finish v rid)), (s', w')))
        | W_Accepted \<Rightarrow> (Inl (Transport ''MCP server did not answer initialize''), (s, w'))
        | W_SessionGone \<Rightarrow>
            (Inl (Transport ''MCP server rejected the initialize request as an unknown session''), (s, w'))
        | W_Failed e \<Rightarrow> (Inl e, (s, w')))"

section \<open>Handshake and requests\<close>

definition initialize_params :: json where
  "initialize_params =
     JObj [(''protocolVersion'', JStr CLIENT_PROTOCOL_VERSION),
           (''capabilities'', JObj []),
           (''clientInfo'', JObj [(''name'', JStr CLIENT_NAME), (''version'', JStr CLIENT_VERSION)])]"

definition rpc_request :: "int \<Rightarrow> string \<Rightarrow> json \<Rightarrow> json" where
  "rpc_request rid mthd params =
     JObj [(''jsonrpc'', JStr ''2.0''), (''id'', JNum (number_of_int rid)),
           (''method'', JStr mthd), (''params'', params)]"

definition initialized_note :: json where
  "initialized_note = JObj [(''jsonrpc'', JStr ''2.0''), (''method'', JStr ''notifications/initialized'')]"

text \<open>What \<^verbatim>\<open>initialize\<close> stores on the session once the server has answered.\<close>

definition negotiated :: "json \<Rightarrow> string option \<Rightarrow> nat \<Rightarrow> mcp_session \<Rightarrow> mcp_session" where
  "negotiated result sid now s = s\<lparr>
     session_id := sid,
     protocol_version := unwrap_or (get_str ''protocolVersion'' result) CLIENT_PROTOCOL_VERSION,
     server_info := unwrap_or (jget ''serverInfo'' result) JNull,
     capabilities := unwrap_or (jget ''capabilities'' result) JNull,
     initialized_at := now,
     initialize_count := (initialize_count s + 1) mod 2 ^ 32\<rparr>"

definition initialize_session :: "env \<Rightarrow> transport \<Rightarrow> ('z client_state, unit) eff" where
  "initialize_session env tr =
     ebind take_id (\<lambda>rid.
     ebind (exchange env tr (rpc_request rid ''initialize'' initialize_params) rid None False) (\<lambda>(result, sid).
     ebind (\<lambda>(s, w). (Inr (), (negotiated result sid (clock w) s, w))) (\<lambda>_.
     notify env tr initialized_note)))"

text \<open>\<^verbatim>\<open>McpSession::open\<close>: a new session object, initialized.\<close>

definition fresh_session :: "string \<Rightarrow> nat \<Rightarrow> mcp_session" where
  "fresh_session url now =
     \<lparr>ms_url = url, session_id = None, protocol_version = CLIENT_PROTOCOL_VERSION, server_info = JNull,
      capabilities = JNull, next_id = 1, initialized_at = now, initialize_count = 0,
      tools_list_changed = False\<rparr>"

definition open_session :: "env \<Rightarrow> string \<Rightarrow> transport \<Rightarrow> ('z world_scheme, mcp_session) eff" where
  "open_session env url tr w =
     (case initialize_session env tr (fresh_session url (clock w), w) of
        (r, (s, w')) \<Rightarrow> (rmap (\<lambda>_. s) r, w'))"

definition try_request :: "env \<Rightarrow> transport \<Rightarrow> string \<Rightarrow> json \<Rightarrow> ('z client_state, json option) eff" where
  "try_request env tr mthd params =
     ebind take_id (\<lambda>rid.
     ebind (exchange_checked env tr (rpc_request rid mthd params) rid) (\<lambda>r.
     eret (map_option fst r)))"

definition session_request :: "env \<Rightarrow> transport \<Rightarrow> string \<Rightarrow> json \<Rightarrow> ('z client_state, json) eff" where
  "session_request env tr mthd params =
     ebind (try_request env tr mthd params) (\<lambda>first.
       case first of
         Some v \<Rightarrow> eret v
       | None \<Rightarrow>
           ebind (\<lambda>(s, w). (Inr (), (s\<lparr>session_id := None\<rparr>, w))) (\<lambda>_.
           ebind (initialize_session env tr) (\<lambda>_.
           ebind (try_request env tr mthd params) (\<lambda>second.
             case second of
               Some v \<Rightarrow> eret v
             | None \<Rightarrow> elift (Inl (Transport
                 ''MCP session was rejected twice; giving up after one re-initialize''))))))"

section \<open>Lists\<close>

definition page_items :: "json \<Rightarrow> string \<Rightarrow> json list \<times> string option" where
  "page_items result array_key = (unwrap_or (get_array array_key result) [], get_str ''nextCursor'' result)"

text \<open>The parameters of the next page: an object gets its \<^verbatim>\<open>cursor\<close> member set.\<close>

fun with_cursor :: "string \<Rightarrow> json \<Rightarrow> json" where
  "with_cursor c (JObj kvs) = JObj (obj_insert ''cursor'' (JStr c) kvs)"
| "with_cursor c v = v"

text \<open>
  The loop of \<^verbatim>\<open>list_all\<close>, over the request it repeats. It ends because every turn adds a cursor to
  \<open>followed\<close>, which is capped.
\<close>

function list_loop ::
  "(json \<Rightarrow> ('s, json) eff) \<Rightarrow> string \<Rightarrow> string \<Rightarrow> json \<Rightarrow> json list \<Rightarrow> string list \<Rightarrow> ('s, json list) eff"
where
  "list_loop req mthd array_key params items followed st =
     (if MAX_LIST_PAGES \<le> length followed then
        (Inl (Transport (''MCP list method \"'' @ mthd @ ''\" did not exhaust its cursor within ''
           @ show_nat MAX_LIST_PAGES @ '' pages'')), st)
      else case req params st of
        (Inl e, st') \<Rightarrow> (Inl e, st')
      | (Inr result, st') \<Rightarrow>
          (case page_items result array_key of
             (page, None) \<Rightarrow> (Inr (items @ page), st')
           | (page, Some cursor) \<Rightarrow>
               if cursor \<in> set followed then
                 (Inl (Transport (''MCP list method \"'' @ mthd @ ''\" repeated pagination cursor'')), st')
               else list_loop req mthd array_key (with_cursor cursor params) (items @ page)
                      (followed @ [cursor]) st'))"
  by pat_completeness auto
termination
  by (relation "measure (\<lambda>(_, _, _, _, _, followed, _). MAX_LIST_PAGES - length followed)") auto

declare list_loop.simps [simp del]

definition list_all_pages ::
  "env \<Rightarrow> transport \<Rightarrow> string \<Rightarrow> string \<Rightarrow> json \<Rightarrow> ('z client_state, json list) eff"
where
  "list_all_pages env tr mthd array_key params =
     list_loop (session_request env tr mthd) mthd array_key params [] []"

section \<open>What goes over the wire\<close>

text \<open>
  \<open>sends w new w'\<close>: between \<open>w\<close> and \<open>w'\<close> exactly the exchanges \<open>new\<close> took place, time did not run
  backwards, and nothing else of the state changed.
\<close>

definition sends :: "'z world_scheme \<Rightarrow> (http_request \<times> json) list \<Rightarrow> 'z world_scheme \<Rightarrow> bool" where
  "sends w new w' \<longleftrightarrow> sent w' = sent w @ new \<and> clock w \<le> clock w' \<and> tick w \<le> tick w' \<and> world.more w' = world.more w"

lemma sends_refl: "sends w [] w"
  by (simp add: sends_def)

lemma sends_trans: "sends w a w' \<Longrightarrow> sends w' b w'' \<Longrightarrow> sends w (a @ b) w''"
  by (simp add: sends_def)

lemma dispatch_sends:
  assumes "dispatch env rq body w = (wire, w')"
  shows "\<exists>new. sends w new w' \<and> prefix new [(rq, body)] \<and> (new = [] \<longrightarrow> (\<exists>e. wire = W_Failed e))"
proof (cases "interrupt env (tick w) = None \<and> encode_error env body = None")
  case True
  with assms have "sends w [(rq, body)] w'"
    by (auto simp: dispatch_def sends_def Let_def split: prod.splits)
  then show ?thesis by fastforce
next
  case False
  with assms have "sends w [] w'" "\<exists>e. wire = W_Failed e"
    by (auto simp: dispatch_def sends_def Let_def split: option.splits)
  then show ?thesis by fastforce
qed

text \<open>Observing frames can only set the flag.\<close>

definition flag_only :: "mcp_session \<Rightarrow> mcp_session \<Rightarrow> bool" where
  "flag_only s s' \<longleftrightarrow> (\<exists>b. s' = s\<lparr>tools_list_changed := b\<rparr>)"

lemma flag_only_refl: "flag_only s s"
  unfolding flag_only_def by (rule exI [of _ "tools_list_changed s"]) simp

lemma flag_only_observe: "flag_only s (fold observe frames s)"
proof (induction frames arbitrary: s)
  case Nil
  show ?case by (simp add: flag_only_refl)
next
  case (Cons f fs)
  from Cons.IH [of "observe f s"] show ?case
    by (auto simp: flag_only_def observe_def split: if_splits)
qed

lemma read_stream_flag: "read_stream env tr reader rid s = (r, s') \<Longrightarrow> flag_only s s'"
  by (auto simp: read_stream_def flag_only_refl flag_only_observe split: prod.splits)

lemma exchange_checked_sends:
  assumes "exchange_checked env tr body rid (s, w) = (r, (s', w'))"
  shows "flag_only s s' \<and> (\<exists>new. sends w new w' \<and> prefix new [(build s tr (session_id s) True, body)]
    \<and> (new = [] \<longrightarrow> (\<exists>e. r = Inl e)))"
proof -
  obtain wire w1 where d: "dispatch env (build s tr (session_id s) True) body w = (wire, w1)" by force
  have "w1 = w'" "flag_only s s'" "\<forall>e. wire = W_Failed e \<longrightarrow> r = Inl e"
    using assms by (auto simp: exchange_checked_def d flag_only_refl read_stream_flag
        split: wire.splits sum.splits if_splits prod.splits)
  with dispatch_sends [OF d] show ?thesis by blast
qed

lemma exchange_sends:
  assumes "exchange env tr body rid sid pv (s, w) = (r, (s', w'))"
  shows "flag_only s s' \<and> (\<exists>new. sends w new w' \<and> prefix new [(build s tr sid pv, body)]
    \<and> (new = [] \<longrightarrow> (\<exists>e. r = Inl e)))"
proof -
  obtain wire w1 where d: "dispatch env (build s tr sid pv) body w = (wire, w1)" by force
  have "w1 = w'" "flag_only s s'" "\<forall>e. wire = W_Failed e \<longrightarrow> r = Inl e"
    using assms by (auto simp: exchange_def d flag_only_refl read_stream_flag
        split: wire.splits sum.splits if_splits prod.splits)
  with dispatch_sends [OF d] show ?thesis by blast
qed

lemma notify_sends:
  assumes "notify env tr body (s, w) = (r, (s', w'))"
  shows "s' = s \<and> (\<exists>new. sends w new w' \<and> prefix new [(build s tr (session_id s) True, body)]
    \<and> (new = [] \<longrightarrow> (\<exists>e. r = Inl e)))"
proof -
  obtain wire w1 where d: "dispatch env (build s tr (session_id s) True) body w = (wire, w1)" by force
  have "w1 = w'" "s' = s" "\<forall>e. wire = W_Failed e \<longrightarrow> r = Inl e"
    using assms by (auto simp: notify_def d split: wire.splits)
  with dispatch_sends [OF d] show ?thesis by blast
qed

text \<open>The part of an exchange the protocol fixes: method, session, version, credential and target.\<close>

definition header_of :: "string \<Rightarrow> http_request \<times> json \<Rightarrow> string option" where
  "header_of name x = map_of (rq_headers (fst x)) name"

definition wire_shape ::
  "http_request \<times> json \<Rightarrow> string option \<times> string option \<times> string option \<times> string option \<times> string"
where
  "wire_shape x = (get_str ''method'' (snd x), header_of ''mcp-session-id'' x,
     header_of ''mcp-protocol-version'' x, header_of ''authorization'' x, rq_url (fst x))"

definition auth_header :: "transport \<Rightarrow> string option" where
  "auth_header tr = map_option bearer_header (tr_bearer tr)"

lemma wire_shape_build:
  "wire_shape (build s tr sid pv, body) =
     (get_str ''method'' body, sid, if pv then Some (protocol_version s) else None, auth_header tr, ms_url s)"
  by (auto simp: wire_shape_def header_of_def build_def auth_header_def split: option.splits)

lemma method_rpc_request [simp]: "get_str ''method'' (rpc_request rid mthd params) = Some mthd"
  by (simp add: rpc_request_def get_str_def)

lemma method_initialized_note [simp]: "get_str ''method'' initialized_note = Some ''notifications/initialized''"
  by (simp add: initialized_note_def get_str_def)

definition handshake_shape where
  "handshake_shape s' tr =
     [(Some ''initialize'', None, None, auth_header tr, ms_url s'),
      (Some ''notifications/initialized'', session_id s', Some (protocol_version s'), auth_header tr, ms_url s')]"

definition request_shape where
  "request_shape mthd s tr = (Some mthd, session_id s, Some (protocol_version s), auth_header tr, ms_url s)"

text \<open>The identity of a session, which only a handshake renews.\<close>

definition same_identity :: "mcp_session \<Rightarrow> mcp_session \<Rightarrow> bool" where
  "same_identity s s' \<longleftrightarrow> ms_url s' = ms_url s \<and> session_id s' = session_id s \<and> protocol_version s' = protocol_version s
     \<and> server_info s' = server_info s \<and> capabilities s' = capabilities s \<and> initialize_count s' = initialize_count s
     \<and> initialized_at s' = initialized_at s"

lemma try_request_sends:
  assumes "try_request env tr mthd params (s, w) = (r, (s', w'))"
  shows "same_identity s s' \<and> (\<exists>new. sends w new w' \<and> prefix (map wire_shape new) [request_shape mthd s tr]
    \<and> (new = [] \<longrightarrow> (\<exists>e. r = Inl e)))"
proof -
  let ?s = "s\<lparr>next_id := wrap_i64 (next_id s + 1)\<rparr>" and ?body = "rpc_request (next_id s) mthd params"
  obtain x where ex: "exchange_checked env tr ?body (next_id s) (?s, w) = (x, (s', w'))"
    and x: "\<forall>e. x = Inl e \<longrightarrow> r = Inl e"
    using assms by (auto simp: try_request_def take_id_def eff_simps split: sum.splits prod.splits)
  from exchange_checked_sends [OF ex] obtain new where new: "flag_only ?s s'" "sends w new w'"
    "prefix new [(build ?s tr (session_id ?s) True, ?body)]" "new = [] \<longrightarrow> (\<exists>e. x = Inl e)" by blast
  have "same_identity s s'" using new(1) by (auto simp: flag_only_def same_identity_def)
  moreover have "prefix (map wire_shape new) [request_shape mthd s tr]"
    using map_mono_prefix [OF new(3), of wire_shape] by (simp add: wire_shape_build request_shape_def)
  ultimately show ?thesis using new(2,4) x by blast
qed

lemma exchange_initialize_shape:
  assumes "exchange env tr (rpc_request rid ''initialize'' params) rid None False (s, w) = (r, (s', w'))"
  shows "flag_only s s' \<and> (\<exists>new. sends w new w'
    \<and> prefix (map wire_shape new) [(Some ''initialize'', None, None, auth_header tr, ms_url s)]
    \<and> (new = [] \<longrightarrow> (\<exists>e. r = Inl e)))"
proof -
  from exchange_sends [OF assms] obtain new where new: "flag_only s s'" "sends w new w'"
    "prefix new [(build s tr None False, rpc_request rid ''initialize'' params)]" "new = [] \<longrightarrow> (\<exists>e. r = Inl e)" by blast
  with map_mono_prefix [OF new(3), of wire_shape] show ?thesis by (auto simp: wire_shape_build)
qed

lemma initialize_session_sends:
  assumes "initialize_session env tr (s, w) = (r, (s', w'))"
  shows "ms_url s' = ms_url s \<and> initialize_count s' \<in> {initialize_count s, (initialize_count s + 1) mod 2 ^ 32}
    \<and> (\<exists>new. sends w new w' \<and> prefix (map wire_shape new) (handshake_shape s' tr)
        \<and> (r = Inr () \<longrightarrow> length new = 2 \<and> initialize_count s' = (initialize_count s + 1) mod 2 ^ 32))"
proof -
  let ?s = "s\<lparr>next_id := wrap_i64 (next_id s + 1)\<rparr>"
  obtain x s1 w1 where ex: "exchange env tr (rpc_request (next_id s) ''initialize'' initialize_params) (next_id s) None False (?s, w) = (x, (s1, w1))"
    by (metis prod_cases3)
  from exchange_initialize_shape [OF ex] obtain new where new: "flag_only ?s s1" "sends w new w1"
    "prefix (map wire_shape new) [(Some ''initialize'', None, None, auth_header tr, ms_url ?s)]" "new = [] \<longrightarrow> (\<exists>e. x = Inl e)" by blast
  show ?thesis
  proof (cases x)
    case (Inl e)
    with assms ex have "s' = s1" "w' = w1" "r = Inl e" by (auto simp: initialize_session_def take_id_def eff_simps)
    with new show ?thesis by (fastforce simp: flag_only_def handshake_shape_def intro: prefix_order.trans)
  next
    case (Inr y)
    obtain result sid where y: "y = (result, sid)" by force
    let ?n = "negotiated result sid (clock w1) s1"
    have n: "notify env tr initialized_note (?n, w1) = (r, (s', w'))"
      using assms ex Inr y by (auto simp: initialize_session_def take_id_def eff_simps)
    from notify_sends [OF n] obtain nt where nt: "s' = ?n" "sends w1 nt w'"
      "prefix nt [(build ?n tr (session_id ?n) True, initialized_note)]" "nt = [] \<longrightarrow> (\<exists>e. r = Inl e)" by blast
    have shape: "map wire_shape new = [(Some ''initialize'', None, None, auth_header tr, ms_url s')]"
      using new Inr nt(1) by (cases new) (auto simp: flag_only_def negotiated_def)
    have "prefix (map wire_shape nt) [(Some ''notifications/initialized'', session_id s', Some (protocol_version s'), auth_header tr, ms_url s')]"
      using map_mono_prefix [OF nt(3), of wire_shape] nt(1) by (simp add: wire_shape_build)
    with shape have "prefix (map wire_shape (new @ nt)) (handshake_shape s' tr)"
      by (simp add: handshake_shape_def)
    moreover have "length (new @ nt) = 2" if "r = Inr ()"
      using that nt(3,4) arg_cong [OF shape, of length] by (cases nt) auto
    moreover have "ms_url s' = ms_url s" "initialize_count s' = (initialize_count s + 1) mod 2 ^ 32"
      using nt(1) new(1) by (auto simp: negotiated_def flag_only_def)
    ultimately show ?thesis using sends_trans [OF new(2) nt(2)] by blast
  qed
qed

lemma prefix_full: "prefix xs ys \<Longrightarrow> length xs = length ys \<Longrightarrow> xs = ys"
  by (auto simp: prefix_def)

lemma session_request_cases:
  assumes "session_request env tr mthd params (s, w) = (r, (s', w'))"
  obtains (plain) x where "try_request env tr mthd params (s, w) = (x, (s', w'))" "\<forall>e. x = Inl e \<longrightarrow> r = Inl e" "x \<noteq> Inr None"
  | (lost) s1 w1 e where "try_request env tr mthd params (s, w) = (Inr None, (s1, w1))"
      "initialize_session env tr (s1\<lparr>session_id := None\<rparr>, w1) = (Inl e, (s', w'))" "r = Inl e"
  | (again) s1 w1 s2 w2 x where "try_request env tr mthd params (s, w) = (Inr None, (s1, w1))"
      "initialize_session env tr (s1\<lparr>session_id := None\<rparr>, w1) = (Inr (), (s2, w2))"
      "try_request env tr mthd params (s2, w2) = (x, (s', w'))"
proof -
  obtain x s1 w1 where x: "try_request env tr mthd params (s, w) = (x, (s1, w1))" by (metis prod_cases3)
  show thesis
  proof (cases "x = Inr None")
    case False
    with assms x have "s1 = s'" "w1 = w'" "\<forall>e. x = Inl e \<longrightarrow> r = Inl e"
      by (auto simp: session_request_def eff_simps split: sum.splits option.splits)
    with False x plain show thesis by blast
  next
    case True
    obtain y s2 w2 where y: "initialize_session env tr (s1\<lparr>session_id := None\<rparr>, w1) = (y, (s2, w2))" by (metis prod_cases3)
    show thesis
    proof (cases y)
      case (Inl e)
      with assms x y True have "s2 = s'" "w2 = w'" "r = Inl e" by (auto simp: session_request_def eff_simps)
      with x y Inl True lost show thesis by blast
    next
      case (Inr u)
      obtain z s3 w3 where z: "try_request env tr mthd params (s2, w2) = (z, (s3, w3))" by (metis prod_cases3)
      with assms x y True Inr have "s3 = s'" "w3 = w'"
        by (auto simp: session_request_def eff_simps split: sum.splits option.splits)
      with x y z Inr True again show thesis by simp
    qed
  qed
qed

lemma session_request_sends:
  assumes "session_request env tr mthd params (s, w) = (r, (s', w'))"
  shows "\<exists>new. sends w new w' \<and> ms_url s' = ms_url s
    \<and> prefix (map wire_shape new) (request_shape mthd s tr # handshake_shape s' tr @ [request_shape mthd s' tr])
    \<and> initialize_count s' \<in> {initialize_count s, (initialize_count s + 1) mod 2 ^ 32}
    \<and> (length new \<le> 1 \<and> r = Inr v \<longrightarrow> same_identity s s')"
using assms
proof (cases rule: session_request_cases)
  case (plain x)
  from try_request_sends [OF plain(1)] obtain new where new: "same_identity s s'" "sends w new w'"
    "prefix (map wire_shape new) [request_shape mthd s tr]" by blast
  then have "prefix (map wire_shape new) ([request_shape mthd s tr] @ handshake_shape s' tr @ [request_shape mthd s' tr])"
    by (rule_tac prefix_prefix)
  with new show ?thesis by (auto simp: same_identity_def)
next
  case (lost s1 w1 e)
  from try_request_sends [OF lost(1)] obtain a where a: "same_identity s s1" "sends w a w1"
    "prefix (map wire_shape a) [request_shape mthd s tr]" "a \<noteq> []" by auto
  from initialize_session_sends [OF lost(2)] obtain b where b: "sends w1 b w'"
    "prefix (map wire_shape b) (handshake_shape s' tr)" "ms_url s' = ms_url s1"
    "initialize_count s' \<in> {initialize_count s1, (initialize_count s1 + 1) mod 2 ^ 32}" by auto
  have "map wire_shape a = [request_shape mthd s tr]" using a by (cases a) auto
  then have "prefix (map wire_shape (a @ b)) (request_shape mthd s tr # handshake_shape s' tr @ [request_shape mthd s' tr])"
    using b(2) by (simp add: prefix_prefix)
  with a b lost(3) sends_trans [OF a(2) b(1)] show ?thesis by (intro exI [of _ "a @ b"]) (auto simp: same_identity_def)
next
  case (again s1 w1 s2 w2 x)
  from try_request_sends [OF again(1)] obtain a where a: "same_identity s s1" "sends w a w1"
    "prefix (map wire_shape a) [request_shape mthd s tr]" "a \<noteq> []" by auto
  from initialize_session_sends [OF again(2)] obtain b where b: "sends w1 b w2"
    "prefix (map wire_shape b) (handshake_shape s2 tr)" "ms_url s2 = ms_url s1" "length b = 2"
    "initialize_count s2 = (initialize_count s1 + 1) mod 2 ^ 32" by auto
  from try_request_sends [OF again(3)] obtain c where c: "same_identity s2 s'" "sends w2 c w'"
    "prefix (map wire_shape c) [request_shape mthd s2 tr]" by blast
  have "map wire_shape a = [request_shape mthd s tr]" using a by (cases a) auto
  moreover have "map wire_shape b = handshake_shape s2 tr"
    using b(4) by (intro prefix_full [OF b(2)]) (simp add: handshake_shape_def)
  moreover have "handshake_shape s2 tr = handshake_shape s' tr" "request_shape mthd s2 tr = request_shape mthd s' tr"
    using c(1) by (simp_all add: same_identity_def handshake_shape_def request_shape_def)
  ultimately have "prefix (map wire_shape (a @ b @ c)) (request_shape mthd s tr # handshake_shape s' tr @ [request_shape mthd s' tr])"
    using c(3) by (cases c) auto
  with a b c sends_trans [OF a(2) sends_trans [OF b(1) c(2)]] show ?thesis
    by (intro exI [of _ "a @ b @ c"]) (auto simp: same_identity_def)
qed

text \<open>C23. A request over a cached session follows the recovery protocol, whatever the server does. What goes
  over the wire is a prefix of four exchanges with fixed headers: the request under the session's id
  and negotiated version; only after the server disowned the session, one \<^verbatim>\<open>initialize\<close> carrying
  neither, one \<^verbatim>\<open>notifications/initialized\<close>, and the request once more under the new id and version.
  Every exchange goes to the session's URL and carries the role's credential, and a success
  without a handshake leaves the session's identity untouched.\<close>

theorem request_wire:
  "case session_request env tr mthd params (s, w) of (r, (s', w')) \<Rightarrow>
     \<exists>new. sends w new w' \<and> ms_url s' = ms_url s
       \<and> prefix (map wire_shape new) (request_shape mthd s tr # handshake_shape s' tr @ [request_shape mthd s' tr])
       \<and> initialize_count s' \<in> {initialize_count s, (initialize_count s + 1) mod 2 ^ 32}
       \<and> (length new \<le> 1 \<and> r = Inr v \<longrightarrow> same_identity s s')"
proof -
  obtain r s' w' where req: "session_request env tr mthd params (s, w) = (r, (s', w'))" by (metis prod_cases3)
  from session_request_sends [OF req, of v] req show ?thesis by simp
qed

text \<open>A server that has forgotten the session, and accepts a new one.\<close>

definition forgetful_server :: env where
  "forgetful_server = \<lparr>
     answer = (\<lambda>n log (rq, body).
       (5, if n = 0 then H_Status 404
           else H_Response \<lparr>rs_status = (if get_str ''method'' body = Some ''notifications/initialized'' then 202 else 200),
              rs_header = (\<lambda>k. if k = ''mcp-session-id'' then Some ''S2'' else None), rs_body = Inr ''R'', rs_stream = SEof 0\<rparr>)),
     interrupt = (\<lambda>_. None), encode_error = (\<lambda>_. None),
     from_json_str = (\<lambda>_. Some (JObj [(''result'', JBool True)]))\<rparr>"

definition quiet_world :: world where "quiet_world = \<lparr>sent = [], clock = 0, tick = 0\<rparr>"

definition bearer_transport :: transport where
  "bearer_transport = \<lparr>tr_timeout = 1000, tr_bearer = Some (Bearer ''k''), tr_notifications = True\<rparr>"

definition old_session :: mcp_session where
  "old_session = (fresh_session ''https://h/mcp'' 0)\<lparr>session_id := Some ''S1'', initialize_count := 1\<rparr>"

lemmas client_defs = session_request_def try_request_def initialize_session_def take_id_def exchange_def
  exchange_checked_def notify_def dispatch_def classify_status_def classify_response_def read_body_def finish_def
  rpc_error_def MAX_JSON_BODY_def to_ascii_lowercase_def byte_def eff_simps

theorem request_wire_witness:
  "\<exists>s' w'. session_request forgetful_server bearer_transport ''ping'' (JObj []) (old_session, quiet_world) = (Inr (JBool True), (s', w'))
     \<and> session_id s' = Some ''S2'' \<and> initialize_count s' = 2
     \<and> map wire_shape (sent w') =
         [(Some ''ping'', Some ''S1'', Some ''2025-11-25'', Some ''Bearer k'', ''https://h/mcp''),
          (Some ''initialize'', None, None, Some ''Bearer k'', ''https://h/mcp''),
          (Some ''notifications/initialized'', Some ''S2'', Some ''2025-11-25'', Some ''Bearer k'', ''https://h/mcp''),
          (Some ''ping'', Some ''S2'', Some ''2025-11-25'', Some ''Bearer k'', ''https://h/mcp'')]"
proof -
  obtain s' w' where run: "session_request forgetful_server bearer_transport ''ping'' (JObj []) (old_session, quiet_world) = (Inr (JBool True), (s', w'))"
    "session_id s' = Some ''S2''" "initialize_count s' = 2" "protocol_version s' = ''2025-11-25''" "length (sent w') = 4"
    by (simp add: client_defs forgetful_server_def quiet_world_def old_session_def fresh_session_def negotiated_def
        rpc_request_def initialized_note_def get_defs client_consts)
  from request_wire [where env = forgetful_server and tr = bearer_transport and mthd = "''ping''" and params = "JObj []"
      and s = old_session and w = quiet_world and v = "JBool True"]
  obtain new where "sends quiet_world new w'" "ms_url s' = ms_url old_session"
    "prefix (map wire_shape new) (request_shape ''ping'' old_session bearer_transport # handshake_shape s' bearer_transport
       @ [request_shape ''ping'' s' bearer_transport])" unfolding run(1) by auto
  moreover from this(1) have "sent w' = new" by (simp add: sends_def quiet_world_def)
  ultimately have "map wire_shape (sent w') = request_shape ''ping'' old_session bearer_transport # handshake_shape s' bearer_transport
       @ [request_shape ''ping'' s' bearer_transport]"
    using run(5) by (intro prefix_full) (simp_all add: handshake_shape_def)
  with run \<open>ms_url s' = ms_url old_session\<close> show ?thesis
    by (auto simp: request_shape_def handshake_shape_def auth_header_def bearer_transport_def old_session_def
        fresh_session_def client_consts)
qed

section \<open>Following the cursor\<close>

text \<open>
  The reference for \<^verbatim>\<open>list_all\<close>: \<open>results\<close> are successive answers, each asked for with the cursor its
  predecessor named, the last naming none.
\<close>

fun pages :: "(json \<Rightarrow> ('s, json) eff) \<Rightarrow> string \<Rightarrow> json \<Rightarrow> 's \<Rightarrow> json list \<Rightarrow> 's \<Rightarrow> bool" where
  "pages req array_key params st [] st' = False"
| "pages req array_key params st (r # rs) st' =
     (\<exists>st1. req params st = (Inr r, st1)
        \<and> (case get_str ''nextCursor'' r of
             None \<Rightarrow> rs = [] \<and> st' = st1
           | Some c \<Rightarrow> pages req array_key (with_cursor c params) st1 rs st'))"

definition cursors :: "json list \<Rightarrow> string list" where
  "cursors results = List.map_filter (get_str ''nextCursor'') results"

definition all_items :: "string \<Rightarrow> json list \<Rightarrow> json list" where
  "all_items array_key results = concat (map (\<lambda>r. unwrap_or (get_array array_key r) []) results)"

lemma cursors_Cons: "cursors (r # rs) = (case get_str ''nextCursor'' r of None \<Rightarrow> cursors rs | Some c \<Rightarrow> c # cursors rs)"
  by (simp add: cursors_def List.map_filter_def split: option.splits)

definition listed ::
  "(json \<Rightarrow> ('s, json) eff) \<Rightarrow> string \<Rightarrow> json \<Rightarrow> json list \<Rightarrow> string list \<Rightarrow> 's \<Rightarrow> json list \<Rightarrow> 's \<Rightarrow> json list \<Rightarrow> bool"
where
  "listed req array_key params items followed st out st' results \<longleftrightarrow>
     pages req array_key params st results st' \<and> out = items @ all_items array_key results
     \<and> distinct (cursors results) \<and> set (cursors results) \<inter> set followed = {}
     \<and> length followed + length results \<le> MAX_LIST_PAGES"

lemma pages_last:
  "req params st = (Inr r, st1) \<Longrightarrow> get_str ''nextCursor'' r = None
   \<Longrightarrow> pages req array_key params st results st' \<longleftrightarrow> results = [r] \<and> st' = st1"
  by (cases results) auto

lemma pages_more:
  "req params st = (Inr r, st1) \<Longrightarrow> get_str ''nextCursor'' r = Some c
   \<Longrightarrow> pages req array_key params st results st' \<longleftrightarrow>
     (\<exists>rs. results = r # rs \<and> pages req array_key (with_cursor c params) st1 rs st')"
  by (cases results) auto

lemma listed_last:
  assumes "req params st = (Inr r, st1)" "get_str ''nextCursor'' r = None" "length followed < MAX_LIST_PAGES"
  shows "listed req array_key params items followed st out st' results \<longleftrightarrow>
    results = [r] \<and> st' = st1 \<and> out = items @ unwrap_or (get_array array_key r) []"
  unfolding listed_def pages_last [where req = req and params = params and st = st, OF assms(1,2)]
  using assms(2,3) by (auto simp: all_items_def cursors_def List.map_filter_def)

lemma listed_more:
  assumes "req params st = (Inr r, st1)" "get_str ''nextCursor'' r = Some c"
  shows "listed req array_key params items followed st out st' results \<longleftrightarrow>
    (c \<notin> set followed \<and> (\<exists>rs. results = r # rs
       \<and> listed req array_key (with_cursor c params) (items @ unwrap_or (get_array array_key r) [])
           (followed @ [c]) st1 out st' rs))"
  unfolding listed_def pages_more [where req = req and params = params and st = st, OF assms]
  by (auto simp: all_items_def cursors_Cons assms(2))

lemma listed_stuck:
  "MAX_LIST_PAGES \<le> length followed \<or> req params st = (Inl e, st1)
   \<Longrightarrow> \<not> listed req array_key params items followed st out st' results"
  by (cases results) (auto simp: listed_def)

lemma list_loop_exact:
  "list_loop req mthd array_key params items followed st = (Inr out, st') \<longleftrightarrow>
     (\<exists>results. listed req array_key params items followed st out st' results)"
proof (induction req mthd array_key params items followed st rule: list_loop.induct)
  case (1 req mthd array_key params items followed st)
  obtain x st1 where x: "req params st = (x, st1)" by force
  show ?case
  proof (cases "MAX_LIST_PAGES \<le> length followed \<or> (\<exists>e. x = Inl e)")
    case True
    then have "\<nexists>results. listed req array_key params items followed st out st' results"
      using x listed_stuck by metis
    moreover have "\<exists>e. fst (list_loop req mthd array_key params items followed st) = Inl e"
      using True x by (subst list_loop.simps) auto
    ultimately show ?thesis by auto
  next
    case False
    then obtain r where r: "req params st = (Inr r, st1)" and go: "\<not> MAX_LIST_PAGES \<le> length followed"
      using x by (cases x) auto
    let ?page = "unwrap_or (get_array array_key r) []"
    show ?thesis
    proof (cases "get_str ''nextCursor'' r")
      case None
      then have "list_loop req mthd array_key params items followed st = (Inr (items @ ?page), st1)"
        using go r by (subst list_loop.simps) (simp add: page_items_def)
      with go show ?thesis by (auto simp: listed_last [where req = req and params = params and st = st, OF r None])
    next
      case (Some c)
      have pg: "page_items r array_key = (?page, Some c)" using Some by (simp add: page_items_def)
      have "list_loop req mthd array_key params items followed st =
          (if c \<in> set followed then (Inl (Transport (''MCP list method \"'' @ mthd @ ''\" repeated pagination cursor'')), st1)
           else list_loop req mthd array_key (with_cursor c params) (items @ ?page) (followed @ [c]) st1)"
        using go r by (subst list_loop.simps) (simp add: pg)
      moreover note 1 [OF go r [symmetric] refl pg [symmetric] refl]
      ultimately show ?thesis by (simp add: listed_more [where req = req and params = params and st = st, OF r Some])
    qed
  qed
qed

text \<open>C24. Listing is exact: \<^verbatim>\<open>list_all\<close> succeeds precisely when following the server's cursors from the given
  parameters comes to an end within 1000 pages without a cursor being named twice, and then it
  returns the items of all pages in order. In every other case it ends with an error: the loop is
  total.\<close>

theorem list_all_exact:
  "list_all_pages env tr mthd array_key params st = (Inr out, st') \<longleftrightarrow>
     (\<exists>results. pages (session_request env tr mthd) array_key params st results st'
        \<and> distinct (cursors results) \<and> length results \<le> 1000 \<and> out = all_items array_key results)"
  unfolding list_all_pages_def list_loop_exact by (auto simp: listed_def MAX_LIST_PAGES_def)

context evolution
begin

lemma evo_list_loop:
  assumes "\<And>p. evolves R (req p)"
  shows "evolves R (list_loop req mthd array_key p items followed)"
proof (rule evolvesI)
  fix st
  show "R st (snd (list_loop req mthd array_key p items followed st))"
    using assms
  proof (induction req mthd array_key p items followed st rule: list_loop.induct)
    case (1 req mthd array_key params items followed st)
    obtain x st1 where x: "req params st = (x, st1)" by force
    have st1: "R st st1" by (rule evolvesD [OF 1(2) x])
    have rec: "R st (snd (list_loop req mthd array_key (with_cursor c params) (items @ page) (followed @ [c]) st1))"
      if "\<not> MAX_LIST_PAGES \<le> length followed" "x = Inr r" "page_items r array_key = (page, Some c)" "c \<notin> set followed" for r page c
      by (rule evo_trans [OF st1 1(1)]) (use that x 1(2) in auto)
    show ?case
      by (subst list_loop.simps) (use x st1 rec evo_refl in \<open>auto split: sum.splits option.splits prod.splits\<close>)
  qed
qed

end

end
