(* ===== verification/Server_Options.thy ===== *)
theory Server_Options
  imports Mcp_Errors
begin

text \<open>
  \<^verbatim>\<open>options.rs\<close>: the foreign-server and user-mapping options. The URL parser (crate \<^verbatim>\<open>url\<close>) and name
  resolution are parameters: \<open>parse_u\<close> is \<^verbatim>\<open>Url::parse\<close>, \<open>resolve\<close> is \<^verbatim>\<open>to_socket_addrs\<close>, each
  \<open>None\<close> on failure.
\<close>

section \<open>Types\<close>

datatype ip = V4 nat nat nat nat | V6 nat

datatype host = Ipv4 nat nat nat nat | Ipv6 nat | Domain string

record url =
  u_scheme :: string
  u_host :: "host option"
  u_port_or_default :: "nat option"
  u_text :: string

datatype srv_mode = ModeAuto | ModeGeneric | ModeSql

datatype auth_mode = AuthBearer | AuthNone

record server_options =
  so_url :: string
  so_mode :: srv_mode
  timeout_ms :: nat
  auth :: auth_mode
  max_unqualified_reads :: int
  audit_table :: "string option"
  cache_ttl_ms :: nat

datatype credential = Token string | TokenSecret string string

definition DEFAULT_TIMEOUT_MS :: nat where "DEFAULT_TIMEOUT_MS = 15000"
definition MIN_TIMEOUT_MS :: nat where "MIN_TIMEOUT_MS = 1"
definition MAX_TIMEOUT_MS :: nat where "MAX_TIMEOUT_MS = 600000"
definition DEFAULT_CACHE_TTL_MS :: nat where "DEFAULT_CACHE_TTL_MS = 60000"

definition SERVER_OPTION_NAMES :: "string list" where
  "SERVER_OPTION_NAMES = [''url'', ''mode'', ''timeout_ms'', ''auth'', ''max_unqualified_reads'',
     ''audit_table'', ''cache_ttl_ms'']"

definition USER_MAPPING_OPTION_NAMES :: "string list" where
  "USER_MAPPING_OPTION_NAMES = [''token'', ''token_secret'']"

section \<open>Values\<close>

definition bad_server_option :: "string \<Rightarrow> string \<Rightarrow> mcp_error" where
  "bad_server_option key msg = InvalidOption (''invalid value for foreign server option \"'' @ key @ ''\": '' @ msg)"

definition mode_parse :: "string \<Rightarrow> srv_mode mcp_result" where
  "mode_parse raw =
     (if raw = ''auto'' then Inr ModeAuto
      else if raw = ''generic'' then Inr ModeGeneric
      else if raw = ''sql'' then Inr ModeSql
      else Inl (bad_server_option ''mode'' (''\"'' @ raw @ ''\" (expected auto, generic or sql)'')))"

definition auth_parse :: "string \<Rightarrow> auth_mode mcp_result" where
  "auth_parse raw =
     (if raw = ''bearer'' then Inr AuthBearer
      else if raw = ''none'' then Inr AuthNone
      else Inl (bad_server_option ''auth'' (''\"'' @ raw @ ''\" (expected bearer or none)'')))"

definition parse_timeout :: "string \<Rightarrow> nat mcp_result" where
  "parse_timeout raw =
     rbind (ok_or (parse_u64 (trim raw)) (bad_server_option ''timeout_ms'' (''\"'' @ raw @ ''\" is not an integer'')))
       (\<lambda>n. if MIN_TIMEOUT_MS \<le> n \<and> n \<le> MAX_TIMEOUT_MS then Inr n
            else Inl (bad_server_option ''timeout_ms'' (show_nat n @ '' is outside '' @ show_nat MIN_TIMEOUT_MS
                   @ ''..'' @ show_nat MAX_TIMEOUT_MS)))"

definition parse_non_negative :: "string \<Rightarrow> string \<Rightarrow> int mcp_result" where
  "parse_non_negative raw option_name =
     rbind (ok_or (parse_i64 (trim raw)) (bad_server_option option_name (''\"'' @ raw @ ''\" is not an integer'')))
       (\<lambda>n. if n < 0 then Inl (bad_server_option option_name ''must be >= 0'') else Inr n)"

definition parse_non_negative_u64 :: "string \<Rightarrow> string \<Rightarrow> nat mcp_result" where
  "parse_non_negative_u64 raw option_name =
     ok_or (parse_u64 (trim raw)) (bad_server_option option_name (''\"'' @ raw @ ''\" is not an integer''))"

definition is_plain_identifier :: "string \<Rightarrow> bool" where
  "is_plain_identifier s \<longleftrightarrow> s \<noteq> [] \<and> length s \<le> 63
     \<and> (is_ascii_alphabetic (hd s) \<or> hd s = CHR ''_'')
     \<and> list_all (\<lambda>c. is_ascii_alphanumeric c \<or> c = CHR ''_'' \<or> c = CHR ''$'') s"

definition split_qualified :: "string \<Rightarrow> string \<Rightarrow> (string \<times> string) mcp_result" where
  "split_qualified raw option_name =
     (let parts = str_split (CHR ''.'') raw
      in if length parts \<noteq> 2 \<or> list_ex (\<lambda>p. p = []) parts then
           Inl (InvalidOption (''invalid value for option \"'' @ option_name @ ''\": \"'' @ raw @
             ''\" is not a schema-qualified name (expected schema.table)''))
         else if \<not> list_all is_plain_identifier parts then
           Inl (InvalidOption (''invalid value for option \"'' @ option_name @ ''\": \"'' @ raw @
             ''\" is not a plain SQL identifier pair''))
         else Inr (parts ! 0, parts ! 1))"

definition parse_audit_table :: "string \<Rightarrow> string mcp_result" where
  "parse_audit_table raw = rmap (\<lambda>(schema, table). schema @ ''.'' @ table) (split_qualified raw ''audit_table'')"

fun ip_is_loopback :: "ip \<Rightarrow> bool" where
  "ip_is_loopback (V4 a _ _ _) = (a = 127)"
| "ip_is_loopback (V6 n) = (n = 1)"

definition is_loopback :: "(string \<Rightarrow> nat \<Rightarrow> ip list option) \<Rightarrow> url \<Rightarrow> bool" where
  "is_loopback resolve u =
     (case u_host u of
        Some (Ipv4 a b c d) \<Rightarrow> ip_is_loopback (V4 a b c d)
      | Some (Ipv6 n) \<Rightarrow> ip_is_loopback (V6 n)
      | Some (Domain name) \<Rightarrow>
          (if to_ascii_lowercase name = ''localhost'' then True
           else case resolve name (unwrap_or (u_port_or_default u) 80) of
                  Some addrs \<Rightarrow> addrs \<noteq> [] \<and> list_all ip_is_loopback addrs
                | None \<Rightarrow> False)
      | None \<Rightarrow> False)"

definition parse_url :: "(string \<Rightarrow> url option) \<Rightarrow> string \<Rightarrow> url mcp_result" where
  "parse_url parse_u raw =
     rbind (ok_or (parse_u raw) (bad_server_option ''url'' (''\"'' @ raw @ ''\" is not an absolute URL'')))
       (\<lambda>parsed.
          if u_scheme parsed \<noteq> ''http'' \<and> u_scheme parsed \<noteq> ''https'' then
            Inl (bad_server_option ''url'' (''scheme \"'' @ u_scheme parsed @ ''\" is not http or https''))
          else if u_host parsed = None then Inl (bad_server_option ''url'' ''missing host'')
          else Inr parsed)"

section \<open>Server options\<close>

text \<open>An optional setting: its parser when present, the default otherwise.\<close>

definition opt_with :: "(string \<times> string) list \<Rightarrow> string \<Rightarrow> (string \<Rightarrow> 'a mcp_result) \<Rightarrow> 'a \<Rightarrow> 'a mcp_result" where
  "opt_with opts k p d = (case map_of opts k of Some v \<Rightarrow> p v | None \<Rightarrow> Inr d)"

definition server_options_parse ::
  "(string \<Rightarrow> url option) \<Rightarrow> (string \<Rightarrow> nat \<Rightarrow> ip list option) \<Rightarrow> (string \<times> string) list \<Rightarrow> server_options mcp_result"
where
  "server_options_parse parse_u resolve opts =
     (case find (\<lambda>(name, _). name \<notin> set SERVER_OPTION_NAMES) opts of
        Some (name, _) \<Rightarrow>
          Inl (InvalidOption (''invalid option \"'' @ name @ ''\" for a pg_mcp foreign server (valid options: ''
            @ str_join '', '' SERVER_OPTION_NAMES @ '')''))
      | None \<Rightarrow>
          rbind (ok_or (map_of opts ''url'') (InvalidOption ''foreign server option \"url\" is required'')) (\<lambda>raw_url.
          rbind (parse_url parse_u raw_url) (\<lambda>parsed.
          rbind (opt_with opts ''mode'' mode_parse ModeAuto) (\<lambda>m.
          rbind (opt_with opts ''timeout_ms'' parse_timeout DEFAULT_TIMEOUT_MS) (\<lambda>timeout.
          rbind (opt_with opts ''auth'' auth_parse AuthBearer) (\<lambda>a.
          if a = AuthNone \<and> \<not> is_loopback resolve parsed then
            Inl (InvalidOption (''foreign server option \"auth\" may only be 'none' when \"url\" points at a loopback host''))
          else if u_scheme parsed = ''http'' \<and> \<not> is_loopback resolve parsed then
            Inl (InvalidOption ''foreign server option \"url\" must use https unless the host is loopback'')
          else
            rbind (opt_with opts ''max_unqualified_reads'' (\<lambda>v. parse_non_negative v ''max_unqualified_reads'') 0) (\<lambda>mur.
            rbind (opt_with opts ''audit_table'' (\<lambda>v. rmap Some (parse_audit_table v)) None) (\<lambda>audit.
            rbind (opt_with opts ''cache_ttl_ms'' (\<lambda>v. parse_non_negative_u64 v ''cache_ttl_ms'') DEFAULT_CACHE_TTL_MS) (\<lambda>ttl.
            Inr \<lparr>so_url = u_text parsed, so_mode = m, timeout_ms = timeout, auth = a,
                 max_unqualified_reads = mur, audit_table = audit, cache_ttl_ms = ttl\<rparr>)))))))))"

section \<open>User mappings\<close>

definition user_mapping_parse :: "(string \<times> string) list \<Rightarrow> credential mcp_result" where
  "user_mapping_parse opts =
     (case find (\<lambda>(name, _). name \<notin> set USER_MAPPING_OPTION_NAMES) opts of
        Some (name, _) \<Rightarrow>
          Inl (InvalidOption (''invalid option \"'' @ name @ ''\" for a pg_mcp user mapping (valid options: ''
            @ str_join '', '' USER_MAPPING_OPTION_NAMES @ '')''))
      | None \<Rightarrow>
          (case (map_of opts ''token'', map_of opts ''token_secret'') of
             (Some _, Some _) \<Rightarrow>
               Inl (InvalidOption ''user mapping options \"token\" and \"token_secret\" are mutually exclusive'')
           | (Some token, None) \<Rightarrow>
               if trim token = [] then Inl (InvalidOption ''user mapping option \"token\" must not be empty'')
               else Inr (Token token)
           | (None, Some secret) \<Rightarrow> rmap (\<lambda>(schema, table). TokenSecret schema table) (split_qualified secret ''token_secret'')
           | (None, None) \<Rightarrow>
               Inl (InvalidOption ''a pg_mcp user mapping requires either \"token\" or \"token_secret\"'')))"

section \<open>Properties\<close>

lemma split_qualified_Inr:
  "split_qualified raw k = Inr (s, t) \<Longrightarrow> raw = s @ ''.'' @ t \<and> is_plain_identifier s \<and> is_plain_identifier t"
proof -
  assume a: "split_qualified raw k = Inr (s, t)"
  then obtain x y where xy: "str_split (CHR ''.'') raw = [x, y]"
    by (cases "str_split (CHR ''.'') raw"; cases "tl (str_split (CHR ''.'') raw)"; cases "tl (tl (str_split (CHR ''.'') raw))")
      (auto simp: split_qualified_def Let_def split: if_splits)
  with a have "x = s" "y = t" "is_plain_identifier s" "is_plain_identifier t"
    by (auto simp: split_qualified_def Let_def split: if_splits)
  moreover have "str_join ''.'' [x, y] = raw" using str_join_split [of "CHR ''.''" raw] xy by simp
  ultimately show ?thesis by simp
qed

lemma opt_with_Inr: "opt_with opts k p d = Inr x \<Longrightarrow> x = d \<or> (\<exists>v. p v = Inr x)"
  by (auto simp: opt_with_def split: option.splits)

lemma parse_timeout_range: "parse_timeout raw = Inr n \<Longrightarrow> 1 \<le> n \<and> n \<le> 600000"
  by (auto simp: parse_timeout_def rbind_eq_Inr_iff MIN_TIMEOUT_MS_def MAX_TIMEOUT_MS_def split: if_splits)

lemma parse_non_negative_range: "parse_non_negative raw k = Inr i \<Longrightarrow> 0 \<le> i \<and> i < 2 ^ 63"
  by (auto simp: parse_non_negative_def rbind_eq_Inr_iff ok_or_def dest: parse_i64_range split: if_splits option.splits)

lemma parse_non_negative_u64_range: "parse_non_negative_u64 raw k = Inr n \<Longrightarrow> n < 2 ^ 64"
  by (auto simp: parse_non_negative_u64_def ok_or_def dest: parse_u64_range split: option.splits)

lemma parse_audit_table_Inr:
  "parse_audit_table raw = Inr a \<Longrightarrow> \<exists>s t. a = s @ ''.'' @ t \<and> is_plain_identifier s \<and> is_plain_identifier t"
  by (auto simp: parse_audit_table_def rmap_def dest: split_qualified_Inr split: sum.splits)

lemma parse_url_Inr:
  "parse_url parse_u raw = Inr u \<Longrightarrow> parse_u raw = Some u \<and> u_host u \<noteq> None \<and> u_scheme u \<in> {''http'', ''https''}"
  by (auto simp: parse_url_def rbind_eq_Inr_iff ok_or_def split: if_splits option.splits)

text \<open>C12. Server options the validator accepts are safe to use. The URL parsed and has a host; it is
  https, or http to a loopback host; unauthenticated access is loopback-only; the timeout lies in
  1..600000 ms, the read limit and the TTL in their integer ranges; an audit table is a pair of
  plain identifiers; and no unknown option is present.\<close>

theorem server_options_safe:
  assumes "server_options_parse parse_u resolve opts = Inr so"
  shows "\<exists>raw u. map_of opts ''url'' = Some raw \<and> parse_u raw = Some u \<and> so_url so = u_text u \<and> u_host u \<noteq> None
    \<and> (u_scheme u = ''https'' \<or> u_scheme u = ''http'' \<and> is_loopback resolve u)
    \<and> (auth so = AuthNone \<longrightarrow> is_loopback resolve u)
    \<and> 1 \<le> timeout_ms so \<and> timeout_ms so \<le> 600000
    \<and> 0 \<le> max_unqualified_reads so \<and> max_unqualified_reads so < 2 ^ 63 \<and> cache_ttl_ms so < 2 ^ 64
    \<and> (\<forall>a. audit_table so = Some a \<longrightarrow> (\<exists>s t. a = s @ ''.'' @ t \<and> is_plain_identifier s \<and> is_plain_identifier t))
    \<and> fst ` set opts \<subseteq> set SERVER_OPTION_NAMES"
proof -
  have known: "find (\<lambda>(name, _). name \<notin> set SERVER_OPTION_NAMES) opts = None"
    using assms by (auto simp: server_options_parse_def split: option.splits)
  note body = assms [unfolded server_options_parse_def known option.case]
  obtain raw u m timeout a where s1: "map_of opts ''url'' = Some raw" "parse_url parse_u raw = Inr u"
    "opt_with opts ''timeout_ms'' parse_timeout DEFAULT_TIMEOUT_MS = Inr timeout"
    and gate: "\<not> (a = AuthNone \<and> \<not> is_loopback resolve u)" "\<not> (u_scheme u = ''http'' \<and> \<not> is_loopback resolve u)"
    and s2: "rbind (opt_with opts ''max_unqualified_reads'' (\<lambda>v. parse_non_negative v ''max_unqualified_reads'') 0) (\<lambda>mur.
            rbind (opt_with opts ''audit_table'' (\<lambda>v. rmap Some (parse_audit_table v)) None) (\<lambda>audit.
            rbind (opt_with opts ''cache_ttl_ms'' (\<lambda>v. parse_non_negative_u64 v ''cache_ttl_ms'') DEFAULT_CACHE_TTL_MS) (\<lambda>ttl.
            Inr \<lparr>so_url = u_text u, so_mode = m, timeout_ms = timeout, auth = a,
                 max_unqualified_reads = mur, audit_table = audit, cache_ttl_ms = ttl\<rparr>))) = Inr so"
    using body by (auto simp: rbind_eq_Inr_iff ok_or_def split: if_splits option.splits)
  obtain mur audit ttl where s3:
    "opt_with opts ''max_unqualified_reads'' (\<lambda>v. parse_non_negative v ''max_unqualified_reads'') 0 = Inr mur"
    "opt_with opts ''audit_table'' (\<lambda>v. rmap Some (parse_audit_table v)) None = Inr audit"
    "opt_with opts ''cache_ttl_ms'' (\<lambda>v. parse_non_negative_u64 v ''cache_ttl_ms'') DEFAULT_CACHE_TTL_MS = Inr ttl"
    and so: "so = \<lparr>so_url = u_text u, so_mode = m, timeout_ms = timeout, auth = a,
                 max_unqualified_reads = mur, audit_table = audit, cache_ttl_ms = ttl\<rparr>"
    using s2 by (auto simp: rbind_eq_Inr_iff)
  have "1 \<le> timeout \<and> timeout \<le> 600000"
    using opt_with_Inr [OF s1(3)] by (auto simp: DEFAULT_TIMEOUT_MS_def dest: parse_timeout_range)
  moreover have "0 \<le> mur \<and> mur < 2 ^ 63"
    using opt_with_Inr [OF s3(1)] by (auto dest: parse_non_negative_range)
  moreover have "ttl < 2 ^ 64"
    using opt_with_Inr [OF s3(3)] by (auto simp: DEFAULT_CACHE_TTL_MS_def dest: parse_non_negative_u64_range)
  moreover have "\<forall>x. audit = Some x \<longrightarrow> (\<exists>s t. x = s @ ''.'' @ t \<and> is_plain_identifier s \<and> is_plain_identifier t)"
    using opt_with_Inr [OF s3(2)] parse_audit_table_Inr by (fastforce simp: rmap_def split: sum.splits)
  moreover have "fst ` set opts \<subseteq> set SERVER_OPTION_NAMES"
    using known by (auto simp: find_None_iff)
  moreover note parse_url_Inr [OF s1(2)]
  ultimately show ?thesis using s1(1) gate so by auto
qed

theorem server_options_safe_witness:
  "\<exists>so. server_options_parse (\<lambda>r. Some \<lparr>u_scheme = ''http'', u_host = Some (Ipv4 127 0 0 1), u_port_or_default = Some 80, u_text = r\<rparr>)
       (\<lambda>_ _. None) [(''url'', ''http://127.0.0.1/mcp''), (''auth'', ''none'')] = Inr so
     \<and> auth so = AuthNone \<and> timeout_ms so \<le> 600000"
proof -
  let ?pu = "\<lambda>r. Some \<lparr>u_scheme = ''http'', u_host = Some (Ipv4 127 0 0 1), u_port_or_default = Some 80, u_text = r\<rparr>"
  let ?opts = "[(''url'', ''http://127.0.0.1/mcp''), (''auth'', ''none'')]"
  have "server_options_parse ?pu (\<lambda>_ _. None) ?opts = Inr \<lparr>so_url = ''http://127.0.0.1/mcp'', so_mode = ModeAuto,
      timeout_ms = 15000, auth = AuthNone, max_unqualified_reads = 0, audit_table = None, cache_ttl_ms = 60000\<rparr>"
    by (simp add: server_options_parse_def SERVER_OPTION_NAMES_def parse_url_def opt_with_def auth_parse_def
        is_loopback_def DEFAULT_TIMEOUT_MS_def DEFAULT_CACHE_TTL_MS_def)
  then obtain so where so: "server_options_parse ?pu (\<lambda>_ _. None) ?opts = Inr so" "auth so = AuthNone" by simp
  from server_options_safe [OF so(1)] so show ?thesis by blast
qed

text \<open>C20. A user mapping carries exactly one credential: the parser accepts a nonblank \<^verbatim>\<open>token\<close> without a
  \<^verbatim>\<open>token_secret\<close>, or a \<^verbatim>\<open>token_secret\<close> naming a plain table without a \<^verbatim>\<open>token\<close>, and nothing else.
  A rejection never depends on the token's text beyond its being blank, so no message can reveal
  a credential.\<close>

theorem user_mapping_credential:
  "(user_mapping_parse opts = Inr (Token t) \<longrightarrow>
      map_of opts ''token'' = Some t \<and> map_of opts ''token_secret'' = None \<and> trim t \<noteq> [])
   \<and> (user_mapping_parse opts = Inr (TokenSecret s tb) \<longrightarrow>
      map_of opts ''token'' = None \<and> map_of opts ''token_secret'' = Some (s @ ''.'' @ tb)
      \<and> is_plain_identifier s \<and> is_plain_identifier tb)
   \<and> (user_mapping_parse ((''token'', a) # opts) = Inl e \<and> (trim a = [] \<longleftrightarrow> trim b = []) \<longrightarrow>
      user_mapping_parse ((''token'', b) # opts) = Inl e)"
proof (intro conjI impI)
  assume "user_mapping_parse opts = Inr (Token t)"
  then show "map_of opts ''token'' = Some t" "map_of opts ''token_secret'' = None" "trim t \<noteq> []"
    by (auto simp: user_mapping_parse_def rmap_def split: option.splits if_splits sum.splits)
next
  assume "user_mapping_parse opts = Inr (TokenSecret s tb)"
  then have "map_of opts ''token'' = None \<and> (\<exists>raw. map_of opts ''token_secret'' = Some raw
      \<and> split_qualified raw ''token_secret'' = Inr (s, tb))"
    by (auto simp: user_mapping_parse_def rmap_def split: option.splits if_splits sum.splits)
  then show "map_of opts ''token'' = None" "map_of opts ''token_secret'' = Some (s @ ''.'' @ tb)"
    "is_plain_identifier s" "is_plain_identifier tb"
    using split_qualified_Inr by force+
next
  assume "user_mapping_parse ((''token'', a) # opts) = Inl e \<and> (trim a = [] \<longleftrightarrow> trim b = [])"
  then show "user_mapping_parse ((''token'', b) # opts) = Inl e"
    by (auto simp: user_mapping_parse_def USER_MAPPING_OPTION_NAMES_def split: option.splits if_splits)
qed

theorem user_mapping_credential_witness:
  "user_mapping_parse [(''token'', ''k'')] = Inr (Token ''k'') \<and> trim ''k'' \<noteq> []
   \<and> user_mapping_parse [(''token'', ''k''), (''token_secret'', ''a.b'')]
      = user_mapping_parse [(''token'', ''kk''), (''token_secret'', ''a.b'')]"
proof -
  have t: "trim ''k'' \<noteq> []" "trim ''kk'' \<noteq> []"
    by (simp_all add: trim_graphic graphic_def byte_def)
  then have ok: "user_mapping_parse [(''token'', ''k'')] = Inr (Token ''k'')"
    by (simp add: user_mapping_parse_def USER_MAPPING_OPTION_NAMES_def)
  obtain e where e: "user_mapping_parse [(''token'', ''k''), (''token_secret'', ''a.b'')] = Inl e"
    by (simp add: user_mapping_parse_def USER_MAPPING_OPTION_NAMES_def)
  have "user_mapping_parse [(''token'', ''kk''), (''token_secret'', ''a.b'')] = Inl e"
    using user_mapping_credential [of "[(''token_secret'', ''a.b'')]" "[]" "[]" "[]" "''k''" e "''kk''"] e t by blast
  with user_mapping_credential [of "[(''token'', ''k'')]" "''k''"] ok e t show ?thesis by (simp only: simp_thms)
qed

end
