(* ===== verification/Session.thy ===== *)
theory Session
  imports Client Server_Options
begin

text \<open>
  \<^verbatim>\<open>session.rs\<close>: resolving a foreign server and its credential, and the backend's session cache.
  PostgreSQL's catalogs and SPI are the parameter \<open>pg_catalog\<close>; walking the \<^verbatim>\<open>DefElem\<close> lists they
  return is not modelled, options arrive as name/value pairs.
\<close>

section \<open>Resolution\<close>

type_synonym oid = nat
type_synonym session_key = "oid \<times> oid"

record pg_catalog =
  foreign_server :: "string \<Rightarrow> (oid \<times> (string \<times> string) list) option"
  user_mapping_row :: "oid \<Rightarrow> oid \<Rightarrow> bool"
  get_user_mapping :: "oid \<Rightarrow> oid \<Rightarrow> (string \<times> string) list option"
  current_user_oid :: oid
  secret_get_one :: "string \<Rightarrow> string + string option"
  url_parse :: "string \<Rightarrow> url option"
  name_resolution :: "string \<Rightarrow> nat \<Rightarrow> ip list option"

record resolved =
  server_oid :: oid
  user_oid :: oid
  options :: server_options
  res_bearer :: "bearer option"

definition InvalidOid :: oid where "InvalidOid = 0"

datatype validator_catalog = VC_ForeignServer | VC_UserMapping | VC_ForeignDataWrapper | VC_Other

text \<open>The catalog relation OIDs are fixed by PostgreSQL.\<close>

definition validator_catalog_of :: "oid \<Rightarrow> validator_catalog" where
  "validator_catalog_of c =
     (if c = 1417 then VC_ForeignServer
      else if c = 1418 then VC_UserMapping
      else if c = 2328 then VC_ForeignDataWrapper
      else VC_Other)"

definition lookup_foreign_server :: "pg_catalog \<Rightarrow> string \<Rightarrow> (oid \<times> (string \<times> string) list) mcp_result" where
  "lookup_foreign_server cat name =
     (if CHR 0x00 \<in> set name then Inl (UndefinedObject (''invalid foreign server name \"'' @ name @ ''\"''))
      else ok_or (foreign_server cat name)
             (UndefinedObject (''foreign server \"'' @ name @ ''\" does not exist'')))"

definition user_mapping_exists :: "pg_catalog \<Rightarrow> oid \<Rightarrow> oid \<Rightarrow> bool" where
  "user_mapping_exists cat srv usr = list_ex (\<lambda>candidate. user_mapping_row cat candidate srv) [usr, InvalidOid]"

definition lookup_user_mapping :: "pg_catalog \<Rightarrow> oid \<Rightarrow> oid \<Rightarrow> (string \<times> string) list option" where
  "lookup_user_mapping cat srv usr =
     (if \<not> user_mapping_exists cat srv usr then None else get_user_mapping cat usr srv)"

definition read_token_secret :: "pg_catalog \<Rightarrow> string \<Rightarrow> string \<Rightarrow> string mcp_result" where
  "read_token_secret cat schema table =
     (let sql = ''SELECT token FROM \"'' @ replace_char (CHR 0x22) [CHR 0x22, CHR 0x22] schema @ ''\".\"''
                  @ replace_char (CHR 0x22) [CHR 0x22, CHR 0x22] table @ ''\" WHERE role = current_user LIMIT 1''
      in case secret_get_one cat sql of
           Inl e \<Rightarrow> Inl (NoAuthMapping (''could not read the token_secret table \"'' @ schema @ ''\".\"'' @ table @ ''\": '' @ e))
         | Inr fetched \<Rightarrow>
             (case fetched of
                Some token \<Rightarrow>
                  if trim token \<noteq> [] then Inr token
                  else Inl (NoAuthMapping (''no token for the current role in \"'' @ schema @ ''\".\"'' @ table @ ''\"''))
              | None \<Rightarrow> Inl (NoAuthMapping (''no token for the current role in \"'' @ schema @ ''\".\"'' @ table @ ''\"''))))"

definition resolve_bearer :: "pg_catalog \<Rightarrow> oid \<Rightarrow> oid \<Rightarrow> string \<Rightarrow> bearer mcp_result" where
  "resolve_bearer cat srv usr server_name =
     rbind (ok_or (lookup_user_mapping cat srv usr)
       (NoAuthMapping (''no USER MAPPING for the current role on foreign server \"'' @ server_name
          @ ''\"; create one with OPTIONS (token_secret 'schema.table') or set the server's auth option to 'none' for a loopback URL'')))
     (\<lambda>mapping. rbind (user_mapping_parse mapping)
     (\<lambda>parsed. case parsed of
        Token token \<Rightarrow> Inr (Bearer token)
      | TokenSecret schema table \<Rightarrow> rmap Bearer (read_token_secret cat schema table)))"

definition resolve :: "pg_catalog \<Rightarrow> string \<Rightarrow> resolved mcp_result" where
  "resolve cat server_name =
     rbind (lookup_foreign_server cat server_name) (\<lambda>(srv, server_options).
     rbind (server_options_parse (url_parse cat) (name_resolution cat) server_options) (\<lambda>opts.
     let usr = current_user_oid cat in
     rbind (case auth opts of
              AuthNone \<Rightarrow> Inr None
            | AuthBearer \<Rightarrow> rmap Some (resolve_bearer cat srv usr server_name)) (\<lambda>b.
     Inr \<lparr>server_oid = srv, user_oid = usr, options = opts, res_bearer = b\<rparr>)))"

definition split_validator_options :: "string option list \<Rightarrow> (string \<times> string) list" where
  "split_validator_options raw =
     List.map_filter (\<lambda>entry. Option.bind entry (split_once (CHR ''=''))) raw"

fun params_object :: "json option \<Rightarrow> json" where
  "params_object (Some (JObj kvs)) = JObj kvs"
| "params_object (Some JNull) = JObj []"
| "params_object None = JObj []"
| "params_object (Some other) = other"

section \<open>The session cache\<close>

record session_store = world +
  sessions :: "session_key \<Rightarrow> mcp_session option"

definition session_key_of :: "resolved \<Rightarrow> session_key" where
  "session_key_of res = (server_oid res, user_oid res)"

definition is_transport :: "'a mcp_result \<Rightarrow> bool" where
  "is_transport r = (case r of Inl (Transport _) \<Rightarrow> True | _ \<Rightarrow> False)"

definition session_transport :: "resolved \<Rightarrow> bool \<Rightarrow> transport" where
  "session_transport res attached =
     \<lparr>tr_timeout = timeout_ms (options res), tr_bearer = res_bearer res, tr_notifications = attached\<rparr>"

text \<open>The cached session for the key is taken out of the map; a fresh one replaces it when its URL changed.\<close>

definition checkout :: "env \<Rightarrow> resolved \<Rightarrow> ('z session_store_scheme, mcp_session) eff" where
  "checkout env res b =
     (let key = session_key_of res;
          b1 = b\<lparr>sessions := (sessions b)(key := None)\<rparr>;
          opened = open_session env (so_url (options res)) (session_transport res False) b1
      in case sessions b key of
           Some existing \<Rightarrow> if ms_url existing = so_url (options res) then (Inr existing, b1) else opened
         | None \<Rightarrow> opened)"

definition with_session ::
  "env \<Rightarrow> resolved \<Rightarrow> (transport \<Rightarrow> (mcp_session \<times> 'z session_store_scheme, 'a) eff) \<Rightarrow> ('z session_store_scheme, 'a) eff"
where
  "with_session env res f b =
     (case checkout env res b of
        (Inl e, b2) \<Rightarrow> (Inl e, b2)
      | (Inr session, b2) \<Rightarrow>
          (case f (session_transport res True) (session, b2) of
             (outcome, (session', b3)) \<Rightarrow>
               (outcome, if is_transport outcome then b3
                         else b3\<lparr>sessions := (sessions b3)(session_key_of res \<mapsto> session')\<rparr>)))"

definition drop_session :: "oid \<Rightarrow> oid \<Rightarrow> 'z session_store_scheme \<Rightarrow> bool \<times> 'z session_store_scheme" where
  "drop_session srv usr b =
     (sessions b (srv, usr) \<noteq> None, b\<lparr>sessions := (sessions b)((srv, usr) := None)\<rparr>)"

definition cached_initialize_count :: "oid \<Rightarrow> oid \<Rightarrow> 'z session_store_scheme \<Rightarrow> nat option" where
  "cached_initialize_count srv usr b = map_option initialize_count (sessions b (srv, usr))"

definition with_cached_session :: "oid \<Rightarrow> oid \<Rightarrow> (mcp_session \<Rightarrow> 'a) \<Rightarrow> 'z session_store_scheme \<Rightarrow> 'a option" where
  "with_cached_session srv usr f b = map_option f (sessions b (srv, usr))"

definition clear_all_sessions :: "'z session_store_scheme \<Rightarrow> 'z session_store_scheme" where
  "clear_all_sessions b = b\<lparr>sessions := (\<lambda>_. None)\<rparr>"

definition session_count :: "'z session_store_scheme \<Rightarrow> nat" where
  "session_count b = card (dom (sessions b))"

section \<open>Credentials\<close>

lemma sqlstate_bad_server_option [simp]: "sqlstate (bad_server_option k m) = ''22023''"
  by (simp add: bad_server_option_def)

lemma option_value_errors:
  "mode_parse v = Inl e \<Longrightarrow> sqlstate e = ''22023''"
  "auth_parse v = Inl e \<Longrightarrow> sqlstate e = ''22023''"
  "parse_timeout v = Inl e \<Longrightarrow> sqlstate e = ''22023''"
  "parse_non_negative v k = Inl e \<Longrightarrow> sqlstate e = ''22023''"
  "parse_non_negative_u64 v k = Inl e \<Longrightarrow> sqlstate e = ''22023''"
  "parse_url pu v = Inl e \<Longrightarrow> sqlstate e = ''22023''"
  "split_qualified v k = Inl e \<Longrightarrow> sqlstate e = ''22023''"
  by (auto simp: mode_parse_def auth_parse_def parse_timeout_def parse_non_negative_def parse_non_negative_u64_def
      parse_url_def split_qualified_def Let_def rbind_eq_Inl_iff split: if_splits)

lemma opt_with_errors:
  "opt_with opts k p d = Inl e \<Longrightarrow> (\<And>v e. p v = Inl e \<Longrightarrow> sqlstate e = ''22023'') \<Longrightarrow> sqlstate e = ''22023''"
  by (auto simp: opt_with_def split: option.splits)

lemma rbind_errors:
  "rbind m f = Inl e \<Longrightarrow> (\<And>e. m = Inl e \<Longrightarrow> P e) \<Longrightarrow> (\<And>x e. f x = Inl e \<Longrightarrow> P e) \<Longrightarrow> P e"
  by (auto simp: rbind_eq_Inl_iff)

lemma server_options_parse_errors:
  assumes "server_options_parse parse_u dns opts = Inl e"
  shows "sqlstate e = ''22023''"
proof (cases "find (\<lambda>(name, _). name \<notin> set SERVER_OPTION_NAMES) opts")
  case None
  have audit: "rmap Some (parse_audit_table v) = Inl e \<Longrightarrow> sqlstate e = ''22023''" for v e
    by (simp add: parse_audit_table_def option_value_errors)
  from assms [unfolded server_options_parse_def None option.case] show ?thesis
    by (elim rbind_errors)
      (auto intro: option_value_errors audit elim!: opt_with_errors rbind_errors split: if_splits)
next
  case (Some nv)
  with assms show ?thesis by (auto simp: server_options_parse_def split: prod.splits)
qed

lemma user_mapping_parse_errors:
  assumes "user_mapping_parse opts = Inl e"
  shows "sqlstate e = ''22023''"
proof (cases "find (\<lambda>(name, _). name \<notin> set USER_MAPPING_OPTION_NAMES) opts")
  case None
  note body = assms [unfolded user_mapping_parse_def None option.case]
  show ?thesis
  proof (cases "map_of opts ''token''")
    case no_token: None
    show ?thesis
    proof (cases "map_of opts ''token_secret''")
      case (Some secret)
      then have "split_qualified secret ''token_secret'' = Inl e" using body no_token by simp
      then show ?thesis by (rule option_value_errors)
    qed (use body no_token in auto)
  next
    case (Some t)
    with body show ?thesis by (cases "map_of opts ''token_secret''") (auto split: if_splits)
  qed
next
  case (Some nv)
  with assms show ?thesis by (auto simp: user_mapping_parse_def split: prod.splits)
qed

lemma read_token_secret_errors: "read_token_secret cat schema table = Inl e \<Longrightarrow> sqlstate e = ''28000''"
  by (auto simp: read_token_secret_def Let_def split: sum.splits option.splits if_splits)

lemma read_token_secret_Inr:
  "read_token_secret cat schema table = Inr t \<Longrightarrow> trim t \<noteq> [] \<and> (\<exists>sql. secret_get_one cat sql = Inr (Some t))"
  by (auto simp: read_token_secret_def Let_def split: sum.splits option.splits if_splits)

lemma resolve_bearer_errors:
  assumes "resolve_bearer cat srv usr name = Inl e"
  shows "sqlstate e \<in> {''28000'', ''22023''}"
proof -
  consider "lookup_user_mapping cat srv usr = None" "sqlstate e = ''28000''"
    | m where "user_mapping_parse m = Inl e"
    | schema table where "read_token_secret cat schema table = Inl e"
    using assms by (auto simp: resolve_bearer_def rbind_eq_Inl_iff) (metis credential.exhaust credential.simps(5,6) rmap_eq_Inl_iff sum.distinct(1))
  then show ?thesis by cases (simp_all add: user_mapping_parse_errors read_token_secret_errors)
qed

text \<open>Where a credential comes from: the role's user mapping, directly or through its secret table.\<close>

definition credential_of :: "pg_catalog \<Rightarrow> oid \<Rightarrow> oid \<Rightarrow> string \<Rightarrow> bool" where
  "credential_of cat srv usr token \<longleftrightarrow>
     (\<exists>mapping. get_user_mapping cat usr srv = Some mapping
        \<and> (map_of mapping ''token'' = Some token
           \<or> (\<exists>schema table sql. map_of mapping ''token_secret'' = Some (schema @ ''.'' @ table)
                \<and> is_plain_identifier schema \<and> is_plain_identifier table \<and> secret_get_one cat sql = Inr (Some token))))"

lemma user_mapping_parse_Inr:
  "user_mapping_parse m = Inr (Token t) \<Longrightarrow> map_of m ''token'' = Some t \<and> trim t \<noteq> []"
  "user_mapping_parse m = Inr (TokenSecret s tb) \<Longrightarrow>
     map_of m ''token_secret'' = Some (s @ ''.'' @ tb) \<and> is_plain_identifier s \<and> is_plain_identifier tb"
  by (auto simp: user_mapping_parse_def rmap_def dest: split_qualified_Inr split: option.splits if_splits sum.splits)

lemma resolve_bearer_Inr:
  assumes "resolve_bearer cat srv usr name = Inr (Bearer t)"
  shows "trim t \<noteq> [] \<and> credential_of cat srv usr t"
proof -
  obtain m c where m: "lookup_user_mapping cat srv usr = Some m" "user_mapping_parse m = Inr c"
    and c: "(case c of Token token \<Rightarrow> Inr (Bearer token)
      | TokenSecret schema table \<Rightarrow> rmap Bearer (read_token_secret cat schema table)) = Inr (Bearer t)"
    using assms by (auto simp: resolve_bearer_def rbind_eq_Inr_iff)
  have g: "get_user_mapping cat usr srv = Some m" using m(1) by (simp add: lookup_user_mapping_def split: if_splits)
  show ?thesis
  proof (cases c)
    case (Token x)
    with c m(2) g user_mapping_parse_Inr(1) show ?thesis by (auto simp: credential_of_def)
  next
    case (TokenSecret schema table)
    with c have "read_token_secret cat schema table = Inr t" by (auto simp: rmap_eq_Inr_iff)
    note secret = read_token_secret_Inr [OF this]
    have "map_of m ''token_secret'' = Some (schema @ ''.'' @ table) \<and> is_plain_identifier schema \<and> is_plain_identifier table"
      by (rule user_mapping_parse_Inr(2)) (simp add: m(2) [unfolded TokenSecret])
    with g secret show ?thesis unfolding credential_of_def by blast
  qed
qed


section \<open>Isolation\<close>

lemma sends_sessions:
  fixes b :: "'z session_store_scheme"
  shows "sends b new b' \<Longrightarrow> sessions b' = sessions b \<and> session_store.more b' = session_store.more b"
  by (cases b; cases b') (auto simp: sends_def)

lemma open_session_sends:
  assumes "open_session env url tr w = (r, w')"
  shows "\<exists>new s'. sends w new w' \<and> ms_url s' = url \<and> prefix (map wire_shape new) (handshake_shape s' tr)
    \<and> (\<forall>s. r = Inr s \<longrightarrow> s = s' \<and> map wire_shape new = handshake_shape s tr)"
proof -
  obtain x s' where i: "initialize_session env tr (fresh_session url (clock w), w) = (x, (s', w'))" "r = rmap (\<lambda>_. s') x"
    using assms by (auto simp: open_session_def split: prod.splits)
  from initialize_session_sends [OF i(1)] obtain new where new: "ms_url s' = url" "sends w new w'"
    "prefix (map wire_shape new) (handshake_shape s' tr)" "x = Inr () \<longrightarrow> length new = 2" by (auto simp: fresh_session_def)
  have "map wire_shape new = handshake_shape s' tr" if "x = Inr ()"
    using that new(4) by (intro prefix_full [OF new(3)]) (simp add: handshake_shape_def)
  with new i(2) show ?thesis by (auto simp: rmap_eq_Inr_iff)
qed

text \<open>The credential and the target of an exchange.\<close>

definition addressed :: "resolved \<Rightarrow> http_request \<times> json \<Rightarrow> bool" where
  "addressed res x \<longleftrightarrow> header_of ''authorization'' x = map_option bearer_header (res_bearer res)
     \<and> rq_url (fst x) = so_url (options res)"

lemma auth_header_session_transport [simp]:
  "auth_header (session_transport res a) = map_option bearer_header (res_bearer res)"
  by (simp add: auth_header_def session_transport_def)

lemma addressed_shape: "addressed res x \<longleftrightarrow>
    (case wire_shape x of (_, _, _, a, u) \<Rightarrow> a = map_option bearer_header (res_bearer res) \<and> u = so_url (options res))"
  by (simp add: addressed_def wire_shape_def)

lemma addressed_prefix:
  assumes "prefix (map wire_shape new) shapes"
    and "\<forall>(m, i, p, a, u) \<in> set shapes. a = map_option bearer_header (res_bearer res) \<and> u = so_url (options res)"
  shows "\<forall>x \<in> set new. addressed res x"
proof
  fix x assume "x \<in> set new"
  then have "wire_shape x \<in> set shapes" using set_mono_prefix [OF assms(1)] by auto
  with assms(2) show "addressed res x" unfolding addressed_shape by fastforce
qed

text \<open>
  \<open>confined res b b'\<close>: what happened between \<open>b\<close> and \<open>b'\<close> concerned one role on one server. The wire
  log grew by exchanges addressed there with that role's credential, other keys kept their
  sessions, and nothing outside the session map changed.
\<close>

definition confined :: "resolved \<Rightarrow> 'z session_store_scheme \<Rightarrow> 'z session_store_scheme \<Rightarrow> bool" where
  "confined res b b' \<longleftrightarrow> (\<exists>new. sent b' = sent b @ new \<and> (\<forall>x \<in> set new. addressed res x))
     \<and> clock b \<le> clock b' \<and> tick b \<le> tick b'
     \<and> (\<forall>k. k \<noteq> session_key_of res \<longrightarrow> sessions b' k = sessions b k)
     \<and> session_store.more b' = session_store.more b"

interpretation conf: evolution "confined res" for res
proof
  show "confined res s s" for s :: "'z session_store_scheme" by (simp add: confined_def)
  show "confined res s t \<Longrightarrow> confined res t u \<Longrightarrow> confined res s u" for s t u :: "'z session_store_scheme"
    by (fastforce simp: confined_def)
qed

lemma sends_confined: "sends b new b' \<Longrightarrow> \<forall>x \<in> set new. addressed res x \<Longrightarrow> confined res b b'"
  using sends_sessions [of b new b'] by (auto simp: confined_def sends_def)

lemma confined_sessions:
  "confined res b (b'\<lparr>sessions := (sessions b')(session_key_of res := v)\<rparr>) \<longleftrightarrow> confined res b b'"
  by (auto simp: confined_def)

lemma confined_taken:
  "confined res (b\<lparr>sessions := (sessions b)(session_key_of res := v)\<rparr>) b' \<longleftrightarrow> confined res b b'"
  by (auto simp: confined_def)

lemma checkout_confined:
  assumes "checkout env res b = (r, b')"
  shows "confined res b b' \<and> sessions b' (session_key_of res) = None \<and> (\<forall>s. r = Inr s \<longrightarrow> ms_url s = so_url (options res))"
proof -
  let ?b = "b\<lparr>sessions := (sessions b)(session_key_of res := None)\<rparr>"
  let ?tr = "session_transport res False"
  consider s where "r = Inr s" "b' = ?b" "ms_url s = so_url (options res)"
    | "open_session env (so_url (options res)) ?tr ?b = (r, b')"
    using assms by (auto simp: checkout_def Let_def split: option.splits if_splits)
  then show ?thesis
  proof cases
    case 1
    then show ?thesis by (simp add: confined_sessions conf.evo_refl)
  next
    case 2
    from open_session_sends [OF 2] obtain new s' where new: "sends ?b new b'" "ms_url s' = so_url (options res)"
      "prefix (map wire_shape new) (handshake_shape s' ?tr)" "\<forall>s. r = Inr s \<longrightarrow> s = s'" by blast
    have "\<forall>x \<in> set new. addressed res x"
      by (rule addressed_prefix [OF new(3)]) (simp add: handshake_shape_def new(2))
    from sends_confined [OF new(1) this] sends_sessions [OF new(1)] new(2,4) show ?thesis by (auto simp: confined_taken)
  qed
qed

lemma request_confined:
  assumes "session_request env (session_transport res a) mthd params (s, b) = (r, (s', b'))" "ms_url s = so_url (options res)"
  shows "confined res b b' \<and> sessions b' = sessions b \<and> ms_url s' = so_url (options res)"
proof -
  obtain new where new: "sends b new b'" "ms_url s' = ms_url s"
    "prefix (map wire_shape new) (request_shape mthd s (session_transport res a) # handshake_shape s' (session_transport res a)
       @ [request_shape mthd s' (session_transport res a)])"
    using session_request_sends [OF assms(1)] by blast
  have "\<forall>x \<in> set new. addressed res x"
    by (rule addressed_prefix [OF new(3)]) (simp add: handshake_shape_def request_shape_def new(2) assms(2))
  from sends_confined [OF new(1) this] sends_sessions [OF new(1)] new(2) assms(2) show ?thesis by simp
qed

text \<open>Running a computation that keeps to the session's own server keeps the whole call to it.\<close>

lemma with_session_confined:
  assumes f: "\<And>s b r s' b'. f (session_transport res True) (s, b) = (r, (s', b')) \<Longrightarrow> ms_url s = so_url (options res)
      \<Longrightarrow> confined res b b' \<and> sessions b' = sessions b \<and> ms_url s' = so_url (options res)"
    and run: "with_session env res f b = (r, b')"
  shows "confined res b b' \<and> (is_transport r \<longrightarrow> sessions b' (session_key_of res) = None)
    \<and> (case sessions b' (session_key_of res) of None \<Rightarrow> \<exists>e. r = Inl e | Some s \<Rightarrow> ms_url s = so_url (options res))"
proof -
  obtain x b2 where co: "checkout env res b = (x, b2)" by force
  note c = checkout_confined [OF co]
  show ?thesis
  proof (cases x)
    case (Inl e)
    with run co have "r = Inl e" "b' = b2" by (auto simp: with_session_def)
    with c show ?thesis by simp
  next
    case (Inr s)
    obtain s' b3 where fs: "f (session_transport res True) (s, b2) = (r, (s', b3))"
      and b': "b' = (if is_transport r then b3 else b3\<lparr>sessions := (sessions b3)(session_key_of res \<mapsto> s')\<rparr>)"
      using run co Inr by (auto simp: with_session_def split: prod.splits)
    note st = f [OF fs]
    have "confined res b b3" using c st Inr conf.evo_trans by blast
    then have "confined res b b'" using b' by (simp add: confined_sessions)
    with b' st c Inr show ?thesis by (auto simp: is_transport_def split: sum.splits)
  qed
qed

text \<open>
  The same bound for any relation on the backend that contains \<open>confined\<close> and does not look at the
  role's own session: later components use it with the catalog cache and the call log included.
  Inside \<^verbatim>\<open>with_session\<close> the computation runs on the session and the backend; what it keeps is that
  the session talks to the server's URL.
\<close>

definition in_session ::
  "resolved \<Rightarrow> ('z session_store_scheme \<Rightarrow> 'z session_store_scheme \<Rightarrow> bool)
   \<Rightarrow> mcp_session \<times> 'z session_store_scheme \<Rightarrow> mcp_session \<times> 'z session_store_scheme \<Rightarrow> bool"
where
  "in_session res R = (\<lambda>(s, b) (s', b'). ms_url s = so_url (options res) \<longrightarrow>
     ms_url s' = so_url (options res) \<and> R b b')"

locale role_scope = evolution R
  for R :: "'z session_store_scheme \<Rightarrow> 'z session_store_scheme \<Rightarrow> bool" +
  fixes res :: resolved
  assumes scope_confined: "confined res b b' \<Longrightarrow> R b b'"
    and scope_put: "R b b' \<Longrightarrow> R b (b'\<lparr>sessions := (sessions b')(session_key_of res := v)\<rparr>)"
begin

lemma scope_with_session:
  assumes "evolves (in_session res R) (f (session_transport res True))"
  shows "evolves R (with_session env res f)"
proof (rule evolvesI)
  fix b :: "'z session_store_scheme"
  obtain x b2 where co: "checkout env res b = (x, b2)" by force
  note c = checkout_confined [OF co]
  show "R b (snd (with_session env res f b))"
  proof (cases x)
    case (Inl e)
    with co c scope_confined show ?thesis by (simp add: with_session_def)
  next
    case (Inr s)
    obtain r s' b3 where fs: "f (session_transport res True) (s, b2) = (r, (s', b3))" by (metis prod_cases3)
    have "R b2 b3" using evolvesD [OF assms fs] c Inr by (simp add: in_session_def)
    with c scope_confined have "R b b3" using evo_trans by blast
    with co Inr fs scope_put show ?thesis by (simp add: with_session_def)
  qed
qed

lemma scope_request: "evolves (in_session res R) (session_request env (session_transport res a) mthd p)"
proof (rule evolvesI)
  fix st :: "mcp_session \<times> 'z session_store_scheme"
  obtain s b where st: "st = (s, b)" by force
  obtain r s' b' where run: "session_request env (session_transport res a) mthd p (s, b) = (r, (s', b'))" by (metis prod_cases3)
  with request_confined [OF run] scope_confined show "in_session res R st (snd (session_request env (session_transport res a) mthd p st))"
    by (auto simp: in_session_def st)
qed

end

sublocale role_scope \<subseteq> inner: evolution "in_session res R"
proof
  show "in_session res R s s" for s by (auto simp: in_session_def evo_refl)
  show "in_session res R s t \<Longrightarrow> in_session res R t u \<Longrightarrow> in_session res R s u" for s t u
    by (auto simp: in_session_def intro: evo_trans)
qed

interpretation conf_scope: role_scope "confined res" res for res
proof
  show "confined res b b' \<Longrightarrow> confined res b b'" for b b' :: "'z session_store_scheme" .
  show "confined res b b' \<Longrightarrow> confined res b (b'\<lparr>sessions := (sessions b')(session_key_of res := v)\<rparr>)"
    for b b' :: "'z session_store_scheme" and v by (simp add: confined_sessions)
qed

text \<open>C25. A call stays within its role and server. Whatever the server answers, a request on behalf of one
  role changes no other key's session and nothing outside the session map, everything it sends is
  addressed to that server's URL with that role's credential (or none), a session it leaves cached
  for the key talks to that URL, and a transport failure leaves none.\<close>

theorem session_isolation:
  "case with_session env res (\<lambda>tr. session_request env tr mthd params) b of (r, b') \<Rightarrow>
     (\<forall>k. k \<noteq> session_key_of res \<longrightarrow> sessions b' k = sessions b k)
     \<and> session_store.more b' = session_store.more b
     \<and> (\<exists>new. sent b' = sent b @ new \<and> (\<forall>x \<in> set new.
            header_of ''authorization'' x = map_option bearer_header (res_bearer res)
            \<and> rq_url (fst x) = so_url (options res)))
     \<and> (case sessions b' (session_key_of res) of None \<Rightarrow> \<exists>e. r = Inl e | Some s \<Rightarrow> ms_url s = so_url (options res))
     \<and> (\<forall>m. r = Inl (Transport m) \<longrightarrow> sessions b' (session_key_of res) = None)"
proof -
  obtain r b' where run: "with_session env res (\<lambda>tr. session_request env tr mthd params) b = (r, b')" by force
  have tr: "\<forall>m. r = Inl (Transport m) \<longrightarrow> is_transport r" by (simp add: is_transport_def)
  from with_session_confined [OF request_confined run] tr show ?thesis
    unfolding run confined_def addressed_def by auto
qed

text \<open>A role on a loopback server, in a backend that holds another role's session there.\<close>

definition role_five :: resolved where
  "role_five = \<lparr>server_oid = 1, user_oid = 5,
     options = \<lparr>so_url = ''https://h/mcp'', so_mode = ModeAuto, timeout_ms = 15000, auth = AuthBearer,
       max_unqualified_reads = 0, audit_table = None, cache_ttl_ms = 60000\<rparr>,
     res_bearer = Some (Bearer ''k'')\<rparr>"

definition other_role_store :: session_store where
  "other_role_store = \<lparr>sent = [], clock = 0, tick = 0, sessions = [(1, 9) \<mapsto> old_session]\<rparr>"

theorem session_isolation_witness:
  "\<exists>r b'. with_session forgetful_server role_five (\<lambda>tr. session_request forgetful_server tr ''ping'' (JObj [])) other_role_store = (r, b')
     \<and> sessions b' (1, 9) = Some old_session"
proof -
  obtain r b' where run: "with_session forgetful_server role_five (\<lambda>tr. session_request forgetful_server tr ''ping'' (JObj [])) other_role_store = (r, b')"
    by force
  have "(1, 9) \<noteq> session_key_of role_five" by (simp add: session_key_of_def role_five_def)
  then have "sessions b' (1, 9) = sessions other_role_store (1, 9)"
    using session_isolation [where env = forgetful_server and res = role_five and mthd = "''ping''" and params = "JObj []" and b = other_role_store]
    unfolding run by blast
  with run show ?thesis by (simp add: other_role_store_def)
qed

section \<open>One handshake serves all calls\<close>

text \<open>
  A server that is up: nothing interrupts, notifications are accepted, and every other message is
  answered with a JSON body carrying a result.
\<close>

definition serving :: "env \<Rightarrow> bool" where
  "serving env \<longleftrightarrow> (\<forall>n. interrupt env n = None) \<and> (\<forall>v. encode_error env v = None)
     \<and> (\<forall>n log rq body. \<exists>delay r. answer env n log (rq, body) = (delay, H_Response r)
         \<and> (if get_str ''method'' body = Some ''notifications/initialized'' then rs_status r = 202
            else \<exists>v sid result. classify_response env r = W_Json v sid \<and> jget ''error'' v = None
                   \<and> jget ''result'' v = Some result))"

lemma serving_dispatch:
  assumes "serving env"
  shows "\<exists>wire w'. dispatch env rq body w = (wire, w')
    \<and> (if get_str ''method'' body = Some ''notifications/initialized'' then wire = W_Accepted
       else \<exists>v sid result. wire = W_Json v sid \<and> (\<forall>rid. finish v rid = Inr result))"
proof -
  obtain delay r where r: "answer env (tick w) (sent w) (rq, body) = (delay, H_Response r)"
    "if get_str ''method'' body = Some ''notifications/initialized'' then rs_status r = 202
     else \<exists>v sid result. classify_response env r = W_Json v sid \<and> jget ''error'' v = None \<and> jget ''result'' v = Some result"
    using assms unfolding serving_def by meson
  have "fst (dispatch env rq body w) = classify_response env r"
    using assms r(1) by (simp add: serving_def dispatch_def Let_def)
  with r(2) show ?thesis
    by (cases "dispatch env rq body w") (auto simp: classify_response_def finish_def rpc_error_def split: if_splits)
qed

lemma serving_try_request:
  assumes "serving env" "mthd \<noteq> ''notifications/initialized''"
  shows "\<exists>v st'. try_request env tr mthd params st = (Inr (Some v), st')"
proof -
  obtain s w where st: "st = (s, w)" by force
  let ?s = "s\<lparr>next_id := wrap_i64 (next_id s + 1)\<rparr>"
  from serving_dispatch [OF assms(1), of "build ?s tr (session_id s) True" "rpc_request (next_id s) mthd params" w] assms(2)
  obtain v sid result w' where "dispatch env (build ?s tr (session_id s) True) (rpc_request (next_id s) mthd params) w = (W_Json v sid, w')"
    "\<forall>rid. finish v rid = Inr result" by auto
  then show ?thesis by (simp add: st try_request_def take_id_def exchange_checked_def eff_simps)
qed

lemma serving_initialize:
  assumes "serving env"
  shows "\<exists>st'. initialize_session env tr st = (Inr (), st')"
proof -
  obtain s w where st: "st = (s, w)" by force
  let ?s = "s\<lparr>next_id := wrap_i64 (next_id s + 1)\<rparr>"
  from serving_dispatch [OF assms, of "build ?s tr None False" "rpc_request (next_id s) ''initialize'' initialize_params" w]
  obtain v sid result w1 where d: "dispatch env (build ?s tr None False) (rpc_request (next_id s) ''initialize'' initialize_params) w = (W_Json v sid, w1)"
    "\<forall>rid. finish v rid = Inr result" by auto
  let ?n = "negotiated result sid (clock w1) ?s"
  from serving_dispatch [OF assms, of "build ?n tr (session_id ?n) True" initialized_note w1]
  obtain w2 where "dispatch env (build ?n tr (session_id ?n) True) initialized_note w1 = (W_Accepted, w2)" by auto
  with d show ?thesis by (simp add: st initialize_session_def take_id_def exchange_def notify_def eff_simps)
qed

definition rpc_methods :: "(http_request \<times> json) list \<Rightarrow> string option list" where
  "rpc_methods xs = map (\<lambda>x. get_str ''method'' (snd x)) xs"

lemma rpc_methods_shape: "rpc_methods xs = map fst (map wire_shape xs)"
  by (simp add: rpc_methods_def wire_shape_def)

definition cached :: "resolved \<Rightarrow> 'z session_store_scheme \<Rightarrow> bool" where
  "cached res b \<longleftrightarrow> (\<exists>s. sessions b (session_key_of res) = Some s \<and> ms_url s = so_url (options res))"

lemma serving_request:
  assumes "serving env" "mthd \<noteq> ''notifications/initialized''"
  shows "\<exists>v s' w' new. session_request env tr mthd params (s, w) = (Inr v, (s', w')) \<and> ms_url s' = ms_url s
    \<and> sends w new w' \<and> rpc_methods new = [Some mthd]"
proof -
  obtain v s' w' where t: "try_request env tr mthd params (s, w) = (Inr (Some v), (s', w'))"
    using serving_try_request [OF assms, of tr params "(s, w)"] by (metis surj_pair)
  from try_request_sends [OF t] obtain new where new: "same_identity s s'" "sends w new w'"
    "prefix (map wire_shape new) [request_shape mthd s tr]" "new \<noteq> []" by auto
  then have "map wire_shape new = [request_shape mthd s tr]" by (cases new) auto
  then have "rpc_methods new = [Some mthd]" by (simp add: rpc_methods_shape request_shape_def del: map_map)
  with t new show ?thesis by (auto simp: session_request_def eff_simps same_identity_def)
qed

lemma serving_checkout:
  assumes "serving env"
  shows "\<exists>s b' new. checkout env res b = (Inr s, b') \<and> ms_url s = so_url (options res) \<and> sent b' = sent b @ new
    \<and> rpc_methods new = (if cached res b then [] else [Some ''initialize'', Some ''notifications/initialized''])"
proof (cases "cached res b")
  case True
  then show ?thesis by (auto simp: cached_def checkout_def rpc_methods_def)
next
  case False
  let ?b = "b\<lparr>sessions := (sessions b)(session_key_of res := None)\<rparr>"
  let ?tr = "session_transport res False" and ?url = "so_url (options res)"
  obtain s b' where i: "initialize_session env ?tr (fresh_session ?url (clock ?b), ?b) = (Inr (), (s, b'))"
    using serving_initialize [OF assms] by (metis surj_pair)
  then have o: "open_session env ?url ?tr ?b = (Inr s, b')" by (simp add: open_session_def)
  from open_session_sends [OF o] obtain new where new: "sends ?b new b'" "ms_url s = ?url"
    "map wire_shape new = handshake_shape s ?tr" by blast
  have "rpc_methods new = [Some ''initialize'', Some ''notifications/initialized'']"
    by (simp add: rpc_methods_shape new(3) handshake_shape_def del: map_map)
  moreover have "checkout env res b = (Inr s, b')"
    using False o by (auto simp: checkout_def cached_def Let_def split: option.splits)
  ultimately show ?thesis using new False by (auto simp: sends_def)
qed

lemma serving_with_session:
  assumes "serving env" "mthd \<noteq> ''notifications/initialized''"
  shows "\<exists>v b' new. with_session env res (\<lambda>tr. session_request env tr mthd params) b = (Inr v, b') \<and> cached res b'
    \<and> sent b' = sent b @ new
    \<and> rpc_methods new = (if cached res b then [] else [Some ''initialize'', Some ''notifications/initialized'']) @ [Some mthd]"
proof -
  from serving_checkout [OF assms(1), of res b] obtain s b1 new1 where c: "checkout env res b = (Inr s, b1)"
    "ms_url s = so_url (options res)" "sent b1 = sent b @ new1"
    "rpc_methods new1 = (if cached res b then [] else [Some ''initialize'', Some ''notifications/initialized''])" by blast
  from serving_request [OF assms, of "session_transport res True" params s b1] obtain v s' b2 new2 where
    r: "session_request env (session_transport res True) mthd params (s, b1) = (Inr v, (s', b2))" "ms_url s' = ms_url s"
    "sends b1 new2 b2" "rpc_methods new2 = [Some mthd]" by blast
  have "rpc_methods (new1 @ new2) = rpc_methods new1 @ rpc_methods new2" by (simp add: rpc_methods_def)
  with c r show ?thesis
    by (auto simp: with_session_def is_transport_def cached_def sends_def intro!: exI [of _ "new1 @ new2"])
qed

text \<open>C26. Against a server that is up, any number of calls succeed and share one handshake: the messages on the
  wire are \<^verbatim>\<open>initialize\<close> and \<^verbatim>\<open>notifications/initialized\<close> if no session for the server's URL was cached,
  and then exactly one message per call, in order.\<close>

theorem one_handshake:
  assumes "serving env" and "\<forall>(mthd, params) \<in> set calls. mthd \<noteq> ''notifications/initialized''"
  shows "\<exists>vs b' new. emap (\<lambda>(mthd, params). with_session env res (\<lambda>tr. session_request env tr mthd params)) calls b = (Inr vs, b')
    \<and> length vs = length calls \<and> sent b' = sent b @ new
    \<and> rpc_methods new = (if calls = [] \<or> cached res b then [] else [Some ''initialize'', Some ''notifications/initialized''])
        @ map (Some \<circ> fst) calls"
  using assms(2)
proof (induction calls arbitrary: b)
  case Nil
  then show ?case by (simp add: eff_simps rpc_methods_def)
next
  case (Cons c calls)
  obtain m p where c: "c = (m, p)" by force
  with Cons.prems have m: "m \<noteq> ''notifications/initialized''" by auto
  from serving_with_session [OF assms(1) m, of res p b] obtain v b1 new1 where
    s: "with_session env res (\<lambda>tr. session_request env tr m p) b = (Inr v, b1)" "cached res b1" "sent b1 = sent b @ new1"
    "rpc_methods new1 = (if cached res b then [] else [Some ''initialize'', Some ''notifications/initialized'']) @ [Some m]" by blast
  from Cons.IH [of b1] Cons.prems obtain vs b2 new2 where
    r: "emap (\<lambda>(mthd, params). with_session env res (\<lambda>tr. session_request env tr mthd params)) calls b1 = (Inr vs, b2)"
    "length vs = length calls" "sent b2 = sent b1 @ new2"
    "rpc_methods new2 = (if calls = [] \<or> cached res b1 then [] else [Some ''initialize'', Some ''notifications/initialized''])
        @ map (Some \<circ> fst) calls" by auto
  have "rpc_methods (new1 @ new2) = rpc_methods new1 @ rpc_methods new2" by (simp add: rpc_methods_def)
  with s r c show ?case by (auto simp: eff_simps intro!: exI [of _ "new1 @ new2"])
qed

definition steady_server :: env where
  "steady_server = \<lparr>
     answer = (\<lambda>n log (rq, body).
       (5, H_Response \<lparr>rs_status = (if get_str ''method'' body = Some ''notifications/initialized'' then 202 else 200),
              rs_header = (\<lambda>k. None), rs_body = Inr ''R'', rs_stream = SEof 0\<rparr>)),
     interrupt = (\<lambda>_. None), encode_error = (\<lambda>_. None),
     from_json_str = (\<lambda>_. Some (JObj [(''result'', JBool True)]))\<rparr>"

lemma serving_steady_server: "serving steady_server"
  by (simp add: serving_def steady_server_def classify_response_def read_body_def MAX_JSON_BODY_def
      to_ascii_lowercase_def byte_def)

theorem one_handshake_witness:
  "\<exists>vs b'. emap (\<lambda>(mthd, params). with_session steady_server role_five (\<lambda>tr. session_request steady_server tr mthd params))
       [(''tools/list'', JObj []), (''tools/call'', JObj [])] other_role_store = (Inr vs, b') \<and> length vs = 2
     \<and> rpc_methods (sent b') =
         [Some ''initialize'', Some ''notifications/initialized'', Some ''tools/list'', Some ''tools/call'']"
proof -
  have "\<not> cached role_five other_role_store"
    by (simp add: cached_def role_five_def other_role_store_def session_key_of_def)
  with one_handshake [OF serving_steady_server, of "[(''tools/list'', JObj []), (''tools/call'', JObj [])]" role_five other_role_store]
  show ?thesis by (auto simp: other_role_store_def)
qed

end
