(* ===== verification/Cache.thy ===== *)
theory Cache
  imports Session
begin

text \<open>
  \<^verbatim>\<open>cache.rs\<close>: the catalog cache, one store of slices per server and role. Entries carry the clock
  reading of their fetch; the clock counts milliseconds.
\<close>

section \<open>Operations\<close>

datatype slice = Slice_Tools | Slice_Prompts | Slice_Resources | Slice_ResourceTemplates | Slice_Initialize

record cache_entry =
  fetched_at :: nat
  cached_items :: "json list"

record catalog_store = session_store +
  caches :: "session_key \<Rightarrow> (slice \<Rightarrow> cache_entry option) option"

definition cache_lookup :: "session_key \<Rightarrow> slice \<Rightarrow> 'z catalog_store_scheme \<Rightarrow> cache_entry option" where
  "cache_lookup key sl b = Option.bind (caches b key) (\<lambda>entries. entries sl)"

definition cache_insert :: "session_key \<Rightarrow> slice \<Rightarrow> json list \<Rightarrow> 'z catalog_store_scheme \<Rightarrow> 'z catalog_store_scheme" where
  "cache_insert key sl items b =
     b\<lparr>caches := (caches b)(key \<mapsto>
        (unwrap_or (caches b key) (\<lambda>_. None))(sl \<mapsto> \<lparr>fetched_at = clock b, cached_items = items\<rparr>))\<rparr>"

text \<open>
  The fetch closure runs on whatever state surrounds the cache: the backend, or the backend with a
  session checked out of it. \<open>vw\<close> and \<open>upd\<close> give access to the backend in that state.
\<close>

definition get_or_fetch ::
  "('s \<Rightarrow> 'z catalog_store_scheme) \<Rightarrow> (('z catalog_store_scheme \<Rightarrow> 'z catalog_store_scheme) \<Rightarrow> 's \<Rightarrow> 's)
   \<Rightarrow> session_key \<Rightarrow> nat \<Rightarrow> slice \<Rightarrow> ('s, json list) eff \<Rightarrow> ('s, json list) eff"
where
  "get_or_fetch vw upd key ttl_ms sl fetch st =
     (if ttl_ms = 0 then fetch st
      else
        (let hit = (case cache_lookup key sl (vw st) of
                      None \<Rightarrow> None
                    | Some entry \<Rightarrow> if clock (vw st) - fetched_at entry < ttl_ms then Some (cached_items entry) else None)
         in case hit of
              Some items \<Rightarrow> (Inr items, st)
            | None \<Rightarrow>
                (case fetch st of
                   (Inl e, st') \<Rightarrow> (Inl e, st')
                 | (Inr items, st') \<Rightarrow> (Inr items, upd (cache_insert key sl items) st'))))"

definition drop_tools :: "session_key \<Rightarrow> 'z catalog_store_scheme \<Rightarrow> bool \<times> 'z catalog_store_scheme" where
  "drop_tools key b =
     (case caches b key of
        None \<Rightarrow> (False, b)
      | Some entries \<Rightarrow>
          (entries Slice_Tools \<noteq> None, b\<lparr>caches := (caches b)(key \<mapsto> entries(Slice_Tools := None))\<rparr>))"

definition drop_cache :: "session_key \<Rightarrow> 'z catalog_store_scheme \<Rightarrow> bool \<times> 'z catalog_store_scheme" where
  "drop_cache key b =
     ((case caches b key of None \<Rightarrow> False | Some entries \<Rightarrow> entries \<noteq> (\<lambda>_. None)),
      b\<lparr>caches := (caches b)(key := None)\<rparr>)"

section \<open>Lookup laws\<close>

lemma cache_lookup_insert [simp]:
  "cache_lookup k sl (cache_insert key sl' items b) =
     (if k = key \<and> sl = sl' then Some \<lparr>fetched_at = clock b, cached_items = items\<rparr> else cache_lookup k sl b)"
  by (cases "caches b key") (auto simp: cache_lookup_def cache_insert_def)

lemma cache_lookup_drop_tools [simp]:
  "cache_lookup k sl (snd (drop_tools key b)) = (if k = key \<and> sl = Slice_Tools then None else cache_lookup k sl b)"
  by (auto simp: cache_lookup_def drop_tools_def split: option.splits)

lemma cache_lookup_drop [simp]:
  "cache_lookup k sl (snd (drop_cache key b)) = (if k = key then None else cache_lookup k sl b)"
  by (auto simp: cache_lookup_def drop_cache_def)

lemma cache_frame [simp]:
  "sessions (cache_insert key sl items b) = sessions b" "sent (cache_insert key sl items b) = sent b"
  "clock (cache_insert key sl items b) = clock b" "tick (cache_insert key sl items b) = tick b"
  "sessions (snd (drop_tools key b)) = sessions b" "sent (snd (drop_tools key b)) = sent b"
  "clock (snd (drop_tools key b)) = clock b" "tick (snd (drop_tools key b)) = tick b"
  by (simp_all add: cache_insert_def drop_tools_def split: option.splits)

text \<open>
  Staleness. \<open>truth t\<close> is the listing the server would give for a slice at time \<open>t\<close>. If every fetch
  returns the listing of its own moment, every entry is true of the time it is stamped with, and
  that survives every access.
\<close>

definition honest :: "('s \<Rightarrow> 'z catalog_store_scheme) \<Rightarrow> session_key \<Rightarrow> slice \<Rightarrow> (nat \<Rightarrow> json list) \<Rightarrow> 's \<Rightarrow> bool" where
  "honest vw key sl truth st \<longleftrightarrow> (\<forall>entry. cache_lookup key sl (vw st) = Some entry \<longrightarrow>
     cached_items entry = truth (fetched_at entry) \<and> fetched_at entry \<le> clock (vw st))"

definition true_fetch ::
  "('s \<Rightarrow> 'z catalog_store_scheme) \<Rightarrow> session_key \<Rightarrow> slice \<Rightarrow> (nat \<Rightarrow> json list) \<Rightarrow> ('s, json list) eff \<Rightarrow> bool"
where
  "true_fetch vw key sl truth fetch \<longleftrightarrow> (\<forall>st r st'. fetch st = (r, st') \<longrightarrow>
     clock (vw st) \<le> clock (vw st') \<and> cache_lookup key sl (vw st') = cache_lookup key sl (vw st)
     \<and> (\<forall>items. r = Inr items \<longrightarrow> items = truth (clock (vw st'))))"

lemma honest_mono:
  "honest vw key sl truth st \<Longrightarrow> cache_lookup key sl (vw st') = cache_lookup key sl (vw st)
   \<Longrightarrow> clock (vw st) \<le> clock (vw st') \<Longrightarrow> honest vw key sl truth st'"
  unfolding honest_def by (metis order_trans)

text \<open>
  The interface the cache is used through: reading and updating the backend inside a larger state.
  Both contexts of the code satisfy it, the backend alone and the backend beside a session.
\<close>

locale cache_view =
  fixes vw :: "'s \<Rightarrow> 'z catalog_store_scheme"
    and upd :: "('z catalog_store_scheme \<Rightarrow> 'z catalog_store_scheme) \<Rightarrow> 's \<Rightarrow> 's"
  assumes view_upd: "vw (upd f st) = f (vw st)"
begin

lemma get_or_fetch_cases:
  assumes "get_or_fetch vw upd key ttl sl fetch st = (r, st')"
  obtains (hit) entry where "ttl \<noteq> 0" "cache_lookup key sl (vw st) = Some entry"
      "clock (vw st) - fetched_at entry < ttl" "r = Inr (cached_items entry)" "st' = st"
  | (uncached) "ttl = 0 \<or> (\<exists>e. r = Inl e)" "fetch st = (r, st')"
  | (stored) items s1 where "ttl \<noteq> 0" "fetch st = (Inr items, s1)" "r = Inr items" "st' = upd (cache_insert key sl items) s1"
proof (cases "\<exists>entry. ttl \<noteq> 0 \<and> cache_lookup key sl (vw st) = Some entry \<and> clock (vw st) - fetched_at entry < ttl")
  case True
  then obtain entry where e: "ttl \<noteq> 0" "cache_lookup key sl (vw st) = Some entry" "clock (vw st) - fetched_at entry < ttl" by blast
  with assms have "r = Inr (cached_items entry)" "st' = st" by (simp_all add: get_or_fetch_def)
  with e hit show thesis by blast
next
  case False
  obtain x s1 where x: "fetch st = (x, s1)" by force
  show thesis
  proof (cases "ttl = 0")
    case True
    with assms uncached show thesis by (simp add: get_or_fetch_def)
  next
    case ttl: False
    have miss: "get_or_fetch vw upd key ttl sl fetch st =
        (case x of Inl e \<Rightarrow> (Inl e, s1) | Inr items \<Rightarrow> (Inr items, upd (cache_insert key sl items) s1))"
      using False ttl x by (cases "cache_lookup key sl (vw st)"; cases x) (simp_all add: get_or_fetch_def)
    show thesis
    proof (cases x)
      case (Inl e)
      with miss assms x have "r = Inl e" "fetch st = (r, st')" by simp_all
      then show thesis by (intro uncached) simp_all
    next
      case (Inr items)
      with miss assms x ttl show thesis by (intro stored [of items s1]) simp_all
    qed
  qed
qed

lemma staleness_bound:
  assumes h: "honest vw key sl truth st" and f: "true_fetch vw key sl truth fetch"
    and run: "get_or_fetch vw upd key ttl sl fetch st = (r, st')"
  shows "honest vw key sl truth st'
    \<and> (\<forall>items. r = Inr items \<longrightarrow> (\<exists>t. items = truth t \<and> t \<le> clock (vw st') \<and> (t = clock (vw st') \<or> clock (vw st') - t < ttl)))"
  using run
proof (cases rule: get_or_fetch_cases)
  case (hit entry)
  with h show ?thesis by (auto simp: honest_def)
next
  case uncached
  with f have "clock (vw st) \<le> clock (vw st')" "cache_lookup key sl (vw st') = cache_lookup key sl (vw st)"
    "\<forall>items. r = Inr items \<longrightarrow> items = truth (clock (vw st'))" unfolding true_fetch_def by blast+
  with honest_mono [OF h] show ?thesis by auto
next
  case (stored items s1)
  with f have "items = truth (clock (vw s1))" unfolding true_fetch_def by blast
  with stored show ?thesis by (auto simp: honest_def view_upd)
qed

text \<open>Only the entry asked for can change, beyond what the fetch itself does.\<close>

lemma other_entries:
  assumes "get_or_fetch vw upd key ttl sl fetch st = (r, st')" "(k, t) \<noteq> (key, sl)"
  shows "cache_lookup k t (vw st') \<in> {cache_lookup k t (vw st), cache_lookup k t (vw (snd (fetch st)))}"
  using assms(1)
proof (cases rule: get_or_fetch_cases)
  case (stored items s1)
  from assms(2) have "\<not> (k = key \<and> t = sl)" by simp
  then have "cache_lookup k t (vw st') = cache_lookup k t (vw s1)"
    by (simp only: stored(4) view_upd cache_lookup_insert if_False)
  with stored(2) show ?thesis by simp
qed simp_all

end

interpretation backend_cache: cache_view "\<lambda>b. b" "\<lambda>f. f"
  by unfold_locales simp

interpretation session_cache: cache_view snd apsnd
  by unfold_locales simp

context evolution
begin

lemma evo_get_or_fetch:
  assumes "evolves R fetch" "\<And>items st. R st (upd (cache_insert key sl items) st)"
  shows "evolves R (get_or_fetch vw upd key ttl sl fetch)"
proof (rule evolvesI)
  fix st
  obtain x s1 where x: "fetch st = (x, s1)" by force
  have "R st s1" by (rule evolvesD [OF assms(1) x])
  moreover from this assms(2) have "R st (upd (cache_insert key sl items) s1)" for items using evo_trans by blast
  ultimately show "R st (snd (get_or_fetch vw upd key ttl sl fetch st))"
    using x evo_refl by (simp add: get_or_fetch_def Let_def split: option.splits sum.splits)
qed

end

text \<open>
  \<open>own res b b'\<close>: what happened concerned one role on one server, its cache included. The wire log
  grew by exchanges addressed there with that role's credential; other keys kept their sessions and
  their cached slices, and nothing beyond sessions and caches changed.
\<close>

definition own :: "resolved \<Rightarrow> 'z catalog_store_scheme \<Rightarrow> 'z catalog_store_scheme \<Rightarrow> bool" where
  "own res b b' \<longleftrightarrow> (\<exists>new. sent b' = sent b @ new \<and> (\<forall>x \<in> set new. addressed res x))
     \<and> clock b \<le> clock b' \<and> tick b \<le> tick b'
     \<and> (\<forall>k. k \<noteq> session_key_of res \<longrightarrow> sessions b' k = sessions b k \<and> caches b' k = caches b k)
     \<and> catalog_store.more b' = catalog_store.more b"

lemma more_catalog:
  fixes b :: "'z catalog_store_scheme"
  shows "session_store.more b' = session_store.more b \<Longrightarrow> caches b' = caches b \<and> catalog_store.more b' = catalog_store.more b"
  by (cases b; cases b') simp

interpretation own_scope: role_scope "own res" res for res
proof
  show "own res s s" for s :: "'z catalog_store_scheme" by (simp add: own_def)
  show "own res s t \<Longrightarrow> own res t u \<Longrightarrow> own res s u" for s t u :: "'z catalog_store_scheme"
    by (fastforce simp: own_def)
  show "own res b b'" if "confined res b b'" for b b' :: "'z catalog_store_scheme"
    using that more_catalog [of b' b] by (simp add: confined_def own_def)
  show "own res b b' \<Longrightarrow> own res b (b'\<lparr>sessions := (sessions b')(session_key_of res := v)\<rparr>)"
    for b b' :: "'z catalog_store_scheme" and v by (simp add: own_def)
qed

lemma own_cache_insert: "key = session_key_of res \<Longrightarrow> own res b (cache_insert key sl items b)"
  by (simp add: own_def cache_insert_def)

lemma own_drop_tools: "key = session_key_of res \<Longrightarrow> own res b (snd (drop_tools key b))"
  by (simp add: own_def drop_tools_def split: option.splits)

lemma own_drop_cache: "key = session_key_of res \<Longrightarrow> own res b (snd (drop_cache key b))"
  by (simp add: own_def drop_cache_def)

section \<open>Guarantees\<close>

text \<open>C28. The TTL is a guarantee. If each fetch returns the server's listing of its moment, then whatever the
  cache answers is the listing as of some time at most \<^verbatim>\<open>ttl_ms\<close> before, or of this very moment when
  it had to fetch; and every entry of the slice stays true of the time it is stamped with, so the
  guarantee holds for the next access as well.\<close>

theorem cache_staleness:
  assumes "honest snd key sl truth st" and "true_fetch snd key sl truth fetch"
    and "get_or_fetch snd apsnd key ttl sl fetch st = (Inr items, st')"
  shows "honest snd key sl truth st'
    \<and> (\<exists>t. items = truth t \<and> t \<le> clock (snd st') \<and> (t = clock (snd st') \<or> clock (snd st') - t < ttl))"
  using session_cache.staleness_bound [OF assms] by blast

definition listing_at :: "nat \<Rightarrow> json list" where
  "listing_at t = (if t < 20 then [JNull] else [])"

definition warm_store :: catalog_store where
  "warm_store = \<lparr>sent = [], clock = 40, tick = 0, sessions = (\<lambda>_. None),
     caches = [(1, 5) \<mapsto> [Slice_Tools \<mapsto> \<lparr>fetched_at = 10, cached_items = [JNull]\<rparr>]]\<rparr>"

theorem cache_staleness_witness:
  "\<exists>items st'. get_or_fetch snd apsnd (1, 5) 50 Slice_Tools (\<lambda>st. (Inr (listing_at (clock (snd st))), st)) (old_session, warm_store)
       = (Inr items, st') \<and> items = [JNull] \<and> (\<exists>t. items = listing_at t \<and> clock (snd st') - t < 50)"
proof -
  let ?f = "\<lambda>st. (Inr (listing_at (clock (snd st))), st) :: json list mcp_result \<times> mcp_session \<times> catalog_store"
  have h: "honest snd (1, 5) Slice_Tools listing_at (old_session, warm_store)"
    by (simp add: honest_def cache_lookup_def warm_store_def listing_at_def)
  have f: "true_fetch snd (1, 5) Slice_Tools listing_at ?f" by (auto simp: true_fetch_def)
  have run: "get_or_fetch snd apsnd (1, 5) 50 Slice_Tools ?f (old_session, warm_store) = (Inr [JNull], (old_session, warm_store))"
    by (simp add: get_or_fetch_def cache_lookup_def warm_store_def)
  from cache_staleness [OF h f run] run show ?thesis by (auto simp: warm_store_def)
qed

text \<open>The cache keeps what it may and nothing else: a failed fetch and a disabled cache (TTL 0) leave the
  entries to the fetch alone, no access touches another role's, another server's or another
  slice's entry, dropping the tools slice removes exactly that entry, and a refresh removes exactly
  the role's entries on that server.\<close>

theorem cache_isolation:
  "(case get_or_fetch (\<lambda>b. b) (\<lambda>f. f) key ttl sl fetch b of (r, b') \<Rightarrow>
      (ttl = 0 \<or> (\<exists>e. r = Inl e) \<longrightarrow> (r, b') = fetch b)
      \<and> ((k, t) \<noteq> (key, sl) \<longrightarrow> cache_lookup k t b' \<in> {cache_lookup k t b, cache_lookup k t (snd (fetch b))}))
   \<and> cache_lookup k t (snd (drop_tools key b)) = (if k = key \<and> t = Slice_Tools then None else cache_lookup k t b)
   \<and> cache_lookup k t (snd (drop_cache key b)) = (if k = key then None else cache_lookup k t b)"
proof -
  obtain r b' where run: "get_or_fetch (\<lambda>b. b) (\<lambda>f. f) key ttl sl fetch b = (r, b')" by force
  have "(r, b') = fetch b" if "ttl = 0 \<or> (\<exists>e. r = Inl e)"
    using run by (cases rule: backend_cache.get_or_fetch_cases) (use that in auto)
  with backend_cache.other_entries [OF run, of k t] run show ?thesis by simp
qed

theorem cache_isolation_witness:
  "cache_lookup (1, 5) Slice_Tools (snd (get_or_fetch (\<lambda>b. b) (\<lambda>f. f) (1, 9) 50 Slice_Tools (\<lambda>b. (Inr [], b)) warm_store))
     = Some \<lparr>fetched_at = 10, cached_items = [JNull]\<rparr>
   \<and> get_or_fetch (\<lambda>b. b) (\<lambda>f. f) (1, 9) 50 Slice_Tools (\<lambda>b. (Inl (Transport ''down''), b)) warm_store = (Inl (Transport ''down''), warm_store)"
proof -
  have e: "cache_lookup (1, 5) Slice_Tools warm_store = Some \<lparr>fetched_at = 10, cached_items = [JNull]\<rparr>"
    by (simp add: cache_lookup_def warm_store_def)
  obtain r b' where ok: "get_or_fetch (\<lambda>b. b) (\<lambda>f. f) (1, 9) 50 Slice_Tools (\<lambda>b. (Inr [], b)) warm_store = (r, b')" by force
  have "fst (get_or_fetch (\<lambda>b. b) (\<lambda>f. f) (1, 9) 50 Slice_Tools (\<lambda>b. (Inl (Transport ''down''), b)) warm_store) = Inl (Transport ''down'')"
    by (simp add: get_or_fetch_def cache_lookup_def warm_store_def)
  then obtain b'' where bad: "get_or_fetch (\<lambda>b. b) (\<lambda>f. f) (1, 9) 50 Slice_Tools (\<lambda>b. (Inl (Transport ''down''), b)) warm_store = (Inl (Transport ''down''), b'')"
    by (metis prod.collapse)
  from cache_isolation [where key = "(1, 9)" and ttl = 50 and sl = Slice_Tools and fetch = "\<lambda>b. (Inr [], b)" and b = warm_store
      and k = "(1, 5)" and t = Slice_Tools] ok e
  have "cache_lookup (1, 5) Slice_Tools b' = Some \<lparr>fetched_at = 10, cached_items = [JNull]\<rparr>" by auto
  moreover from cache_isolation [where key = "(1, 9)" and ttl = 50 and sl = Slice_Tools and fetch = "\<lambda>b. (Inl (Transport ''down''), b)" and b = warm_store]
  have "b'' = warm_store" unfolding bad by auto
  ultimately show ?thesis using ok bad by simp
qed

end
