(* ===== verification/Table_Context.thy ===== *)
theory Table_Context
  imports Import Cache
begin

text \<open>
  \<^verbatim>\<open>tables/mod.rs\<close>, second part: the contexts a table handler receives, which columns each handler
  filters on, and the typing of rows that the executor's slot writer relies on.
\<close>

section \<open>Contexts\<close>

record table_context =
  tc_spec :: table_spec
  tc_server_name :: string
  tc_resolved :: resolved
  tc_options :: "(string \<times> string) list"

record scan_context =
  sc_base :: table_context
  sc_quals :: "qual list"

definition cache_key :: "table_context \<Rightarrow> session_key" where
  "cache_key ctx = (server_oid (tc_resolved ctx), user_oid (tc_resolved ctx))"

definition table_option :: "table_context \<Rightarrow> string \<Rightarrow> string option" where
  "table_option ctx key = map_option snd (find (\<lambda>(k, _). k = key) (tc_options ctx))"

definition table_ttl_ms :: "table_context \<Rightarrow> nat option" where
  "table_ttl_ms ctx = Option.bind (table_option ctx TABLE_OPTION_CACHE_TTL_MS) (\<lambda>v. parse_u64 (trim v))"

definition upstream :: "table_context \<Rightarrow> string option" where
  "upstream ctx = table_option ctx TABLE_OPTION_UPSTREAM"

definition ctx_restricted_values :: "scan_context \<Rightarrow> string \<Rightarrow> json list" where
  "ctx_restricted_values ctx column =
     concat (map restricted_values (filter (\<lambda>q. field q = column) (sc_quals ctx)))"

fun pushdown_columns :: "handler \<Rightarrow> string list" where
  "pushdown_columns TOOLS_TABLE = [''name'']"
| "pushdown_columns PROMPTS_TABLE = [''name'']"
| "pushdown_columns PROMPT_ARGUMENTS_TABLE = [''prompt'']"
| "pushdown_columns RESOURCE_CONTENTS_TABLE = [''uri'']"
| "pushdown_columns PROMPT_MESSAGES_TABLE = [''prompt'', ''arguments'']"
| "pushdown_columns COMPLETIONS_TABLE = [''ref'', ''argument_name'', ''argument_value'']"
| "pushdown_columns TOOL_CALLS_TABLE = [''tool'', ''id'']"
| "pushdown_columns _ = []"

definition insert_unsupported :: mcp_error where
  "insert_unsupported = FeatureNotSupported
     (''INSERT is only supported on mcp.tool_calls (PRD-7 '' @ sect_sign @ ''4.7)'')"

lemma cache_key_session_key: "cache_key ctx = session_key_of (tc_resolved ctx)"
  by (simp add: cache_key_def session_key_of_def)

section \<open>Typed rows\<close>

fun cell_type :: "cell \<Rightarrow> column_type" where
  "cell_type (Cell_Text _) = Ty_Text"
| "cell_type (Cell_Json _) = Ty_Jsonb"
| "cell_type (Cell_Bool _) = Ty_Boolean"
| "cell_type (Cell_Int4 _) = Ty_Int4"
| "cell_type (Cell_Int8 _) = Ty_Int8"
| "cell_type (Cell_Bytea _) = Ty_Bytea"
| "cell_type (Cell_Uuid _) = Ty_Uuid"
| "cell_type (Cell_TimestampTz _) = Ty_TimestampTz"
| "cell_type (Cell_Float8 _) = Ty_Float8"
| "cell_type (Cell_Date _) = Ty_Date"

text \<open>A row of a table: full width, every cell NULL or of its column's type.\<close>

definition cell_fits :: "column_type \<Rightarrow> cell option \<Rightarrow> bool" where
  "cell_fits ty c \<longleftrightarrow> (\<forall>v. c = Some v \<longrightarrow> cell_type v = ty)"

definition row_typed :: "table_spec \<Rightarrow> row \<Rightarrow> bool" where
  "row_typed sp r \<longleftrightarrow> list_all2 (\<lambda>col c. cell_fits (pg_type col) c) (columns sp) r"

text \<open>Both ways the handlers write a cell: by column name, unknown names ignored.\<close>

definition set_cell :: "table_spec \<Rightarrow> string \<Rightarrow> cell option \<Rightarrow> row \<Rightarrow> row" where
  "set_cell sp column cell r = (case attno sp column of Some n \<Rightarrow> r[n - 1 := cell] | None \<Rightarrow> r)"

named_theorems row_intros \<open>typing rules of the row builders\<close>

lemma row_typed_empty [row_intros]: "row_typed sp (empty_row sp)"
  by (simp add: row_typed_def empty_row_def arity_def list_all2_conv_all_nth cell_fits_def)

definition column_type_of :: "table_spec \<Rightarrow> string \<Rightarrow> column_type option" where
  "column_type_of sp name = map_option (\<lambda>n. pg_type (columns sp ! (n - 1))) (attno sp name)"

lemma row_typed_set:
  assumes "row_typed sp r" "\<And>ty. column_type_of sp column = Some ty \<Longrightarrow> cell_fits ty cell"
  shows "row_typed sp (set_cell sp column cell r)"
proof (cases "attno sp column")
  case (Some n)
  then have "cell_fits (pg_type (columns sp ! (n - 1))) cell" by (intro assms(2)) (simp add: column_type_of_def)
  with assms(1) have "cell_fits (pg_type (columns sp ! i)) (r[n - 1 := cell] ! i)" if "i < length r" for i
    using that by (cases "i = n - 1") (simp_all add: row_typed_def list_all2_conv_all_nth)
  with assms(1) Some show ?thesis by (simp add: row_typed_def set_cell_def list_all2_conv_all_nth)
qed (simp add: set_cell_def assms(1))

lemma row_typed_length: "row_typed sp r \<Longrightarrow> length r = arity sp"
  by (auto simp: row_typed_def arity_def dest: list_all2_lengthD)

end
