(* ===== verification/Catalog.thy ===== *)
theory Catalog
  imports Table_Context
begin

text \<open>
  \<^verbatim>\<open>tables/catalog.rs\<close>: the six catalog tables. Items come from a list method through the catalog
  cache, are scoped to an upstream, projected to rows, filtered by the pushed quals and replayed by
  a buffered cursor.
\<close>

section \<open>Projection\<close>

definition text_at :: "json \<Rightarrow> string \<Rightarrow> cell option" where
  "text_at item key = map_option Cell_Text (get_str key item)"

definition json_at :: "json \<Rightarrow> string \<Rightarrow> cell option" where
  "json_at item key = (case jget key item of None \<Rightarrow> None | Some JNull \<Rightarrow> None | Some v \<Rightarrow> Some (Cell_Json v))"

definition annotation :: "json \<Rightarrow> string \<Rightarrow> cell option" where
  "annotation item hint = map_option Cell_Bool (Option.bind (jget ''annotations'' item) (get_bool hint))"

definition bool_at :: "json \<Rightarrow> string \<Rightarrow> cell option" where
  "bool_at item key = map_option Cell_Bool (get_bool key item)"

definition int8_at :: "json \<Rightarrow> string \<Rightarrow> cell option" where
  "int8_at item key = map_option Cell_Int8 (get_i64 key item)"

text \<open>\<^verbatim>\<open>idx as i32\<close>: the low 32 bits, read as a signed number.\<close>

definition as_i32 :: "int \<Rightarrow> int" where
  "as_i32 i = (i + 2 ^ 31) mod 2 ^ 32 - 2 ^ 31"

definition tools_row :: "table_spec \<Rightarrow> json \<Rightarrow> row" where
  "tools_row sp item =
     (set_cell sp ''meta'' (json_at item ''_meta'')
    \<circ> set_cell sp ''open_world'' (annotation item ''openWorldHint'')
    \<circ> set_cell sp ''idempotent'' (annotation item ''idempotentHint'')
    \<circ> set_cell sp ''destructive'' (annotation item ''destructiveHint'')
    \<circ> set_cell sp ''read_only'' (annotation item ''readOnlyHint'')
    \<circ> set_cell sp ''annotations'' (json_at item ''annotations'')
    \<circ> set_cell sp ''output_schema'' (json_at item ''outputSchema'')
    \<circ> set_cell sp ''input_schema'' (json_at item ''inputSchema'')
    \<circ> set_cell sp ''description'' (text_at item ''description'')
    \<circ> set_cell sp ''title'' (text_at item ''title'')
    \<circ> set_cell sp ''name'' (text_at item ''name'')) (empty_row sp)"

definition prompts_row :: "table_spec \<Rightarrow> json \<Rightarrow> row" where
  "prompts_row sp item =
     (set_cell sp ''meta'' (json_at item ''_meta'')
    \<circ> set_cell sp ''description'' (text_at item ''description'')
    \<circ> set_cell sp ''title'' (text_at item ''title'')
    \<circ> set_cell sp ''name'' (text_at item ''name'')) (empty_row sp)"

definition prompt_argument_row :: "table_spec \<Rightarrow> string option \<Rightarrow> nat \<Rightarrow> json \<Rightarrow> row" where
  "prompt_argument_row sp prompt_name idx argument =
     (set_cell sp ''idx'' (Some (Cell_Int4 (as_i32 (int idx))))
    \<circ> set_cell sp ''required'' (bool_at argument ''required'')
    \<circ> set_cell sp ''description'' (text_at argument ''description'')
    \<circ> set_cell sp ''name'' (text_at argument ''name'')
    \<circ> set_cell sp ''prompt'' (map_option Cell_Text prompt_name)) (empty_row sp)"

definition prompt_argument_rows :: "table_spec \<Rightarrow> json list \<Rightarrow> row list" where
  "prompt_argument_rows sp prompts =
     concat (map (\<lambda>prompt.
       map (\<lambda>(idx, argument). prompt_argument_row sp (get_str ''name'' prompt) idx argument)
         (enumerate0 (unwrap_or (get_array ''arguments'' prompt) []))) prompts)"

definition resources_row :: "table_spec \<Rightarrow> json \<Rightarrow> row" where
  "resources_row sp item =
     (set_cell sp ''meta'' (json_at item ''_meta'')
    \<circ> set_cell sp ''annotations'' (json_at item ''annotations'')
    \<circ> set_cell sp ''size'' (int8_at item ''size'')
    \<circ> set_cell sp ''mime_type'' (text_at item ''mimeType'')
    \<circ> set_cell sp ''description'' (text_at item ''description'')
    \<circ> set_cell sp ''title'' (text_at item ''title'')
    \<circ> set_cell sp ''name'' (text_at item ''name'')
    \<circ> set_cell sp ''uri'' (text_at item ''uri'')) (empty_row sp)"

definition resource_templates_row :: "table_spec \<Rightarrow> json \<Rightarrow> row" where
  "resource_templates_row sp item =
     (set_cell sp ''meta'' (json_at item ''_meta'')
    \<circ> set_cell sp ''annotations'' (json_at item ''annotations'')
    \<circ> set_cell sp ''mime_type'' (text_at item ''mimeType'')
    \<circ> set_cell sp ''description'' (text_at item ''description'')
    \<circ> set_cell sp ''title'' (text_at item ''title'')
    \<circ> set_cell sp ''name'' (text_at item ''name'')
    \<circ> set_cell sp ''uri_template'' (text_at item ''uriTemplate'')) (empty_row sp)"

section \<open>Filtering and scoping\<close>

definition cell_json_at :: "table_spec \<Rightarrow> string \<Rightarrow> row \<Rightarrow> json" where
  "cell_json_at sp column r =
     (case attno sp column of
        None \<Rightarrow> JNull
      | Some i \<Rightarrow> (case r ! (i - 1) of Some c \<Rightarrow> cell_as_json c | None \<Rightarrow> JNull))"

definition apply_post_filters :: "table_spec \<Rightarrow> row list \<Rightarrow> qual list \<Rightarrow> string list \<Rightarrow> row list" where
  "apply_post_filters sp rows quals pushed =
     (let relevant = filter (\<lambda>q. field q \<in> set pushed \<and> is_supported q) quals
      in if relevant = [] then rows
         else filter (\<lambda>r. list_all (\<lambda>q. matches_json q (field q) (cell_json_at sp (field q) r)) relevant) rows)"

text \<open>\<^verbatim>\<open>scoped["name"] = ...\<close> on a cloned item; the item is an object, since it had a name.\<close>

fun rename_item :: "string \<Rightarrow> json \<Rightarrow> json" where
  "rename_item n (JObj kvs) = JObj (obj_insert ''name'' (JStr n) kvs)"
| "rename_item n v = v"

definition scoped_item :: "string \<Rightarrow> json \<Rightarrow> json option" where
  "scoped_item up item =
     (case get_str ''name'' item of
        None \<Rightarrow> None
      | Some name \<Rightarrow> map_option (\<lambda>l. rename_item l item) (strip_prefix (up @ ''.'') name))"

definition scoped_items :: "string \<Rightarrow> json list \<Rightarrow> json list" where
  "scoped_items up items =
     (if up = [] then
        filter (\<lambda>item. case get_str ''name'' item of Some n \<Rightarrow> CHR ''.'' \<notin> set n | None \<Rightarrow> True) items
      else List.map_filter (scoped_item up) items)"

section \<open>Fetching\<close>

text \<open>A list method the server does not implement is an empty list.\<close>

definition list_or_empty :: "env \<Rightarrow> transport \<Rightarrow> string \<Rightarrow> string \<Rightarrow> ('z client_state, json list) eff" where
  "list_or_empty env tr mthd array_key st =
     (case list_all_pages env tr mthd array_key (JObj []) st of
        (Inl (MethodNotFound _), st') \<Rightarrow> (Inr [], st')
      | (r, st') \<Rightarrow> (r, st'))"

text \<open>The \<^verbatim>\<open>tools\<close> table consumes the change notification and drops the stale slice.\<close>

definition poll_tools :: "session_key \<Rightarrow> mcp_session \<times> 'z catalog_store_scheme \<Rightarrow> mcp_session \<times> 'z catalog_store_scheme" where
  "poll_tools key = (\<lambda>(s, b).
     case take_tools_list_changed s of (changed, s') \<Rightarrow> (s', if changed then snd (drop_tools key b) else b))"

definition effective_ttl :: "table_context \<Rightarrow> nat" where
  "effective_ttl ctx = unwrap_or (table_ttl_ms ctx) (cache_ttl_ms (options (tc_resolved ctx)))"

definition fetch_list ::
  "env \<Rightarrow> table_context \<Rightarrow> slice \<Rightarrow> string \<Rightarrow> string \<Rightarrow> bool \<Rightarrow> ('z catalog_store_scheme, json list) eff"
where
  "fetch_list env ctx sl mthd array_key poll_tools_flag =
     with_session env (tc_resolved ctx) (\<lambda>tr st.
       ebind (get_or_fetch snd apsnd (cache_key ctx) (effective_ttl ctx) sl (list_or_empty env tr mthd array_key))
         (\<lambda>items. eret (case upstream ctx of Some up \<Rightarrow> scoped_items up items | None \<Rightarrow> items))
         (if poll_tools_flag then poll_tools (cache_key ctx) st else st))"

section \<open>The cursor\<close>

record rows_cursor =
  rc_rows :: "row list"
  rc_position :: nat

definition rows_cursor_new :: "row list \<Rightarrow> rows_cursor" where
  "rows_cursor_new rows = \<lparr>rc_rows = rows, rc_position = 0\<rparr>"

definition rows_iter_scan :: "rows_cursor iter" where
  "rows_iter_scan c =
     (if rc_position c < length (rc_rows c)
      then Inr (Some (rc_rows c ! rc_position c), c\<lparr>rc_position := rc_position c + 1\<rparr>)
      else Inr (None, c))"

definition rows_re_scan :: "rows_cursor \<Rightarrow> rows_cursor" where
  "rows_re_scan c = c\<lparr>rc_position := 0\<rparr>"

interpretation rows: restartable_cursor rows_iter_scan "\<lambda>c. drop (rc_position c) (rc_rows c)" rows_re_scan rc_rows
proof unfold_locales
  fix c :: rows_cursor and r rs c'
  show "drop (rc_position c) (rc_rows c) = [] \<Longrightarrow> \<exists>c'. rows_iter_scan c = Inr (None, c') \<and> drop (rc_position c') (rc_rows c') = []"
    by (auto simp: rows_iter_scan_def)
  show "\<exists>c'. rows_iter_scan c = Inr (Some r, c') \<and> drop (rc_position c') (rc_rows c') = rs"
    if "drop (rc_position c) (rc_rows c) = r # rs"
  proof -
    have "rc_position c < length (rc_rows c)" using that by (metis drop_all leI list.distinct(1))
    with that show ?thesis by (auto simp: rows_iter_scan_def Cons_nth_drop_Suc [symmetric])
  qed
  show "drop (rc_position (rows_re_scan c)) (rc_rows (rows_re_scan c)) = rc_rows c"
    by (simp add: rows_re_scan_def)
  show "rc_rows (rows_re_scan c) = rc_rows c" by (simp add: rows_re_scan_def)
  fix ro :: "row option"
  show "rows_iter_scan c = Inr (ro, c') \<Longrightarrow> rc_rows c' = rc_rows c"
    by (auto simp: rows_iter_scan_def split: if_splits)
qed

section \<open>The handlers\<close>

definition tools_begin_scan :: "env \<Rightarrow> scan_context \<Rightarrow> ('z catalog_store_scheme, rows_cursor) eff" where
  "tools_begin_scan env ctx =
     (let sp = tc_spec (sc_base ctx) in
      ebind (fetch_list env (sc_base ctx) Slice_Tools ''tools/list'' ''tools'' True) (\<lambda>items.
      eret (rows_cursor_new (apply_post_filters sp (map (tools_row sp) items) (sc_quals ctx) (pushdown_columns TOOLS_TABLE)))))"

definition prompts_begin_scan :: "env \<Rightarrow> scan_context \<Rightarrow> ('z catalog_store_scheme, rows_cursor) eff" where
  "prompts_begin_scan env ctx =
     (let sp = tc_spec (sc_base ctx) in
      ebind (fetch_list env (sc_base ctx) Slice_Prompts ''prompts/list'' ''prompts'' False) (\<lambda>items.
      eret (rows_cursor_new (apply_post_filters sp (map (prompts_row sp) items) (sc_quals ctx) (pushdown_columns PROMPTS_TABLE)))))"

definition prompt_arguments_begin_scan :: "env \<Rightarrow> scan_context \<Rightarrow> ('z catalog_store_scheme, rows_cursor) eff" where
  "prompt_arguments_begin_scan env ctx =
     (let sp = tc_spec (sc_base ctx) in
      ebind (fetch_list env (sc_base ctx) Slice_Prompts ''prompts/list'' ''prompts'' False) (\<lambda>items.
      eret (rows_cursor_new (apply_post_filters sp (prompt_argument_rows sp items) (sc_quals ctx)
        (pushdown_columns PROMPT_ARGUMENTS_TABLE)))))"

definition resources_begin_scan :: "env \<Rightarrow> scan_context \<Rightarrow> ('z catalog_store_scheme, rows_cursor) eff" where
  "resources_begin_scan env ctx =
     (let sp = tc_spec (sc_base ctx) in
      ebind (fetch_list env (sc_base ctx) Slice_Resources ''resources/list'' ''resources'' False) (\<lambda>items.
      eret (rows_cursor_new (map (resources_row sp) items))))"

definition resource_templates_begin_scan :: "env \<Rightarrow> scan_context \<Rightarrow> ('z catalog_store_scheme, rows_cursor) eff" where
  "resource_templates_begin_scan env ctx =
     (let sp = tc_spec (sc_base ctx) in
      ebind (fetch_list env (sc_base ctx) Slice_ResourceTemplates ''resources/templates/list'' ''resourceTemplates'' False) (\<lambda>items.
      eret (rows_cursor_new (map (resource_templates_row sp) items))))"

fun resolved_mode :: "srv_mode \<Rightarrow> string" where
  "resolved_mode ModeGeneric = ''generic''"
| "resolved_mode ModeAuto = ''generic''"
| "resolved_mode ModeSql = ''sql''"

text \<open>The columns of the \<^verbatim>\<open>server\<close> row known before the session, from the session, and from \<^verbatim>\<open>initialize\<close>.\<close>

definition server_identity_row :: "table_spec \<Rightarrow> table_context \<Rightarrow> row" where
  "server_identity_row sp ctx =
     (set_cell sp ''mode'' (Some (Cell_Text (resolved_mode (so_mode (options (tc_resolved ctx))))))
    \<circ> set_cell sp ''url'' (Some (Cell_Text (so_url (options (tc_resolved ctx)))))
    \<circ> set_cell sp ''name'' (Some (Cell_Text (tc_server_name ctx)))) (empty_row sp)"

definition server_session_row :: "table_spec \<Rightarrow> mcp_session \<Rightarrow> row \<Rightarrow> row" where
  "server_session_row sp s =
     set_cell sp ''session_id'' (map_option Cell_Text (session_id s))
    \<circ> set_cell sp ''capabilities'' (if capabilities s = JNull then None else Some (Cell_Json (capabilities s)))
    \<circ> set_cell sp ''server_version'' (text_at (server_info s) ''version'')
    \<circ> set_cell sp ''server_name'' (text_at (server_info s) ''name'')
    \<circ> set_cell sp ''protocol_version'' (Some (Cell_Text (protocol_version s)))"

definition server_begin_scan :: "env \<Rightarrow> scan_context \<Rightarrow> ('z catalog_store_scheme, rows_cursor) eff" where
  "server_begin_scan env ctx =
     (let base = sc_base ctx; sp = tc_spec base in
      ebind (with_session env (tc_resolved base) (\<lambda>tr (s, b).
        ebind (get_or_fetch snd apsnd (cache_key base) (effective_ttl base) Slice_Initialize
                (ebind (session_request env tr ''initialize'' initialize_params) (\<lambda>result. eret [result])))
          (\<lambda>init. eret (server_session_row sp s (server_identity_row sp base),
                        case init of [] \<Rightarrow> None | result # _ \<Rightarrow> text_at result ''instructions'')) (s, b)))
      (\<lambda>(r, instructions). eret (rows_cursor_new [set_cell sp ''instructions'' instructions r])))"

section \<open>Scoping is a partition\<close>

lemma obj_insert_same: "map_of kvs k = Some v \<Longrightarrow> obj_insert k v kvs = kvs"
  by (induction kvs) (auto split: if_splits)

lemma obj_insert_twice [simp]: "obj_insert k v (obj_insert k w kvs) = obj_insert k v kvs"
  by (induction kvs) auto

lemma rename_back: "get_str ''name'' item = Some n \<Longrightarrow> rename_item n (rename_item l item) = item"
  by (cases item) (auto simp: get_str_def bind_eq_Some_conv obj_insert_same)

lemma get_name_rename: "get_str ''name'' item = Some n \<Longrightarrow> get_str ''name'' (rename_item l item) = Some l"
  by (cases item) (auto simp: get_str_def)

text \<open>What an item of an upstream's table was called in the union listing.\<close>

definition unscoped :: "string \<Rightarrow> json \<Rightarrow> json" where
  "unscoped up item = rename_item (up @ ''.'' @ unwrap_or (get_str ''name'' item) []) item"

lemma unscoped_scoped: "scoped_item up item = Some x \<Longrightarrow> unscoped up x = item"
  by (auto simp: scoped_item_def unscoped_def strip_prefix_Some_iff get_name_rename rename_back split: option.splits)

text \<open>The upstream an item belongs to: the name up to its first dot.\<close>

definition item_upstream :: "json \<Rightarrow> string option" where
  "item_upstream item = Option.bind (get_str ''name'' item) (\<lambda>n. map_option fst (split_once (CHR ''.'') n))"

lemma item_upstream_Some:
  "item_upstream i = Some u \<longleftrightarrow> (\<exists>n r. get_str ''name'' i = Some n \<and> split_once (CHR ''.'') n = Some (u, r))"
  by (auto simp: item_upstream_def bind_eq_Some_conv)

lemma item_upstream_None:
  "item_upstream i = None \<longleftrightarrow> (case get_str ''name'' i of Some n \<Rightarrow> CHR ''.'' \<notin> set n | None \<Rightarrow> True)"
  by (auto simp: item_upstream_def split_once_None_iff split: option.splits)

lemma set_map_filter_eq: "set (List.map_filter f xs) = {y. \<exists>x \<in> set xs. f x = Some y}"
  by (induction xs) (auto simp: List.map_filter_def split: option.splits)

lemma split_once_prefix:
  "CHR ''.'' \<notin> set up \<Longrightarrow> strip_prefix (up @ ''.'') n = Some l \<longleftrightarrow> split_once (CHR ''.'') n = Some (up, l)"
  by (auto simp: strip_prefix_Some_iff split_once_append dest: split_once_SomeD)

lemma scoped_item_iff:
  assumes "CHR ''.'' \<notin> set up"
  shows "scoped_item up item \<noteq> None \<longleftrightarrow> item_upstream item = Some up"
proof (cases "get_str ''name'' item")
  case (Some n)
  have "scoped_item up item \<noteq> None \<longleftrightarrow> (\<exists>l. strip_prefix (up @ ''.'') n = Some l)"
    by (simp only: scoped_item_def Some option.case option.map_disc_iff not_None_eq)
  also have "\<dots> \<longleftrightarrow> item_upstream item = Some up"
    unfolding split_once_prefix [OF assms] by (simp add: item_upstream_Some Some)
  finally show ?thesis .
qed (simp add: scoped_item_def item_upstream_def)

lemma scoped_items_local: "scoped_items [] items = filter (\<lambda>i. item_upstream i = None) items"
  by (simp add: scoped_items_def item_upstream_None)

lemma scoped_items_upstream:
  assumes "CHR ''.'' \<notin> set up" "up \<noteq> []"
  shows "map (unscoped up) (scoped_items up items) = filter (\<lambda>i. item_upstream i = Some up) items"
proof (induction items)
  case (Cons i items)
  have "scoped_items up (i # items) = (case scoped_item up i of None \<Rightarrow> [] | Some x \<Rightarrow> [x]) @ scoped_items up items"
    using assms(2) by (simp add: scoped_items_def List.map_filter_def split: option.splits)
  with Cons scoped_item_iff [OF assms(1), of i] unscoped_scoped show ?case by (auto split: option.splits)
qed (use assms(2) in \<open>simp add: scoped_items_def List.map_filter_def\<close>)



section \<open>What a scan returns\<close>

text \<open>The rows a filtered scan keeps: those whose cells satisfy every pushed, supported qual.\<close>

definition satisfies :: "table_spec \<Rightarrow> qual list \<Rightarrow> string list \<Rightarrow> row \<Rightarrow> bool" where
  "satisfies sp quals pushed r \<longleftrightarrow> (\<forall>q \<in> set quals. field q \<in> set pushed \<and> is_supported q \<longrightarrow>
     (\<exists>v \<in> set (restricted_values q). json_equal v (cell_json_at sp (field q) r)))"

lemma apply_post_filters_eq: "apply_post_filters sp rows quals pushed = filter (satisfies sp quals pushed) rows"
proof -
  let ?rel = "filter (\<lambda>q. field q \<in> set pushed \<and> is_supported q) quals"
  have "list_all (\<lambda>q. matches_json q (field q) (cell_json_at sp (field q) r)) ?rel = satisfies sp quals pushed r" for r
    by (auto simp: list_all_iff satisfies_def matches_json_iff)
  moreover have "satisfies sp quals pushed r" if "?rel = []" for r
    using that by (auto simp: satisfies_def filter_empty_conv)
  ultimately show ?thesis by (simp add: apply_post_filters_def Let_def)
qed

definition replays :: "rows_cursor \<Rightarrow> row list \<Rightarrow> bool" where
  "replays c rows \<longleftrightarrow> (\<exists>c'. drain rows_iter_scan (length rows + 1) c = Some (Inr (rows, c'))
     \<and> (\<exists>c''. drain rows_iter_scan (length rows + 1) (rows_re_scan c') = Some (Inr (rows, c''))))"

lemma replays_new: "replays (rows_cursor_new rows) rows"
proof -
  let ?c = "rows_cursor_new rows"
  have c: "rc_rows ?c = rows" "rc_position ?c = 0" "rows_re_scan ?c = ?c"
    by (simp_all add: rows_cursor_new_def rows_re_scan_def)
  obtain c' where d: "drain rows_iter_scan (length rows + 1) ?c = Some (Inr (rows, c'))"
    using rows.drain_all [of ?c "length rows + 1"] by (auto simp: c)
  with rows.rescan_same_rows [of "length rows + 1" ?c rows c' "length rows + 1"] show ?thesis
    by (auto simp: replays_def c)
qed


text \<open>A server listing two tools, and a scan restricted to one of them.\<close>

definition two_tools :: "json list" where
  "two_tools = [JObj [(''name'', JStr ''a'')], JObj [(''name'', JStr ''b'')]]"

definition listing_server :: env where
  "listing_server = steady_server\<lparr>from_json_str := (\<lambda>_. Some (JObj [(''result'', JObj [(''tools'', JArr two_tools)])]))\<rparr>"

definition role_five_store :: catalog_store where
  "role_five_store = \<lparr>sent = [], clock = 0, tick = 0, sessions = [(1, 5) \<mapsto> old_session], caches = (\<lambda>_. None)\<rparr>"

definition tools_scan_b :: scan_context where
  "tools_scan_b = \<lparr>sc_base = \<lparr>tc_spec = TOOLS_SPEC, tc_server_name = ''s'', tc_resolved = role_five, tc_options = []\<rparr>,
     sc_quals = [qual_equal ''name'' (JStr ''b'')]\<rparr>"

lemma listing_fetch:
  "\<exists>b'. fetch_list listing_server (sc_base tools_scan_b) Slice_Tools ''tools/list'' ''tools'' True role_five_store = (Inr two_tools, b')"
  by (simp add: fetch_list_def with_session_def checkout_def role_five_store_def role_five_def session_key_of_def
      tools_scan_b_def old_session_def fresh_session_def poll_tools_def take_tools_list_changed_def
      get_or_fetch_def cache_lookup_def effective_ttl_def table_ttl_ms_def table_option_def list_or_empty_def
      list_all_pages_def list_loop.simps MAX_LIST_PAGES_def client_defs listing_server_def steady_server_def
      rpc_request_def get_defs page_items_def upstream_def is_transport_def cache_key_def Let_def)


section \<open>Isolation\<close>

context role_scope
begin

lemma scope_list_all: "evolves (in_session res R) (list_all_pages env (session_transport res a) mthd key p)"
  unfolding list_all_pages_def by (intro inner.evo_list_loop scope_request)

end

lemma evolves_list_or_empty:
  "evolves (in_session res (own res)) (list_or_empty env (session_transport res a) mthd key)"
proof (rule evolvesI)
  fix st :: "mcp_session \<times> 'z catalog_store_scheme"
  have "snd (list_or_empty env (session_transport res a) mthd key st) = snd (list_all_pages env (session_transport res a) mthd key (JObj []) st)"
    by (simp add: list_or_empty_def split: prod.splits sum.splits mcp_error.splits)
  with evolves_at [OF own_scope.scope_list_all, of res st env a mthd key "JObj []"]
  show "in_session res (own res) st (snd (list_or_empty env (session_transport res a) mthd key st))" by simp
qed

lemma in_session_insert:
  "k = session_key_of res \<Longrightarrow> in_session res (own res) st (apsnd (cache_insert k sl items) st)"
  by (cases st) (simp add: in_session_def own_cache_insert)

lemma in_session_poll: "k = session_key_of res \<Longrightarrow> in_session res (own res) st (poll_tools k st)"
  by (cases st) (auto simp: in_session_def poll_tools_def take_tools_list_changed_def own_drop_tools own_scope.evo_refl)

lemma fetch_list_own:
  "evolves (own (tc_resolved ctx) :: 'z catalog_store_scheme \<Rightarrow> _) (fetch_list env ctx sl mthd key poll)"
proof -
  let ?res = "tc_resolved ctx"
  let ?tr = "session_transport ?res True"
  let ?R = "in_session ?res (own ?res) :: mcp_session \<times> 'z catalog_store_scheme \<Rightarrow> _"
  let ?body = "ebind (get_or_fetch snd apsnd (cache_key ctx) (effective_ttl ctx) sl (list_or_empty env ?tr mthd key))
         (\<lambda>items. eret (case upstream ctx of Some up \<Rightarrow> scoped_items up items | None \<Rightarrow> items))"
  have body: "evolves ?R ?body"
    by (intro own_scope.inner.evo_bind own_scope.inner.evo_ret own_scope.inner.evo_get_or_fetch evolves_list_or_empty
        in_session_insert cache_key_session_key)
  have "evolves ?R (\<lambda>st. ?body (if poll then poll_tools (cache_key ctx) st else st))"
  proof (rule evolvesI)
    fix st :: "mcp_session \<times> 'z catalog_store_scheme"
    let ?st = "if poll then poll_tools (cache_key ctx) st else st"
    have "?R st ?st" by (simp add: in_session_poll cache_key_session_key own_scope.inner.evo_refl)
    then show "?R st (snd (?body ?st))" by (rule own_scope.inner.evo_trans [OF _ evolves_at [OF body]])
  qed
  then show ?thesis unfolding fetch_list_def by (intro own_scope.scope_with_session)
qed

lemma server_scan_own:
  "evolves (own (tc_resolved (sc_base ctx)) :: 'z catalog_store_scheme \<Rightarrow> _) (server_begin_scan env ctx)"
proof -
  let ?base = "sc_base ctx"
  let ?res = "tc_resolved ?base"
  let ?tr = "session_transport ?res True"
  let ?R = "in_session ?res (own ?res) :: mcp_session \<times> 'z catalog_store_scheme \<Rightarrow> _"
  have "evolves ?R (ebind (get_or_fetch snd apsnd (cache_key ?base) (effective_ttl ?base) Slice_Initialize
      (ebind (session_request env ?tr ''initialize'' initialize_params) (\<lambda>result. eret [result])))
      (\<lambda>init. eret (g init)))" for g :: "json list \<Rightarrow> row \<times> cell option"
    by (intro own_scope.inner.evo_bind own_scope.inner.evo_ret own_scope.inner.evo_get_or_fetch own_scope.scope_request
        in_session_insert cache_key_session_key)
  note inner = evolves_at [OF this]
  have session: "evolves (own ?res :: 'z catalog_store_scheme \<Rightarrow> _) (with_session env ?res (\<lambda>tr (s, b).
      ebind (get_or_fetch snd apsnd (cache_key ?base) (effective_ttl ?base) Slice_Initialize
        (ebind (session_request env tr ''initialize'' initialize_params) (\<lambda>result. eret [result])))
        (\<lambda>init. eret (g s init)) (s, b)))" for g :: "mcp_session \<Rightarrow> json list \<Rightarrow> row \<times> cell option"
    by (rule own_scope.scope_with_session, rule evolvesI) (simp only: split_beta inner prod.collapse)
  show ?thesis
    unfolding server_begin_scan_def Let_def
    by (rule own_scope.evo_bind [OF session]) (simp add: split_beta own_scope.evo_ret)
qed

lemmas catalog_scans = tools_begin_scan_def prompts_begin_scan_def prompt_arguments_begin_scan_def resources_begin_scan_def
  resource_templates_begin_scan_def

lemma catalog_scan_own:
  "evolves (own (tc_resolved (sc_base ctx))) (tools_begin_scan env ctx)"
  "evolves (own (tc_resolved (sc_base ctx))) (prompts_begin_scan env ctx)"
  "evolves (own (tc_resolved (sc_base ctx))) (prompt_arguments_begin_scan env ctx)"
  "evolves (own (tc_resolved (sc_base ctx))) (resources_begin_scan env ctx)"
  "evolves (own (tc_resolved (sc_base ctx))) (resource_templates_begin_scan env ctx)"
  unfolding catalog_scans Let_def by (intro own_scope.evo_bind own_scope.evo_ret fetch_list_own)+

section \<open>Typing\<close>

lemma cell_fits_simps [simp]:
  "cell_fits ty None" "cell_fits ty (Some c) \<longleftrightarrow> cell_type c = ty"
  "cell_fits Ty_Text (text_at item k)" "cell_fits Ty_Jsonb (json_at item k)" "cell_fits Ty_Boolean (annotation item k)"
  "cell_fits Ty_Boolean (bool_at item k)" "cell_fits Ty_Int8 (int8_at item k)"
  "cell_fits Ty_Text (map_option Cell_Text t)"
  by (auto simp: cell_fits_def text_at_def json_at_def annotation_def bool_at_def int8_at_def split: option.splits json.splits)

lemma row_typed_setI: "row_typed sp r \<Longrightarrow> column_type_of sp column = Some ty \<Longrightarrow> cell_fits ty cell \<Longrightarrow> row_typed sp (set_cell sp column cell r)"
  by (rule row_typed_set) auto

lemmas column_type_eval = column_type_of_def attno_def

lemma tools_row_typed: "row_typed TOOLS_SPEC (tools_row TOOLS_SPEC item)"
  unfolding tools_row_def comp_def
  by (intro row_typed_set row_typed_empty) (auto simp: column_type_eval TOOLS_SPEC_def)

lemma prompts_row_typed: "row_typed PROMPTS_SPEC (prompts_row PROMPTS_SPEC item)"
  unfolding prompts_row_def comp_def
  by (intro row_typed_set row_typed_empty) (auto simp: column_type_eval PROMPTS_SPEC_def)

lemma prompt_argument_rows_typed: "r \<in> set (prompt_argument_rows PROMPT_ARGUMENTS_SPEC items) \<Longrightarrow> row_typed PROMPT_ARGUMENTS_SPEC r"
proof -
  have "row_typed PROMPT_ARGUMENTS_SPEC (prompt_argument_row PROMPT_ARGUMENTS_SPEC n i a)" for n i a
    unfolding prompt_argument_row_def comp_def
    by (intro row_typed_set row_typed_empty) (auto simp: column_type_eval PROMPT_ARGUMENTS_SPEC_def)
  then show "r \<in> set (prompt_argument_rows PROMPT_ARGUMENTS_SPEC items) \<Longrightarrow> row_typed PROMPT_ARGUMENTS_SPEC r"
    by (auto simp: prompt_argument_rows_def)
qed

lemma resources_row_typed: "row_typed RESOURCES_SPEC (resources_row RESOURCES_SPEC item)"
  unfolding resources_row_def comp_def
  by (intro row_typed_set row_typed_empty) (auto simp: column_type_eval RESOURCES_SPEC_def)

lemma resource_templates_row_typed: "row_typed RESOURCE_TEMPLATES_SPEC (resource_templates_row RESOURCE_TEMPLATES_SPEC item)"
  unfolding resource_templates_row_def comp_def
  by (intro row_typed_set row_typed_empty) (auto simp: column_type_eval RESOURCE_TEMPLATES_SPEC_def)

lemma server_row_typed:
  "row_typed SERVER_SPEC (set_cell SERVER_SPEC ''instructions'' (text_at x ''instructions'')
     (server_session_row SERVER_SPEC s (server_identity_row SERVER_SPEC ctx)))"
  unfolding server_session_row_def server_identity_row_def comp_def
  by (intro row_typed_set row_typed_empty) (auto simp: column_type_eval SERVER_SPEC_def)

end
