(* ===== verification/Readthrough.thy ===== *)
theory Readthrough
  imports Catalog
begin

unbundle bit_operations_syntax

text \<open>
  \<^verbatim>\<open>tables/readthrough.rs\<close>: \<^verbatim>\<open>resource_contents\<close>, \<^verbatim>\<open>prompt_messages\<close> and \<^verbatim>\<open>completions\<close>. Quals become
  request parameters, every scan buffers all its rows before the first is returned, and a failure
  is raised on the spot with the method that failed.
\<close>

section \<open>Quals as request keys\<close>

text \<open>\<^verbatim>\<open>Vec::contains\<close> compares with \<^verbatim>\<open>PartialEq\<close>.\<close>

definition vals_contain :: "json list \<Rightarrow> json \<Rightarrow> bool" where
  "vals_contain vs v \<longleftrightarrow> list_ex (\<lambda>x. value_eq x v) vs"

definition dedupe_values :: "json list \<Rightarrow> json list" where
  "dedupe_values values = foldl (\<lambda>out v. if vals_contain out v then out else out @ [v]) [] values"

definition restrict_step :: "json list option \<Rightarrow> qual \<Rightarrow> json list option" where
  "restrict_step acc q =
     Some (case acc of
             None \<Rightarrow> restricted_values q
           | Some prev \<Rightarrow> filter (vals_contain (restricted_values q)) prev)"

definition restricted :: "qual list \<Rightarrow> string \<Rightarrow> json list option" where
  "restricted quals column =
     map_option dedupe_values (foldl restrict_step None (filter (\<lambda>q. field q = column) quals))"

type_synonym ctx_error = "mcp_error \<times> string"

definition ctx_feature :: "string \<Rightarrow> string \<Rightarrow> ctx_error" where
  "ctx_feature msg mthd = (FeatureNotSupported msg, mthd)"

section \<open>The cursor\<close>

record buffered_cursor =
  bc_rows :: "row list"
  bc_pos :: nat

definition buffered_new :: "row list \<Rightarrow> buffered_cursor" where
  "buffered_new rows = \<lparr>bc_rows = rows, bc_pos = 0\<rparr>"

definition buffered_iter_scan :: "buffered_cursor iter" where
  "buffered_iter_scan c =
     (if bc_pos c < length (bc_rows c)
      then (let c' = c\<lparr>bc_pos := bc_pos c + 1\<rparr> in Inr (Some (bc_rows c' ! (bc_pos c' - 1)), c'))
      else Inr (None, c))"

definition buffered_re_scan :: "buffered_cursor \<Rightarrow> buffered_cursor" where
  "buffered_re_scan c = c\<lparr>bc_pos := 0\<rparr>"

interpretation buffered: restartable_cursor buffered_iter_scan "\<lambda>c. drop (bc_pos c) (bc_rows c)" buffered_re_scan bc_rows
proof unfold_locales
  fix c :: buffered_cursor and r rs c'
  show "drop (bc_pos c) (bc_rows c) = [] \<Longrightarrow> \<exists>c'. buffered_iter_scan c = Inr (None, c') \<and> drop (bc_pos c') (bc_rows c') = []"
    by (auto simp: buffered_iter_scan_def)
  show "\<exists>c'. buffered_iter_scan c = Inr (Some r, c') \<and> drop (bc_pos c') (bc_rows c') = rs"
    if "drop (bc_pos c) (bc_rows c) = r # rs"
  proof -
    have "bc_pos c < length (bc_rows c)" using that by (metis drop_all leI list.distinct(1))
    with that show ?thesis by (auto simp: buffered_iter_scan_def Cons_nth_drop_Suc [symmetric])
  qed
  show "drop (bc_pos (buffered_re_scan c)) (bc_rows (buffered_re_scan c)) = bc_rows c"
    by (simp add: buffered_re_scan_def)
  show "bc_rows (buffered_re_scan c) = bc_rows c" by (simp add: buffered_re_scan_def)
  fix ro :: "row option"
  show "buffered_iter_scan c = Inr (ro, c') \<Longrightarrow> bc_rows c' = bc_rows c"
    by (auto simp: buffered_iter_scan_def Let_def split: if_splits)
qed

section \<open>Base64\<close>

definition base64_value :: "char \<Rightarrow> nat option" where
  "base64_value c =
     (let b = byte c
      in if 65 \<le> b \<and> b \<le> 90 then Some (b - 65)
         else if 97 \<le> b \<and> b \<le> 122 then Some (b - 97 + 26)
         else if 48 \<le> b \<and> b \<le> 57 then Some (b - 48 + 52)
         else if b = 43 then Some 62
         else if b = 47 then Some 63
         else None)"

text \<open>\<^verbatim>\<open>slice::chunks(4)\<close>.\<close>

fun chunks4 :: "'a list \<Rightarrow> 'a list list" where
  "chunks4 (a # b # c # d # xs) = [a, b, c, d] # chunks4 xs"
| "chunks4 [] = []"
| "chunks4 xs = [xs]"

text \<open>The accumulator of a group; every value is below 64, so the shifts stay within 24 bits.\<close>

fun base64_acc :: "nat \<Rightarrow> string \<Rightarrow> nat option" where
  "base64_acc i [] = Some 0"
| "base64_acc i (b # bs) =
     (case (base64_value b, base64_acc (i + 1) bs) of
        (Some v, Some acc) \<Rightarrow> Some (push_bit (18 - 6 * i) v OR acc)
      | _ \<Rightarrow> None)"

definition base64_chunk :: "string \<Rightarrow> nat list option" where
  "base64_chunk chunk =
     (if length chunk = 1 then None
      else map_option (\<lambda>acc.
             [drop_bit 16 acc mod 256]
             @ (if length chunk > 2 then [drop_bit 8 acc mod 256] else [])
             @ (if length chunk > 3 then [acc mod 256] else [])) (base64_acc 0 chunk))"

definition base64_stripped :: "string \<Rightarrow> string" where
  "base64_stripped input =
     takeWhile (\<lambda>b. b \<noteq> CHR ''='') (filter (\<lambda>b. b \<notin> {CHR '' '', CHR 0x09, CHR 0x0D, CHR 0x0A}) input)"

definition base64_decode :: "string \<Rightarrow> nat list option" where
  "base64_decode input = map_option concat (traverse base64_chunk (chunks4 (base64_stripped input)))"

section \<open>resource_contents\<close>

definition put_opt :: "table_spec \<Rightarrow> string \<Rightarrow> cell option \<Rightarrow> row \<Rightarrow> row" where
  "put_opt sp column cell r = (case cell of Some c \<Rightarrow> set_cell sp column (Some c) r | None \<Rightarrow> r)"

definition UNQUALIFIED_RESOURCE_CONTENTS :: string where
  "UNQUALIFIED_RESOURCE_CONTENTS =
     ''unqualified scan of mcp.resource_contents requires a uri qual or max_unqualified_reads > 0''"

text \<open>One request on the role's session, its error tagged with the method.\<close>

definition ctx_request ::
  "env \<Rightarrow> resolved \<Rightarrow> string \<Rightarrow> json \<Rightarrow> ('z session_store_scheme, ctx_error, json) effe"
where
  "ctx_request env res mthd args =
     emap_err (\<lambda>e. (e, mthd)) (with_session env res (\<lambda>tr. session_request env tr mthd args))"

definition unqualified_uris :: "env \<Rightarrow> scan_context \<Rightarrow> ('z session_store_scheme, ctx_error, string list) effe" where
  "unqualified_uris env ctx =
     (let res = tc_resolved (sc_base ctx); cap = max_unqualified_reads (options res) in
      if cap = 0 then elift (Inl (ctx_feature UNQUALIFIED_RESOURCE_CONTENTS ''resources/list''))
      else
        ebind (emap_err (\<lambda>e. (e, ''resources/list''))
          (with_session env res (\<lambda>tr. list_all_pages env tr ''resources/list'' ''resources'' (JObj [])))) (\<lambda>items.
        let uris = List.map_filter (get_str ''uri'') items;
            distinct_uris = List.map_filter as_str (dedupe_values (map JStr uris))
        in if int (length distinct_uris) > cap then
             elift (Inl (TooManyArguments (''unqualified scan of mcp.resource_contents would read ''
               @ show_nat (length distinct_uris) @ '' distinct URIs, exceeding max_unqualified_reads = '' @ show_int cap),
               ''resources/read''))
           else eret distinct_uris))"

definition resource_content_row :: "table_spec \<Rightarrow> string \<Rightarrow> nat \<Rightarrow> json \<Rightarrow> ctx_error + row" where
  "resource_content_row sp uri idx content =
     (let r = (put_opt sp ''text'' (text_at content ''text'')
             \<circ> put_opt sp ''mime_type'' (text_at content ''mimeType'')
             \<circ> set_cell sp ''idx'' (Some (Cell_Int4 (as_i32 (int idx))))
             \<circ> set_cell sp ''uri'' (Some (Cell_Text uri))) (empty_row sp)
      in rmap (put_opt sp ''meta'' (json_at content ''_meta''))
           (case get_str ''blob'' content of
              None \<Rightarrow> Inr r
            | Some blob \<Rightarrow>
                (case base64_decode blob of
                   None \<Rightarrow> Inl (InvalidParams (''resource_contents: the server's blob for uri \"'' @ uri
                             @ ''\" is not valid base64''), ''resources/read'')
                 | Some bytes \<Rightarrow> Inr (set_cell sp ''blob'' (Some (Cell_Bytea bytes)) r))))"

text \<open>A loop that pushes rows and stops at the first error.\<close>

fun collect_results :: "('a \<Rightarrow> 'e + 'b) \<Rightarrow> 'a list \<Rightarrow> 'e + 'b list" where
  "collect_results f [] = Inr []"
| "collect_results f (x # xs) = rbind (f x) (\<lambda>y. rmap (\<lambda>ys. y # ys) (collect_results f xs))"

definition resource_contents_rows :: "env \<Rightarrow> scan_context \<Rightarrow> ('z session_store_scheme, ctx_error, row list) effe" where
  "resource_contents_rows env ctx =
     (let sp = tc_spec (sc_base ctx); res = tc_resolved (sc_base ctx) in
      ebind (case restricted (sc_quals ctx) ''uri'' of
               None \<Rightarrow> unqualified_uris env ctx
             | Some values \<Rightarrow> eret (List.map_filter as_str values)) (\<lambda>uris.
      ebind (emap (\<lambda>uri.
        ebind (ctx_request env res ''resources/read'' (JObj [(''uri'', JStr uri)])) (\<lambda>result.
        elift (collect_results (\<lambda>(idx, content). resource_content_row sp uri idx content)
          (enumerate0 (unwrap_or (get_array ''contents'' result) []))))) uris) (\<lambda>rowss.
      eret (concat rowss))))"

section \<open>prompt_messages\<close>

definition prompt_message_row :: "table_spec \<Rightarrow> string \<Rightarrow> json \<Rightarrow> string option \<Rightarrow> nat \<Rightarrow> json \<Rightarrow> row" where
  "prompt_message_row sp name arguments descr idx msg =
     (let content = unwrap_or (jget ''content'' msg) JNull
      in (put_opt sp ''description'' (map_option Cell_Text descr)
        \<circ> put_opt sp ''content'' (if is_null content then None else Some (Cell_Json content))
        \<circ> put_opt sp ''text'' (text_at content ''text'')
        \<circ> put_opt sp ''content_type'' (text_at content ''type'')
        \<circ> put_opt sp ''role'' (text_at msg ''role'')
        \<circ> set_cell sp ''idx'' (Some (Cell_Int4 (as_i32 (int idx))))
        \<circ> set_cell sp ''arguments'' (Some (Cell_Json arguments))
        \<circ> set_cell sp ''prompt'' (Some (Cell_Text name))) (empty_row sp))"

definition prompt_messages_rows :: "env \<Rightarrow> scan_context \<Rightarrow> ('z session_store_scheme, ctx_error, row list) effe" where
  "prompt_messages_rows env ctx =
     (let sp = tc_spec (sc_base ctx); res = tc_resolved (sc_base ctx) in
      case restricted (sc_quals ctx) ''prompt'' of
        None \<Rightarrow> elift (Inl (ctx_feature (''mcp.prompt_messages requires a prompt = '...' qual (PRD-7 '' @ sect_sign @ ''4.5)'')
                 ''prompts/get''))
      | Some prompts \<Rightarrow>
          (let argument_sets = unwrap_or (restricted (sc_quals ctx) ''arguments'') [JObj []]
           in ebind (emap (\<lambda>(name, arguments).
                ebind (ctx_request env res ''prompts/get''
                  (JObj [(''name'', JStr name), (''arguments'', params_object (Some arguments))])) (\<lambda>result.
                eret (map (\<lambda>(idx, msg). prompt_message_row sp name arguments (get_str ''description'' result) idx msg)
                  (enumerate0 (unwrap_or (get_array ''messages'' result) [])))))
                (List.product (List.map_filter as_str prompts) argument_sets)) (\<lambda>rowss.
              eret (concat rowss))))"

section \<open>completions\<close>

definition COMPLETION_REQUIRED :: "string list" where
  "COMPLETION_REQUIRED = [''ref'', ''argument_name'', ''argument_value'']"

definition completion_column :: "qual list \<Rightarrow> string \<Rightarrow> ctx_error + json list" where
  "completion_column quals column =
     (case restricted quals column of
        None \<Rightarrow> Inl (ctx_feature (''mcp.completions requires a '' @ column @ '' = qual (PRD-7 '' @ sect_sign @ ''4.6)'')
                 ''completion/complete'')
      | Some values \<Rightarrow> Inr values)"

definition completion_row ::
  "table_spec \<Rightarrow> json \<Rightarrow> string \<Rightarrow> string \<Rightarrow> int option \<Rightarrow> bool option \<Rightarrow> nat \<Rightarrow> json \<Rightarrow> row"
where
  "completion_row sp rf name val tot has_more idx candidate =
     (put_opt sp ''has_more'' (map_option Cell_Bool has_more)
    \<circ> put_opt sp ''total'' (map_option (\<lambda>t. Cell_Int4 (as_i32 t)) tot)
    \<circ> set_cell sp ''idx'' (Some (Cell_Int4 (as_i32 (int idx))))
    \<circ> put_opt sp ''value'' (map_option Cell_Text (as_str candidate))
    \<circ> set_cell sp ''argument_value'' (Some (Cell_Text val))
    \<circ> set_cell sp ''argument_name'' (Some (Cell_Text name))
    \<circ> set_cell sp ''ref'' (Some (Cell_Json rf))) (empty_row sp)"

definition completions_rows :: "env \<Rightarrow> scan_context \<Rightarrow> ('z session_store_scheme, ctx_error, row list) effe" where
  "completions_rows env ctx =
     (let sp = tc_spec (sc_base ctx); res = tc_resolved (sc_base ctx) in
      ebind (elift (collect_results (completion_column (sc_quals ctx)) COMPLETION_REQUIRED)) (\<lambda>cols.
      ebind (emap (\<lambda>(rf, name, val).
        ebind (ctx_request env res ''completion/complete''
          (JObj [(''ref'', rf), (''argument'', JObj [(''name'', JStr name), (''value'', JStr val)])])) (\<lambda>result.
        let completion = unwrap_or (jget ''completion'' result) JNull in
        eret (map (\<lambda>(idx, candidate).
            completion_row sp rf name val (get_i64 ''total'' completion) (get_bool ''hasMore'' completion) idx candidate)
          (enumerate0 (unwrap_or (get_array ''values'' completion) [])))))
        (List.product (cols ! 0) (List.product (List.map_filter as_str (cols ! 1)) (List.map_filter as_str (cols ! 2))))) (\<lambda>rowss.
      eret (concat rowss))))"

section \<open>The handlers\<close>

text \<open>\<^verbatim>\<open>raise_ctx\<close> does not return: the statement ends with the report.\<close>

definition readthrough_begin_scan ::
  "('z session_store_scheme, ctx_error, row list) effe \<Rightarrow> scan_context \<Rightarrow> ('z session_store_scheme, pg_report, buffered_cursor) effe"
where
  "readthrough_begin_scan rows ctx =
     ebind (emap_err (\<lambda>(e, mthd). raise_ctx e (tc_server_name (sc_base ctx)) mthd) rows) (\<lambda>rs. eret (buffered_new rs))"

definition resource_contents_begin_scan :: "env \<Rightarrow> scan_context \<Rightarrow> ('z session_store_scheme, pg_report, buffered_cursor) effe" where
  "resource_contents_begin_scan env ctx = readthrough_begin_scan (resource_contents_rows env ctx) ctx"

definition prompt_messages_begin_scan :: "env \<Rightarrow> scan_context \<Rightarrow> ('z session_store_scheme, pg_report, buffered_cursor) effe" where
  "prompt_messages_begin_scan env ctx = readthrough_begin_scan (prompt_messages_rows env ctx) ctx"

definition completions_begin_scan :: "env \<Rightarrow> scan_context \<Rightarrow> ('z session_store_scheme, pg_report, buffered_cursor) effe" where
  "completions_begin_scan env ctx = readthrough_begin_scan (completions_rows env ctx) ctx"

section \<open>Base64 round trip\<close>

text \<open>The RFC 4648 encoder, without and with padding.\<close>

definition base64_alphabet :: string where
  "base64_alphabet = ''ABCDEFGHIJKLMNOPQRSTUVWXYZabcdefghijklmnopqrstuvwxyz0123456789+/''"

definition base64_char :: "nat \<Rightarrow> char" where
  "base64_char n = base64_alphabet ! n"

fun base64_unpadded :: "nat list \<Rightarrow> string" where
  "base64_unpadded (x # y # z # bs) =
     [base64_char (x div 4), base64_char (x mod 4 * 16 + y div 16), base64_char (y mod 16 * 4 + z div 64), base64_char (z mod 64)]
     @ base64_unpadded bs"
| "base64_unpadded [x, y] = [base64_char (x div 4), base64_char (x mod 4 * 16 + y div 16), base64_char (y mod 16 * 4)]"
| "base64_unpadded [x] = [base64_char (x div 4), base64_char (x mod 4 * 16)]"
| "base64_unpadded [] = []"

definition base64_encode :: "nat list \<Rightarrow> string" where
  "base64_encode bs = base64_unpadded bs @ replicate ((3 - length bs mod 3) mod 3) (CHR ''='')"

lemma base64_value_char:
  assumes "n < 64"
  shows "base64_value (base64_char n) = Some n"
proof -
  have "list_all (\<lambda>p. base64_value (snd p) = Some (fst p)) (enumerate 0 base64_alphabet)"
    by (simp add: base64_alphabet_def base64_value_def byte_def)
  moreover have "length base64_alphabet = 64" by (simp add: base64_alphabet_def)
  ultimately show ?thesis using assms by (simp add: list_all_length nth_enumerate_eq base64_char_def)
qed

lemma push_bit_or:
  assumes "b < (2::nat) ^ k"
  shows "push_bit k a OR b = a * 2 ^ k + b"
proof -
  have "\<not> bit (push_bit k a) n \<or> \<not> bit b n" for n
  proof (cases "n < k")
    case False
    then have "b < 2 ^ n" using assms by (meson leI less_le_trans one_le_numeral power_increasing)
    then show ?thesis by (simp add: bit_iff_odd)
  qed (simp add: bit_push_bit_iff_nat)
  then have "push_bit k a + b = push_bit k a OR b" by (rule disjunctive_add)
  then show ?thesis by (simp add: push_bit_eq_mult)
qed

lemma base64_or:
  assumes "p < 64" "q < 64" "r < 64" "t < 64"
  shows "push_bit 18 p OR (push_bit 12 q OR (push_bit 6 r OR t)) = p * 262144 + q * 4096 + r * 64 + (t :: nat)"
proof -
  have a: "push_bit 6 r OR t = r * 64 + t" using assms by (simp add: push_bit_or)
  have b: "push_bit 12 q OR (r * 64 + t) = q * 4096 + (r * 64 + t)" using assms by (simp add: push_bit_or)
  have "push_bit 18 p OR (q * 4096 + (r * 64 + t)) = p * 262144 + (q * 4096 + (r * 64 + t))" using assms by (simp add: push_bit_or)
  then show ?thesis by (simp only: a b add.assoc)
qed

lemma base64_acc_value:
  "p < 64 \<Longrightarrow> q < 64 \<Longrightarrow> base64_acc 0 [base64_char p, base64_char q] = Some (p * 262144 + q * 4096)"
  "p < 64 \<Longrightarrow> q < 64 \<Longrightarrow> r < 64 \<Longrightarrow>
     base64_acc 0 [base64_char p, base64_char q, base64_char r] = Some (p * 262144 + q * 4096 + r * 64)"
  "p < 64 \<Longrightarrow> q < 64 \<Longrightarrow> r < 64 \<Longrightarrow> t < 64 \<Longrightarrow>
     base64_acc 0 [base64_char p, base64_char q, base64_char r, base64_char t] = Some (p * 262144 + q * 4096 + r * 64 + t)"
  using base64_or [of p q 0 0] base64_or [of p q r 0] base64_or [of p q r t]
  by (simp_all add: base64_value_char)

lemma sextet_bounds:
  fixes x y z :: nat
  shows "x < 256 \<Longrightarrow> x div 4 < 64" "y < 256 \<Longrightarrow> x mod 4 * 16 + y div 16 < 64" "z < 256 \<Longrightarrow> y mod 16 * 4 + z div 64 < 64"
    "z mod 64 < 64" "x mod 4 * 16 < 64" "y mod 16 * 4 < 64"
proof -
  have m: "x mod 4 \<le> 3" "y mod 16 \<le> 15" "z mod 64 < 64"
    using mod_less_divisor [of 4 x] mod_less_divisor [of 16 y] by simp_all
  show "x < 256 \<Longrightarrow> x div 4 < 64" by (simp add: less_mult_imp_div_less)
  show "y < 256 \<Longrightarrow> x mod 4 * 16 + y div 16 < 64" using m less_mult_imp_div_less [of y 16 16] by simp
  show "z < 256 \<Longrightarrow> y mod 16 * 4 + z div 64 < 64" using m less_mult_imp_div_less [of z 4 64] by simp
  show "z mod 64 < 64" "x mod 4 * 16 < 64" "y mod 16 * 4 < 64" using m by simp_all
qed

lemma sextets_regroup:
  "(a :: nat) * 262144 + (b * 16 + c) * 4096 + (d * 4 + e) * 64 + f = (a * 4 + b) * 65536 + (c * 16 + d) * 256 + (e * 64 + f)"
  by simp

lemma bytes_regroup:
  assumes "y < 256" "z < (256 :: nat)"
  shows "(x * 65536 + y * 256 + z) div 65536 = x" "(x * 65536 + y * 256 + z) div 256 = x * 256 + y"
    "(x * 65536 + y * 256 + z) mod 256 = z"
proof -
  have n: "x * 65536 + y * 256 + z = (x * 256 + y) * 256 + z" by simp
  show "(x * 65536 + y * 256 + z) mod 256 = z" unfolding n using assms by (simp only: mod_mult_self3 mod_less)
  show "(x * 65536 + y * 256 + z) div 256 = x * 256 + y" using assms by (intro div_nat_eqI) simp_all
  show "(x * 65536 + y * 256 + z) div 65536 = x" using assms by (intro div_nat_eqI) simp_all
qed

lemma base64_chunk_triple:
  assumes "x < 256" "y < 256" "z < 256"
  shows "base64_chunk [base64_char (x div 4), base64_char (x mod 4 * 16 + y div 16), base64_char (y mod 16 * 4 + z div 64), base64_char (z mod 64)]
    = Some [x, y, z]"
proof -
  have "base64_acc 0 [base64_char (x div 4), base64_char (x mod 4 * 16 + y div 16), base64_char (y mod 16 * 4 + z div 64), base64_char (z mod 64)]
      = Some (x * 65536 + y * 256 + z)"
    by (simp only: base64_acc_value sextet_bounds assms sextets_regroup div_mult_mod_eq)
  with assms show ?thesis unfolding base64_chunk_def by (simp add: drop_bit_eq_div bytes_regroup del: base64_acc.simps)
qed

lemma base64_chunk_pair:
  assumes "x < 256" "y < 256"
  shows "base64_chunk [base64_char (x div 4), base64_char (x mod 4 * 16 + y div 16), base64_char (y mod 16 * 4)] = Some [x, y]"
proof -
  have "x div 4 * 262144 + (x mod 4 * 16 + y div 16) * 4096 + y mod 16 * 4 * 64 = x * 65536 + y * 256"
    using sextets_regroup [of "x div 4" "x mod 4" "y div 16" "y mod 16" 0 0] by (simp only: div_mult_mod_eq) simp
  then have "base64_acc 0 [base64_char (x div 4), base64_char (x mod 4 * 16 + y div 16), base64_char (y mod 16 * 4)] = Some (x * 65536 + y * 256)"
    by (simp only: base64_acc_value sextet_bounds assms)
  with assms show ?thesis unfolding base64_chunk_def by (simp add: drop_bit_eq_div del: base64_acc.simps)
qed

lemma base64_chunk_single:
  assumes "x < 256"
  shows "base64_chunk [base64_char (x div 4), base64_char (x mod 4 * 16)] = Some [x]"
proof -
  have "x div 4 * 262144 + x mod 4 * 16 * 4096 = x * 65536"
    using sextets_regroup [of "x div 4" "x mod 4" 0 0 0 0] by (simp only: div_mult_mod_eq) simp
  then have "base64_acc 0 [base64_char (x div 4), base64_char (x mod 4 * 16)] = Some (x * 65536)"
    by (simp only: base64_acc_value sextet_bounds assms)
  with assms show ?thesis unfolding base64_chunk_def by (simp add: drop_bit_eq_div del: base64_acc.simps)
qed

lemma decode_unpadded:
  "list_all (\<lambda>b. b < 256) bs \<Longrightarrow> map_option concat (traverse base64_chunk (chunks4 (base64_unpadded bs))) = Some bs"
proof (induction bs rule: base64_unpadded.induct)
  case (1 x y z bs)
  then obtain rest where "traverse base64_chunk (chunks4 (base64_unpadded bs)) = Some rest" "concat rest = bs" by auto
  with 1 show ?case by (simp add: base64_chunk_triple)
qed (simp_all add: base64_chunk_pair base64_chunk_single)

lemma base64_char_ne: "n < 64 \<Longrightarrow> base64_char n \<noteq> CHR ''=''"
proof
  assume "n < 64" "base64_char n = CHR ''=''"
  with base64_value_char [of n] show False by (simp add: base64_value_def byte_def)
qed

lemma unpadded_no_eq: "list_all (\<lambda>b. b < 256) bs \<Longrightarrow> c \<in> set (base64_unpadded bs) \<Longrightarrow> c \<noteq> CHR ''=''"
  by (induction bs rule: base64_unpadded.induct) (auto simp: base64_char_ne base64_char_ne [THEN not_sym] sextet_bounds)

text \<open>C34. Decoding a blob returns the bytes that were encoded, whether the padding is there or not and wherever
  the server broke the text with spaces, tabs or newlines.\<close>

theorem base64_roundtrip:
  assumes "list_all (\<lambda>b. b < 256) bs"
    and "filter (\<lambda>c. c \<notin> {CHR '' '', CHR 0x09, CHR 0x0D, CHR 0x0A}) s \<in> {base64_encode bs, base64_unpadded bs}"
  shows "base64_decode s = Some bs"
proof -
  have "base64_stripped s = base64_unpadded bs"
    using assms(2) unpadded_no_eq [OF assms(1)]
    by (auto simp: base64_stripped_def base64_encode_def takeWhile_append takeWhile_eq_all_conv)
  then show ?thesis using decode_unpadded [OF assms(1)] by (simp add: base64_decode_def)
qed

theorem base64_roundtrip_witness:
  "base64_decode (''AQ'' @ [CHR 0x0A] @ ''ID/w=='') = Some [1, 2, 3, 255]"
proof -
  have "list_all (\<lambda>b. b < 256) [1, 2, 3, 255 :: nat]" by simp
  moreover have "filter (\<lambda>c. c \<notin> {CHR '' '', CHR 0x09, CHR 0x0D, CHR 0x0A}) (''AQ'' @ [CHR 0x0A] @ ''ID/w=='')
      \<in> {base64_encode [1, 2, 3, 255], base64_unpadded [1, 2, 3, 255]}"
    by (simp add: base64_encode_def base64_char_def base64_alphabet_def numeral_2_eq_2)
  ultimately show ?thesis by (rule base64_roundtrip)
qed

section \<open>What is requested\<close>

lemma foldl_restrict:
  "foldl restrict_step (Some prev) qs = Some (filter (\<lambda>v. \<forall>q \<in> set qs. vals_contain (restricted_values q) v) prev)"
  by (induction qs arbitrary: prev) (auto simp: restrict_step_def intro!: filter_cong)

definition dedupe_onto_values :: "json list \<Rightarrow> json list \<Rightarrow> json list" where
  "dedupe_onto_values acc vs = foldl (\<lambda>out v. if vals_contain out v then out else out @ [v]) acc vs"

lemma dedupe_onto_values_Cons:
  "dedupe_onto_values acc (v # vs) = dedupe_onto_values (if vals_contain acc v then acc else acc @ [v]) vs"
  by (simp add: dedupe_onto_values_def)

lemma vals_contain_mono: "vals_contain xs v \<Longrightarrow> vals_contain (xs @ ys) v"
  by (simp add: vals_contain_def)

lemma dedupe_onto_values_extends: "\<exists>rest. dedupe_onto_values acc vs = acc @ rest \<and> set rest \<subseteq> set vs"
proof (induction vs arbitrary: acc)
  case (Cons v vs)
  show ?case
  proof (cases "vals_contain acc v")
    case True
    with Cons.IH [of acc] show ?thesis by (auto simp: dedupe_onto_values_Cons)
  next
    case False
    from Cons.IH [of "acc @ [v]"] False show ?thesis by (auto simp: dedupe_onto_values_Cons)
  qed
qed (simp add: dedupe_onto_values_def)

lemma dedupe_onto_values_distinct:
  "sorted_wrt (\<lambda>a b. \<not> value_eq a b) acc \<Longrightarrow> sorted_wrt (\<lambda>a b. \<not> value_eq a b) (dedupe_onto_values acc vs)"
proof (induction vs arbitrary: acc)
  case (Cons v vs)
  then show ?case
    by (auto simp: dedupe_onto_values_Cons vals_contain_def list_ex_iff sorted_wrt_append)
qed (simp add: dedupe_onto_values_def)

lemma dedupe_onto_values_covers:
  "v \<in> set vs \<Longrightarrow> json_wf v \<Longrightarrow> vals_contain (dedupe_onto_values acc vs) v"
proof (induction vs arbitrary: acc)
  case (Cons w vs)
  show ?case
  proof (cases "v = w")
    case True
    let ?acc = "if vals_contain acc w then acc else acc @ [w]"
    have "vals_contain ?acc w" using True Cons.prems(2) by (auto simp: vals_contain_def value_eq_refl)
    moreover obtain rest where "dedupe_onto_values ?acc vs = ?acc @ rest" using dedupe_onto_values_extends by blast
    ultimately show ?thesis using True by (simp only: dedupe_onto_values_Cons vals_contain_mono)
  next
    case False
    with Cons show ?thesis by (auto simp: dedupe_onto_values_Cons)
  qed
qed simp

lemma dedupe_values_alt: "dedupe_values vs = dedupe_onto_values [] vs"
  by (simp add: dedupe_values_def dedupe_onto_values_def)

definition quals_on :: "qual list \<Rightarrow> string \<Rightarrow> qual list" where
  "quals_on quals column = filter (\<lambda>q. field q = column) quals"

lemma restricted_cases:
  "restricted quals column = (case quals_on quals column of
     [] \<Rightarrow> None
   | q # qs \<Rightarrow> Some (dedupe_values (filter (\<lambda>v. \<forall>q \<in> set qs. vals_contain (restricted_values q) v) (restricted_values q))))"
  by (simp add: restricted_def quals_on_def foldl_restrict restrict_step_def split: list.splits)

text \<open>C35. A read-through table asks the server for exactly what the quals allow: it is unrestricted only when no
  qual mentions the column; otherwise every value requested satisfies every such qual, every value
  all of them allow is requested, up to the equality of JSON values, and no value is requested
  twice.\<close>

theorem restricted_exact:
  assumes "\<forall>q \<in> set quals. \<forall>v \<in> set (restricted_values q). json_wf v"
  shows "(restricted quals column = None \<longleftrightarrow> (\<forall>q \<in> set quals. field q \<noteq> column))
    \<and> (\<forall>vs. restricted quals column = Some vs \<longrightarrow>
         (\<forall>v \<in> set vs. \<forall>q \<in> set quals. field q = column \<longrightarrow> (\<exists>r \<in> set (restricted_values q). value_eq r v))
       \<and> (\<forall>v. (\<forall>q \<in> set quals. field q = column \<longrightarrow> v \<in> set (restricted_values q)) \<longrightarrow> (\<exists>u \<in> set vs. value_eq u v))
       \<and> sorted_wrt (\<lambda>a b. \<not> value_eq a b) vs)"
proof (cases "quals_on quals column")
  case Nil
  then show ?thesis by (auto simp: restricted_cases quals_on_def filter_empty_conv)
next
  case (Cons q qs)
  let ?cand = "filter (\<lambda>v. \<forall>q \<in> set qs. vals_contain (restricted_values q) v) (restricted_values q)"
  have on: "set (q # qs) = {p \<in> set quals. field p = column}"
    unfolding Cons [symmetric] by (auto simp: quals_on_def)
  have r: "restricted quals column = Some (dedupe_onto_values [] ?cand)" by (simp add: restricted_cases Cons dedupe_values_alt)
  have wf: "json_wf v" if "v \<in> set (restricted_values p)" "p \<in> set (q # qs)" for v p
    using that assms on by blast
  have sub: "set (dedupe_onto_values [] ?cand) \<subseteq> set ?cand" using dedupe_onto_values_extends [of "[]" ?cand] by auto
  have sat: "\<exists>r \<in> set (restricted_values p). value_eq r v" if "v \<in> set ?cand" "p \<in> set (q # qs)" for v p
    using that wf [of v q] value_eq_refl [of v] by (cases "p = q") (auto simp: vals_contain_def list_ex_iff)
  have cov: "\<exists>u \<in> set (dedupe_onto_values [] ?cand). value_eq u v" if v: "\<forall>p \<in> set (q # qs). v \<in> set (restricted_values p)" for v
  proof -
    have "v \<in> set ?cand" using v wf by (auto simp: vals_contain_def list_ex_iff intro: value_eq_refl)
    then have "vals_contain (dedupe_onto_values [] ?cand) v" using v wf by (intro dedupe_onto_values_covers) auto
    then show ?thesis by (simp add: vals_contain_def list_ex_iff)
  qed
  have dist: "sorted_wrt (\<lambda>a b. \<not> value_eq a b) (dedupe_onto_values [] ?cand)" by (rule dedupe_onto_values_distinct) simp
  have a: "\<forall>v \<in> set (dedupe_onto_values [] ?cand). \<forall>p \<in> {p \<in> set quals. field p = column}. \<exists>r \<in> set (restricted_values p). value_eq r v"
    unfolding on [symmetric] using sat sub by blast
  have b: "\<forall>v. (\<forall>p \<in> {p \<in> set quals. field p = column}. v \<in> set (restricted_values p)) \<longrightarrow> (\<exists>u \<in> set (dedupe_onto_values [] ?cand). value_eq u v)"
    unfolding on [symmetric] using cov by blast
  have "\<not> (\<forall>q \<in> set quals. field q \<noteq> column)" using on by auto
  with r a b dist show ?thesis by simp
qed

theorem restricted_exact_witness:
  "restricted [any_equal ''uri'' [JStr ''a'', JStr ''b'', JStr ''a''], qual_equal ''uri'' (JStr ''a'')] ''uri'' = Some [JStr ''a'']
   \<and> (\<exists>u \<in> set [JStr ''a'']. value_eq u (JStr ''a''))"
proof -
  let ?quals = "[any_equal ''uri'' [JStr ''a'', JStr ''b'', JStr ''a''], qual_equal ''uri'' (JStr ''a'')]"
  have wf: "\<forall>q \<in> set ?quals. \<forall>v \<in> set (restricted_values q). json_wf v"
    by (simp add: any_equal_def qual_equal_def restricted_values_def)
  have r: "restricted ?quals ''uri'' = Some [JStr ''a'']"
    by (simp add: restricted_def restrict_step_def any_equal_def qual_equal_def restricted_values_def vals_contain_def dedupe_values_def)
  have "\<forall>q \<in> set ?quals. field q = ''uri'' \<longrightarrow> JStr ''a'' \<in> set (restricted_values q)"
    by (simp add: any_equal_def qual_equal_def restricted_values_def)
  with restricted_exact [OF wf, of "''uri''"] r show ?thesis by blast
qed

section \<open>Refusals\<close>

lemma completion_columns_missing:
  "c \<in> set cs \<Longrightarrow> restricted quals c = None \<Longrightarrow>
     \<exists>msg. collect_results (completion_column quals) cs = Inl (FeatureNotSupported msg, ''completion/complete'')"
proof (induction cs)
  case (Cons d cs)
  show ?case
  proof (cases "restricted quals d")
    case None
    then show ?thesis by (simp add: completion_column_def ctx_feature_def)
  next
    case (Some vs)
    with Cons show ?thesis by (auto simp: completion_column_def)
  qed
qed simp

lemma unqualified_uris_cap:
  "unqualified_uris env ctx b = (Inr uris, b') \<Longrightarrow> int (length uris) \<le> max_unqualified_reads (options (tc_resolved (sc_base ctx)))"
  by (auto simp: unqualified_uris_def Let_def ebind_Inr eret_def elift_def split: if_splits)

text \<open>C36. A scan that lacks a required qual is refused with 0A000 before anything is sent: \<^verbatim>\<open>prompt_messages\<close>
  without a prompt, \<^verbatim>\<open>completions\<close> without one of its three quals, \<^verbatim>\<open>resource_contents\<close> without a uri when
  unqualified reads are not enabled. When they are, an unqualified scan reads at most
  \<^verbatim>\<open>max_unqualified_reads\<close> resources.\<close>

theorem readthrough_refusals:
  "(restricted (sc_quals ctx) ''prompt'' = None \<longrightarrow>
      (\<exists>rep. prompt_messages_begin_scan env ctx b = (Inl rep, b) \<and> errcode_sqlstate (rep_code rep) = ''0A000''))
   \<and> ((\<exists>c \<in> set COMPLETION_REQUIRED. restricted (sc_quals ctx) c = None) \<longrightarrow>
      (\<exists>rep. completions_begin_scan env ctx b = (Inl rep, b) \<and> errcode_sqlstate (rep_code rep) = ''0A000''))
   \<and> (restricted (sc_quals ctx) ''uri'' = None \<and> max_unqualified_reads (options (tc_resolved (sc_base ctx))) = 0 \<longrightarrow>
      (\<exists>rep. resource_contents_begin_scan env ctx b = (Inl rep, b) \<and> errcode_sqlstate (rep_code rep) = ''0A000''))
   \<and> (unqualified_uris env ctx b = (Inr uris, b') \<longrightarrow>
      int (length uris) \<le> max_unqualified_reads (options (tc_resolved (sc_base ctx))))"
proof (intro conjI impI)
  assume "restricted (sc_quals ctx) ''prompt'' = None"
  then show "\<exists>rep. prompt_messages_begin_scan env ctx b = (Inl rep, b) \<and> errcode_sqlstate (rep_code rep) = ''0A000''"
    by (simp add: prompt_messages_begin_scan_def readthrough_begin_scan_def prompt_messages_rows_def ctx_feature_def
        raise_ctx_def Let_def eff_simps)
next
  assume "\<exists>c \<in> set COMPLETION_REQUIRED. restricted (sc_quals ctx) c = None"
  then obtain msg where "collect_results (completion_column (sc_quals ctx)) COMPLETION_REQUIRED = Inl (FeatureNotSupported msg, ''completion/complete'')"
    using completion_columns_missing by blast
  then show "\<exists>rep. completions_begin_scan env ctx b = (Inl rep, b) \<and> errcode_sqlstate (rep_code rep) = ''0A000''"
    by (simp add: completions_begin_scan_def readthrough_begin_scan_def completions_rows_def raise_ctx_def Let_def eff_simps)
next
  assume "restricted (sc_quals ctx) ''uri'' = None \<and> max_unqualified_reads (options (tc_resolved (sc_base ctx))) = 0"
  then show "\<exists>rep. resource_contents_begin_scan env ctx b = (Inl rep, b) \<and> errcode_sqlstate (rep_code rep) = ''0A000''"
    by (simp add: resource_contents_begin_scan_def readthrough_begin_scan_def resource_contents_rows_def unqualified_uris_def
        ctx_feature_def raise_ctx_def Let_def eff_simps)
qed (rule unqualified_uris_cap)

definition unqualified_scan :: scan_context where
  "unqualified_scan = \<lparr>sc_base = \<lparr>tc_spec = RESOURCE_CONTENTS_SPEC, tc_server_name = ''s'', tc_resolved = role_five, tc_options = []\<rparr>,
     sc_quals = []\<rparr>"

theorem readthrough_refusals_witness:
  "\<exists>rep. resource_contents_begin_scan forgetful_server unqualified_scan other_role_store = (Inl rep, other_role_store)
     \<and> errcode_sqlstate (rep_code rep) = ''0A000''"
proof -
  have "restricted (sc_quals unqualified_scan) ''uri'' = None" "max_unqualified_reads (options (tc_resolved (sc_base unqualified_scan))) = 0"
    by (simp_all add: unqualified_scan_def restricted_def role_five_def)
  with readthrough_refusals [where ctx = unqualified_scan and env = forgetful_server and b = other_role_store] show ?thesis by blast
qed

section \<open>Isolation\<close>

lemma ctx_request_confined: "evolves (confined res) (ctx_request env res mthd args)"
  unfolding ctx_request_def by (intro conf.evo_map_err conf_scope.scope_with_session conf_scope.scope_request)

lemma unqualified_uris_confined: "evolves (confined (tc_resolved (sc_base ctx))) (unqualified_uris env ctx)"
  unfolding unqualified_uris_def Let_def
  by (auto intro!: conf.evo_intros conf_scope.scope_with_session conf_scope.scope_list_all)

lemma readthrough_confined:
  "evolves (confined (tc_resolved (sc_base ctx))) (resource_contents_begin_scan env ctx)"
  "evolves (confined (tc_resolved (sc_base ctx))) (prompt_messages_begin_scan env ctx)"
  "evolves (confined (tc_resolved (sc_base ctx))) (completions_begin_scan env ctx)"
  unfolding resource_contents_begin_scan_def prompt_messages_begin_scan_def completions_begin_scan_def readthrough_begin_scan_def
    resource_contents_rows_def prompt_messages_rows_def completions_rows_def Let_def
  by (auto intro!: conf.evo_intros ctx_request_confined unqualified_uris_confined split: option.splits prod.splits)

section \<open>Typing\<close>

lemma put_opt_typed:
  "row_typed sp r \<Longrightarrow> (\<And>ty. column_type_of sp column = Some ty \<Longrightarrow> cell_fits ty cell) \<Longrightarrow> row_typed sp (put_opt sp column cell r)"
  by (auto simp: put_opt_def intro!: row_typed_set split: option.splits)

lemma resource_content_row_typed:
  assumes "resource_content_row RESOURCE_CONTENTS_SPEC uri idx content = Inr r"
  shows "row_typed RESOURCE_CONTENTS_SPEC r"
  using assms unfolding resource_content_row_def Let_def comp_def
  by (auto simp: rmap_eq_Inr_iff column_type_eval RESOURCE_CONTENTS_SPEC_def
      intro!: row_typed_set put_opt_typed row_typed_empty split: option.splits)

lemma prompt_message_row_typed: "row_typed PROMPT_MESSAGES_SPEC (prompt_message_row PROMPT_MESSAGES_SPEC n a d i m)"
  unfolding prompt_message_row_def Let_def comp_def
  by (intro row_typed_set put_opt_typed row_typed_empty) (auto simp: column_type_eval PROMPT_MESSAGES_SPEC_def)

lemma completion_row_typed: "row_typed COMPLETIONS_SPEC (completion_row COMPLETIONS_SPEC rf n v t h i c)"
  unfolding completion_row_def comp_def
  by (intro row_typed_set put_opt_typed row_typed_empty) (auto simp: column_type_eval COMPLETIONS_SPEC_def cell_fits_def)

end
