(* ===== verification/Tool_Calls.thy ===== *)
theory Tool_Calls
  imports Readthrough
begin

unbundle bit_operations_syntax

text \<open>
  \<^verbatim>\<open>tables/tool_calls.rs\<close>: invocation by INSERT, the per-role call log, and the audit append. SPI, the
  random source, the wall clock and the JSON printer are the parameter \<open>pg_host\<close>; what SPI answers
  may depend on the statements run before.
\<close>

section \<open>State and environment\<close>

record call_record =
  cr_id :: "nat list"
  cr_tool :: string
  cr_arguments :: json
  cr_content :: "json option"
  cr_structured :: "json option"
  cr_is_error :: bool
  cr_error :: "json option"
  cr_called_at :: int
  cr_duration_ms :: int

datatype log_level = Level_Warning | Level_Notice

record backend = catalog_store +
  call_logs :: "session_key \<Rightarrow> call_record list option"
  spi_log :: "string list"
  notices :: "(log_level \<times> string) list"

record pg_host =
  spi_run :: "string list \<Rightarrow> string \<Rightarrow> string option"
  spi_get_one :: "string list \<Rightarrow> string \<Rightarrow> string + string option"
  spi_select :: "string list \<Rightarrow> string \<Rightarrow> string + (string \<Rightarrow> string option) list"
  strong_random :: "nat \<Rightarrow> nat list option"
  unix_micros :: "nat \<Rightarrow> nat option"
  columns_from_json :: "string \<Rightarrow> string + (string \<times> string) list"
  json_text :: "json \<Rightarrow> string"
  cell_debug :: "cell \<Rightarrow> string"

definition LOG_CAP :: nat where "LOG_CAP = 1000"
definition PG_EPOCH_UNIX_MICROS :: int where "PG_EPOCH_UNIX_MICROS = 946684800000000"

definition now_pg_micros :: "pg_host \<Rightarrow> nat \<Rightarrow> int" where
  "now_pg_micros pg n = wrap_i64 (wrap_i64 (int (unwrap_or (unix_micros pg n) 0)) - PG_EPOCH_UNIX_MICROS)"

text \<open>A statement through SPI: it joins the log when it succeeds.\<close>

definition spi_exec :: "pg_host \<Rightarrow> string \<Rightarrow> ('z backend_scheme, string, unit) effe" where
  "spi_exec pg sql b =
     (case spi_run pg (spi_log b) sql of
        Some e \<Rightarrow> (Inl e, b)
      | None \<Rightarrow> (Inr (), b\<lparr>spi_log := spi_log b @ [sql]\<rparr>))"

section \<open>Identifiers\<close>

text \<open>\<^verbatim>\<open>to_be_bytes\<close> of a \<^verbatim>\<open>u128\<close>.\<close>

definition be_bytes16 :: "int \<Rightarrow> nat list" where
  "be_bytes16 i = map (\<lambda>k. nat (i mod 2 ^ 128) div 256 ^ (15 - k) mod 256) [0..<16]"

definition stamp_uuid :: "nat list \<Rightarrow> nat list" where
  "stamp_uuid bytes =
     (let b1 = bytes[6 := (bytes ! 6 AND 0x0f) OR 0x40] in b1[8 := (b1 ! 8 AND 0x3f) OR 0x80])"

definition uuid_v4 :: "pg_host \<Rightarrow> nat \<Rightarrow> nat list" where
  "uuid_v4 pg n =
     stamp_uuid (case strong_random pg n of Some bytes \<Rightarrow> bytes | None \<Rightarrow> be_bytes16 (now_pg_micros pg n))"

definition uuid_hex :: "nat list \<Rightarrow> string" where
  "uuid_hex bytes =
     (let hex = concat (map hex2 bytes)
      in take 8 hex @ ''-'' @ take 4 (drop 8 hex) @ ''-'' @ take 4 (drop 12 hex) @ ''-'' @ take 4 (drop 16 hex)
         @ ''-'' @ take 12 (drop 20 hex))"

section \<open>The call log\<close>

text \<open>\<^verbatim>\<open>while log.len() > LOG_CAP { log.pop_front(); }\<close>\<close>

function pop_to_cap :: "'a list \<Rightarrow> 'a list" where
  "pop_to_cap calls = (if length calls > LOG_CAP then pop_to_cap (tl calls) else calls)"
  by pat_completeness auto
termination by (relation "measure length") auto

declare pop_to_cap.simps [simp del]

definition record_call :: "session_key \<Rightarrow> call_record \<Rightarrow> 'z backend_scheme \<Rightarrow> 'z backend_scheme" where
  "record_call key rec b =
     b\<lparr>call_logs := (call_logs b)(key \<mapsto> pop_to_cap (unwrap_or (call_logs b key) [] @ [rec]))\<rparr>"

definition snapshot :: "session_key \<Rightarrow> 'z backend_scheme \<Rightarrow> call_record list" where
  "snapshot key b = (case call_logs b key of Some calls \<Rightarrow> rev calls | None \<Rightarrow> [])"

definition row_from_record :: "call_record \<Rightarrow> row" where
  "row_from_record rec =
     [Some (Cell_Uuid (cr_id rec)), Some (Cell_Text (cr_tool rec)), Some (Cell_Json (cr_arguments rec)),
      map_option Cell_Json (cr_content rec), map_option Cell_Json (cr_structured rec), Some (Cell_Bool (cr_is_error rec)),
      map_option Cell_Json (cr_error rec), Some (Cell_TimestampTz (cr_called_at rec)), Some (Cell_Int4 (cr_duration_ms rec))]"

text \<open>A vector iterator: the rows not yet returned. Restarting it does nothing.\<close>

record log_cursor =
  lc_rows :: "row list"

definition log_iter_scan :: "log_cursor iter" where
  "log_iter_scan c = (case lc_rows c of [] \<Rightarrow> Inr (None, c) | r # rs \<Rightarrow> Inr (Some r, c\<lparr>lc_rows := rs\<rparr>))"

definition default_re_scan :: "'c \<Rightarrow> 'c" where
  "default_re_scan c = c"

definition log_entry_matches :: "qual list \<Rightarrow> call_record \<Rightarrow> bool" where
  "log_entry_matches quals rec =
     list_all (\<lambda>q.
       case (if field q = ''tool'' then Some (JStr (cr_tool rec))
             else if field q = ''id'' then Some (JStr (uuid_hex (cr_id rec))) else None) of
         None \<Rightarrow> True
       | Some candidate \<Rightarrow>
           (case operator q of
              Equal \<Rightarrow> value_eq (qvalue q) candidate
            | AnyEqual \<Rightarrow> (case as_array (qvalue q) of Some items \<Rightarrow> vals_contain items candidate | None \<Rightarrow> False))) quals"

definition tool_calls_begin_scan :: "scan_context \<Rightarrow> ('z backend_scheme, log_cursor) eff" where
  "tool_calls_begin_scan ctx b =
     (Inr \<lparr>lc_rows = map row_from_record (filter (log_entry_matches (sc_quals ctx)) (snapshot (cache_key (sc_base ctx)) b))\<rparr>, b)"

section \<open>The audit append\<close>

definition sql_literal :: "string \<Rightarrow> string" where
  "sql_literal v =
     (let clean_text = replace_char (CHR 0x00) [] v
      in [CHR 0x27] @ replace_char (CHR 0x27) [CHR 0x27, CHR 0x27] clean_text @ [CHR 0x27])"

definition sql_ident :: "string \<Rightarrow> string" where
  "sql_ident v = replace_char (CHR 0x22) [CHR 0x22, CHR 0x22] v"

definition sql_jsonb :: "pg_host \<Rightarrow> json \<Rightarrow> string" where
  "sql_jsonb pg v = sql_literal (json_text pg v) @ ''::jsonb''"

definition sql_jsonb_opt :: "pg_host \<Rightarrow> json option \<Rightarrow> string" where
  "sql_jsonb_opt pg v = (case v of Some x \<Rightarrow> sql_jsonb pg x | None \<Rightarrow> ''NULL'')"

definition AUDIT_EXPECTED :: "(string \<times> string) list" where
  "AUDIT_EXPECTED = [(''id'', ''uuid''), (''server'', ''text''), (''role_name'', ''name''), (''tool'', ''text''),
     (''arguments'', ''jsonb''), (''content'', ''jsonb''), (''structured'', ''jsonb''), (''is_error'', ''boolean''),
     (''error'', ''jsonb''), (''called_at'', ''timestamp with time zone''), (''duration_ms'', ''integer'')]"

fun check_audit_columns :: "string \<Rightarrow> string \<Rightarrow> (string \<times> string) list \<Rightarrow> (string \<times> string) list \<Rightarrow> unit mcp_result" where
  "check_audit_columns schema table found [] = Inr ()"
| "check_audit_columns schema table found ((column, want) # rest) =
     (case map_of found column of
        None \<Rightarrow> Inl (DatatypeMismatch (''audit table \"'' @ schema @ ''.'' @ table @ ''\" is missing column \"'' @ column
                 @ ''\" (expected '' @ want @ ''); the extension never alters the table (PRD-7 '' @ sect_sign @ ''4.8)''))
      | Some have_ty \<Rightarrow>
          if have_ty \<noteq> want then
            Inl (DatatypeMismatch (''audit table \"'' @ schema @ ''.'' @ table @ ''\" column \"'' @ column @ ''\" is '' @ have_ty
              @ '', expected '' @ want @ ''; the extension never alters the table (PRD-7 '' @ sect_sign @ ''4.8)''))
          else check_audit_columns schema table found rest)"

definition audit_listing_sql :: "string \<Rightarrow> string \<Rightarrow> string" where
  "audit_listing_sql schema table =
     ''SELECT jsonb_object_agg(a.attname::text, format_type(a.atttypid, a.atttypmod)::text)::text'' @ [CHR 0x0A]
     @ ''           FROM pg_attribute a'' @ [CHR 0x0A]
     @ ''           JOIN pg_class c ON c.oid = a.attrelid'' @ [CHR 0x0A]
     @ ''           JOIN pg_namespace n ON n.oid = c.relnamespace'' @ [CHR 0x0A]
     @ ''          WHERE n.nspname = '' @ sql_literal schema @ '' AND c.relname = '' @ sql_literal table @ [CHR 0x0A]
     @ ''            AND a.attnum > 0 AND NOT a.attisdropped''"

definition validate_audit_shape :: "pg_host \<Rightarrow> string \<Rightarrow> string \<Rightarrow> ('z backend_scheme, unit) eff" where
  "validate_audit_shape pg schema table b =
     (let qualified = sql_ident schema @ ''.'' @ sql_ident table;
          get_one = (\<lambda>sql. case spi_get_one pg (spi_log b) sql of
                       Inl e \<Rightarrow> Inl (Internal (''audit lookup failed: '' @ e)) | Inr v \<Rightarrow> Inr v)
      in (rbind (get_one (''SELECT to_regclass('' @ [CHR 0x27] @ qualified @ [CHR 0x27] @ '')::text'')) (\<lambda>present.
          if present = None then
            Inl (DatatypeMismatch (''audit table '' @ qualified @ '' does not exist; the extension never creates it '' @ em_dash
              @ '' create it with the shape from PRD-7 '' @ sect_sign @ ''4.8 (first column: id uuid)''))
          else
            rbind (get_one (audit_listing_sql schema table)) (\<lambda>listing.
            rbind (case listing of
                     None \<Rightarrow> Inr []
                   | Some raw \<Rightarrow> (case columns_from_json pg raw of
                                    Inl e \<Rightarrow> Inl (Internal (''audit column listing was not valid json: '' @ e))
                                  | Inr cols \<Rightarrow> Inr cols)) (\<lambda>found.
            check_audit_columns schema table found AUDIT_EXPECTED))), b))"

definition audit_insert_sql :: "pg_host \<Rightarrow> string \<Rightarrow> string \<Rightarrow> string \<Rightarrow> call_record \<Rightarrow> string" where
  "audit_insert_sql pg schema table server_name rec =
     ''INSERT INTO \"'' @ sql_ident schema @ ''\".\"'' @ sql_ident table @ ''\" (id, server, role_name, tool, arguments, content, structured, is_error, error, called_at, duration_ms) VALUES (''
     @ [CHR 0x27] @ uuid_hex (cr_id rec) @ [CHR 0x27] @ ''::uuid, '' @ sql_literal server_name @ '', current_user, ''
     @ sql_literal (cr_tool rec) @ '', '' @ sql_jsonb pg (cr_arguments rec) @ '', '' @ sql_jsonb_opt pg (cr_content rec) @ '', ''
     @ sql_jsonb_opt pg (cr_structured rec) @ '', '' @ (if cr_is_error rec then ''TRUE'' else ''FALSE'') @ '', ''
     @ sql_jsonb_opt pg (cr_error rec) @ '', ''
     @ [CHR 0x27] @ ''2000-01-01 00:00:00+00'' @ [CHR 0x27] @ ''::timestamptz + '' @ show_int (cr_called_at rec)
     @ '' * interval '' @ [CHR 0x27] @ ''1 microsecond'' @ [CHR 0x27] @ '', '' @ show_int (cr_duration_ms rec) @ '')''"

definition audit_append :: "pg_host \<Rightarrow> table_context \<Rightarrow> call_record \<Rightarrow> ('z backend_scheme, unit) eff" where
  "audit_append pg ctx rec =
     (case audit_table (options (tc_resolved ctx)) of
        None \<Rightarrow> eret ()
      | Some target \<Rightarrow>
          (case split_once (CHR ''.'') target of
             None \<Rightarrow> elift (Inl (Internal (''audit_table \"'' @ target @ ''\" lost its qualification'')))
           | Some (schema, table) \<Rightarrow>
               ebind (validate_audit_shape pg schema table) (\<lambda>_.
               emap_err (\<lambda>e. Internal (''audit insert into \"'' @ target @ ''\" failed: '' @ e))
                 (spi_exec pg (audit_insert_sql pg schema table (tc_server_name ctx) rec)))))"

section \<open>INSERT\<close>

definition insert_tool :: "pg_host \<Rightarrow> insert_row \<Rightarrow> string mcp_result" where
  "insert_tool pg input =
     (case insert_value input ''tool'' of
        Some (Cell_Text tool) \<Rightarrow> Inr tool
      | Some other \<Rightarrow> Inl (Internal (''column \"tool\" arrived as '' @ cell_debug pg other @ ''; expected text''))
      | None \<Rightarrow> Inl (NotNullViolation (''null value in column \"tool\" of relation \"tool_calls\": a call names a tool (PRD-7 ''
                  @ sect_sign @ ''4.7)'')))"

definition insert_arguments :: "insert_row \<Rightarrow> json" where
  "insert_arguments input = (case insert_value input ''arguments'' of Some (Cell_Json v) \<Rightarrow> v | _ \<Rightarrow> JObj [])"

definition clamp_i32 :: "nat \<Rightarrow> int" where
  "clamp_i32 n = (if n < 2 ^ 31 then int n else 2 ^ 31 - 1)"

definition completed_call :: "pg_host \<Rightarrow> string \<Rightarrow> json \<Rightarrow> json \<Rightarrow> int \<Rightarrow> int \<Rightarrow> nat \<Rightarrow> call_record" where
  "completed_call pg tool arguments result called duration n =
     \<lparr>cr_id = uuid_v4 pg n, cr_tool = tool, cr_arguments = arguments, cr_content = jget ''content'' result,
      cr_structured = jget ''structuredContent'' result, cr_is_error = is_error_result result, cr_error = None,
      cr_called_at = called, cr_duration_ms = duration\<rparr>"

definition tool_calls_insert :: "env \<Rightarrow> pg_host \<Rightarrow> table_context \<Rightarrow> insert_row \<Rightarrow> ('z backend_scheme, row) eff" where
  "tool_calls_insert env pg ctx input =
     ebind (elift (insert_tool pg input)) (\<lambda>tool b0.
     (let arguments = insert_arguments input;
          called = now_pg_micros pg (tick b0);
          args = JObj [(''name'', JStr tool), (''arguments'', arguments)]
      in ebind (with_session env (tc_resolved ctx) (\<lambda>tr. session_request env tr ''tools/call'' args)) (\<lambda>result b1.
         (let rec = completed_call pg tool arguments result called (clamp_i32 (clock b1 - clock b0)) (tick b1)
          in ebind (audit_append pg ctx rec) (\<lambda>_. eret (row_from_record rec)) (record_call (cache_key ctx) rec b1))) b0))"

section \<open>The log is bounded and newest first\<close>

interpretation log: scan_cursor log_iter_scan lc_rows
  by unfold_locales (auto simp: log_iter_scan_def)

lemma pop_to_cap_drop: "pop_to_cap xs = drop (length xs - LOG_CAP) xs"
proof (induction xs rule: pop_to_cap.induct)
  case (1 xs)
  show ?case
  proof (cases "length xs > LOG_CAP")
    case True
    then have "pop_to_cap xs = drop (length (tl xs) - LOG_CAP) (tl xs)" using 1 by (subst pop_to_cap.simps) simp
    also have "\<dots> = drop (length xs - LOG_CAP) xs" using True by (cases xs) (auto simp: Suc_diff_le)
    finally show ?thesis .
  qed (subst pop_to_cap.simps, simp)
qed

lemma rev_pop_to_cap: "rev (pop_to_cap xs) = take LOG_CAP (rev xs)"
  by (cases "length xs \<le> LOG_CAP") (simp_all add: pop_to_cap_drop rev_drop)

definition log_bounded :: "'z backend_scheme \<Rightarrow> bool" where
  "log_bounded b \<longleftrightarrow> (\<forall>k. length (snapshot k b) \<le> LOG_CAP)"

lemma snapshot_record:
  "snapshot k (record_call key rec b) = (if k = key then take LOG_CAP (rec # snapshot key b) else snapshot k b)"
  by (auto simp: snapshot_def record_call_def rev_pop_to_cap split: option.splits)

lemma log_bounded_record: "log_bounded b \<Longrightarrow> log_bounded (record_call key rec b)"
  by (simp add: log_bounded_def snapshot_record)

text \<open>C30. The call log of a role on a server holds its newest calls, newest first, and never more than a
  thousand, however many calls are recorded; the logs of other roles and servers are not affected,
  and a scan of \<^verbatim>\<open>tool_calls\<close> reads the matching entries from memory without changing anything.\<close>

theorem call_log_newest:
  assumes "log_bounded b"
  shows "snapshot k (fold (record_call key) recs b) = (if k = key then take 1000 (rev recs @ snapshot key b) else snapshot k b)
    \<and> log_bounded (fold (record_call key) recs b)
    \<and> (\<exists>c c'. tool_calls_begin_scan ctx b = (Inr c, b)
        \<and> (let rows = map row_from_record (filter (log_entry_matches (sc_quals ctx)) (snapshot (cache_key (sc_base ctx)) b))
           in drain log_iter_scan (length rows + 1) c = Some (Inr (rows, c'))))"
proof (intro conjI)
  show "snapshot k (fold (record_call key) recs b) = (if k = key then take 1000 (rev recs @ snapshot key b) else snapshot k b)"
    using assms
  proof (induction recs arbitrary: b)
    case Nil
    then have "length (snapshot key b) \<le> 1000" unfolding log_bounded_def LOG_CAP_def by blast
    then show ?case by simp
  next
    case (Cons rec recs)
    have "take 1000 (xs @ take 1000 ys) = take 1000 (xs @ ys)" for xs ys :: "call_record list" by simp
    then have "take 1000 (rev recs @ take 1000 (rec # snapshot key b)) = take 1000 (rev (rec # recs) @ snapshot key b)"
      by (simp del: take_Cons_numeral take_append)
    with Cons.IH [OF log_bounded_record [OF Cons.prems, of key rec]] show ?case
      by (simp add: snapshot_record LOG_CAP_def del: take_Cons_numeral take_append)
  qed
  show "log_bounded (fold (record_call key) recs b)"
    using assms by (induction recs arbitrary: b) (simp_all add: log_bounded_record)
  define rows where "rows = map row_from_record (filter (log_entry_matches (sc_quals ctx)) (snapshot (cache_key (sc_base ctx)) b))"
  obtain c' where "drain log_iter_scan (length rows + 1) \<lparr>lc_rows = rows\<rparr> = Some (Inr (rows, c'))"
    using log.drain_all [of "\<lparr>lc_rows = rows\<rparr>" "length rows + 1"] by auto
  then show "\<exists>c c'. tool_calls_begin_scan ctx b = (Inr c, b) \<and> (let rows =
      map row_from_record (filter (log_entry_matches (sc_quals ctx)) (snapshot (cache_key (sc_base ctx)) b))
      in drain log_iter_scan (length rows + 1) c = Some (Inr (rows, c')))"
    unfolding tool_calls_begin_scan_def rows_def [symmetric] Let_def by blast
qed

definition ping_call :: call_record where
  "ping_call = \<lparr>cr_id = replicate 16 0, cr_tool = ''ping'', cr_arguments = JObj [], cr_content = None, cr_structured = None,
     cr_is_error = True, cr_error = None, cr_called_at = 0, cr_duration_ms = 3\<rparr>"

definition empty_backend :: backend where
  "empty_backend = \<lparr>sent = [], clock = 0, tick = 0, sessions = (\<lambda>_. None), caches = (\<lambda>_. None), call_logs = (\<lambda>_. None),
     spi_log = [], notices = []\<rparr>"

theorem call_log_newest_witness:
  "log_bounded empty_backend
    \<and> snapshot (1, 5) (fold (record_call (1, 5)) [ping_call, ping_call\<lparr>cr_tool := ''pong''\<rparr>] empty_backend)
       = [ping_call\<lparr>cr_tool := ''pong''\<rparr>, ping_call]"
proof -
  have b: "log_bounded empty_backend" by (simp add: log_bounded_def snapshot_def empty_backend_def)
  from b call_log_newest [OF b, where k = "(1, 5)" and key = "(1, 5)"
      and recs = "[ping_call, ping_call\<lparr>cr_tool := ''pong''\<rparr>]"]
  show ?thesis by (simp add: snapshot_def [of _ empty_backend]) (simp add: empty_backend_def)
qed

section \<open>Restarting does not restart\<close>

text \<open>A loop over a cursor that ended has left nothing behind.\<close>

context scan_cursor
begin

lemma drain_exhausts: "drain iter_scan n c = Some (Inr (rows, c')) \<Longrightarrow> remaining c' = []"
proof (induction n arbitrary: c rows)
  case (Suc n)
  show ?case
  proof (cases "remaining c")
    case Nil
    with iter_done [OF Nil] Suc.prems show ?thesis by auto
  next
    case (Cons r rs)
    obtain d where d: "iter_scan c = Inr (Some r, d)" using iter_row [OF Cons] by blast
    with Suc.prems obtain z where z: "drain iter_scan n d = Some z" "rmap (\<lambda>(rs, c''). (r # rs, c'')) z = Inr (rows, c')"
      by auto
    then obtain rs' where "z = Inr (rs', c')" by (cases z) auto
    with z Suc.IH show ?thesis by blast
  qed
qed simp

lemma second_pass_empty:
  assumes "drain iter_scan n c = Some (Inr (rows, c'))"
  shows "\<exists>c''. drain iter_scan (Suc m) c' = Some (Inr ([], c''))"
  using iter_done [OF drain_exhausts [OF assms]] by auto

end

text \<open>The log cursor keeps the default \<^verbatim>\<open>re_scan\<close>, which does nothing: a second pass over a drained log
  finds no row, whatever the first one returned.\<close>

lemma log_rescan_is_empty:
  "drain log_iter_scan n c = Some (Inr (rows, c')) \<Longrightarrow> \<exists>c''. drain log_iter_scan (Suc m) (default_re_scan c') = Some (Inr ([], c''))"
  unfolding default_re_scan_def by (rule log.second_pass_empty)

section \<open>Version 4 identifiers\<close>

lemma and_mask_nat: "n AND (2 ^ k - 1) = n mod (2 ^ k :: nat)"
  by (metis mask_eq_exp_minus_1 take_bit_eq_mask take_bit_eq_mod)

lemma version_byte: "((n AND 15) OR 64) = 64 + n mod (16 :: nat)"
proof -
  have "n AND 15 = n mod 16" using and_mask_nat [of n 4] by simp
  moreover have "push_bit 6 1 OR (n mod 16) = 1 * 2 ^ 6 + n mod 16" by (rule push_bit_or) (simp add: order_less_le_trans [OF mod_less_divisor])
  ultimately show ?thesis by (simp add: push_bit_eq_mult or.commute)
qed

lemma variant_byte: "((n AND 63) OR 128) = 128 + n mod (64 :: nat)"
proof -
  have "n AND 63 = n mod 64" using and_mask_nat [of n 6] by simp
  moreover have "push_bit 7 1 OR (n mod 64) = 1 * 2 ^ 7 + n mod 64" by (rule push_bit_or) (simp add: order_less_le_trans [OF mod_less_divisor])
  ultimately show ?thesis by (simp add: push_bit_eq_mult or.commute)
qed

lemma be_bytes16_bytes: "length (be_bytes16 i) = 16 \<and> list_all (\<lambda>b. b < 256) (be_bytes16 i)"
  by (simp add: be_bytes16_def list_all_iff)

lemma stamp_uuid_eq:
  "stamp_uuid bytes = bytes[6 := 64 + bytes ! 6 mod 16, 8 := 128 + bytes ! 8 mod 64]"
  by (simp add: stamp_uuid_def version_byte variant_byte Let_def)

lemma stamped_bytes:
  assumes "length bytes = 16" "list_all (\<lambda>b. b < 256) bytes"
  shows "length (stamp_uuid bytes) = 16" "list_all (\<lambda>b. b < 256) (stamp_uuid bytes)"
    and "stamp_uuid bytes ! 6 div 16 = 4" "stamp_uuid bytes ! 8 div 64 = 2"
proof -
  have "bytes ! 6 mod 16 < 16" "bytes ! 8 mod 64 < 64" by simp_all
  then have "bytes ! 6 mod 16 < 192" "bytes ! 8 mod 64 < 128" by linarith+
  with assms show "length (stamp_uuid bytes) = 16" "list_all (\<lambda>b. b < 256) (stamp_uuid bytes)"
    and "stamp_uuid bytes ! 6 div 16 = 4" "stamp_uuid bytes ! 8 div 64 = 2"
    by (simp_all add: stamp_uuid_eq list_all_length nth_list_update)
qed

definition dashed :: "string \<Rightarrow> string" where
  "dashed hex = take 8 hex @ ''-'' @ take 4 (drop 8 hex) @ ''-'' @ take 4 (drop 12 hex) @ ''-'' @ take 4 (drop 16 hex)
     @ ''-'' @ take 12 (drop 20 hex)"

lemma dashed_layout:
  assumes len: "length hx = 32" and nodash: "CHR ''-'' \<notin> set hx"
  shows "length (dashed hx) = 36" "filter (\<lambda>c. c \<noteq> CHR ''-'') (dashed hx) = hx"
    and "map (\<lambda>i. dashed hx ! i) [8, 13, 18, 23] = ''----''"
proof -
  have free: "filter (\<lambda>c. c \<noteq> CHR ''-'') (take n (drop m hx)) = take n (drop m hx)"
    "filter (\<lambda>c. c \<noteq> CHR ''-'') (take n hx) = take n hx" for n m
    using nodash by (auto simp: filter_id_conv dest: in_set_takeD in_set_dropD)
  have "take 20 hx @ take 12 (drop 20 hx) = take 32 hx" "take 16 hx @ take 4 (drop 16 hx) = take 20 hx"
    "take 12 hx @ take 4 (drop 12 hx) = take 16 hx" "take 8 hx @ take 4 (drop 8 hx) = take 12 hx"
    using take_add [of 20 12 hx] take_add [of 16 4 hx] take_add [of 12 4 hx] take_add [of 8 4 hx] by simp_all
  then have pieces: "take 8 hx @ take 4 (drop 8 hx) @ take 4 (drop 12 hx) @ take 4 (drop 16 hx) @ take 12 (drop 20 hx) = hx"
    using len by (metis append_assoc take_all order_refl)
  then show "filter (\<lambda>c. c \<noteq> CHR ''-'') (dashed hx) = hx" by (simp add: dashed_def free)
  show "length (dashed hx) = 36" using len by (simp add: dashed_def)
  show "map (\<lambda>i. dashed hx ! i) [8, 13, 18, 23] = ''----''" using len by (simp add: dashed_def nth_append)
qed

lemma hex_text:
  "list_all (\<lambda>b. b < 256) bs \<Longrightarrow> length (concat (map hex2 bs)) = 2 * length bs \<and> CHR ''-'' \<notin> set (concat (map hex2 bs))"
proof (induction bs)
  case (Cons b bs)
  then have "list_all is_hex_char (hex2 b)" by (simp add: hex2_is_hex)
  then have "CHR ''-'' \<notin> set (hex2 b)" by (auto simp: list_all_iff is_hex_char_def is_ascii_digit_def byte_def)
  with Cons show ?case by (simp add: hex2_def)
qed simp

text \<open>A call identifier is sixteen bytes with the version and variant bits of a version 4 UUID, whether
  the server's random source answered or the clock had to stand in; the random bytes elsewhere are kept.
  It is written as 36 characters, dashes after 8, 12, 16 and 20 hexadecimal digits.\<close>

theorem uuid_v4_shape:
  assumes fills: "\<And>bytes. strong_random pg n = Some bytes \<Longrightarrow> length bytes = 16 \<and> list_all (\<lambda>b. b < 256) bytes"
  shows "length (uuid_v4 pg n) = 16 \<and> list_all (\<lambda>b. b < 256) (uuid_v4 pg n)
    \<and> uuid_v4 pg n ! 6 div 16 = 4 \<and> uuid_v4 pg n ! 8 div 64 = 2
    \<and> (\<forall>bytes i. strong_random pg n = Some bytes \<longrightarrow> i \<noteq> 6 \<longrightarrow> i \<noteq> 8 \<longrightarrow> uuid_v4 pg n ! i = bytes ! i)
    \<and> length (uuid_hex (uuid_v4 pg n)) = 36
    \<and> filter (\<lambda>c. c \<noteq> CHR ''-'') (uuid_hex (uuid_v4 pg n)) = concat (map hex2 (uuid_v4 pg n))
    \<and> map (\<lambda>i. uuid_hex (uuid_v4 pg n) ! i) [8, 13, 18, 23] = ''----''"
proof -
  define src where "src = (case strong_random pg n of Some bytes \<Rightarrow> bytes | None \<Rightarrow> be_bytes16 (now_pg_micros pg n))"
  have src: "length src = 16" "list_all (\<lambda>b. b < 256) src"
    unfolding src_def using fills be_bytes16_bytes by (auto split: option.splits)
  have u: "uuid_v4 pg n = stamp_uuid src" by (simp add: uuid_v4_def src_def)
  note st = stamped_bytes [OF src]
  have kept: "\<forall>bytes i. strong_random pg n = Some bytes \<longrightarrow> i \<noteq> 6 \<longrightarrow> i \<noteq> 8 \<longrightarrow> stamp_uuid src ! i = bytes ! i"
    by (simp add: src_def stamp_uuid_eq)
  have "length (concat (map hex2 (stamp_uuid src))) = 32" "CHR ''-'' \<notin> set (concat (map hex2 (stamp_uuid src)))"
    using hex_text [OF st(2)] st(1) by simp_all
  note lay = dashed_layout [OF this]
  have "uuid_hex (stamp_uuid src) = dashed (concat (map hex2 (stamp_uuid src)))" by (simp add: uuid_hex_def dashed_def Let_def)
  with lay st kept show ?thesis unfolding u by (simp only:)
qed

definition random_host :: pg_host where
  "random_host = \<lparr>spi_run = (\<lambda>_ _. None), spi_get_one = (\<lambda>_ _. Inr None),
     spi_select = (\<lambda>_ _. Inr []), strong_random = (\<lambda>_. Some (replicate 16 255)),
     unix_micros = (\<lambda>_. None), columns_from_json = (\<lambda>_. Inr []), json_text = (\<lambda>_. ''{}''), cell_debug = (\<lambda>_. ''cell'')\<rparr>"

theorem uuid_v4_shape_witness:
  "uuid_v4 random_host 0 ! 6 = 79 \<and> uuid_v4 random_host 0 ! 8 = 191 \<and> uuid_v4 random_host 0 ! 6 div 16 = 4"
proof -
  have "strong_random random_host 0 = Some bytes \<Longrightarrow> length bytes = 16 \<and> list_all (\<lambda>b. b < 256) bytes" for bytes
    by (auto simp: random_host_def list_all_iff)
  from uuid_v4_shape [OF this] show ?thesis by (simp add: uuid_v4_def random_host_def stamp_uuid_eq)
qed

section \<open>The audit statement\<close>

lemma lexes_symbols:
  assumes "list_all (\<lambda>c. is_ascii_digit c \<or> c \<in> set '':+-*'') s"
  shows "lexes_any s (map TSym s)"
  using assms
proof (induction s)
  case (Cons c s)
  then have "\<not> sql_space c \<and> c \<noteq> CHR 0x22 \<and> c \<noteq> CHR 0x27 \<and> c \<noteq> CHR ''$'' \<and> \<not> word_start c"
    by (auto simp: word_start_def sql_space_def ascii_defs)
  with Cons show ?case by (simp add: lexes_any_def sql_lex.simps(2) option.map_comp comp_def)
qed (simp add: lexes_any_Nil)

lemma lexes_number: "lexes_any (show_int i) (map TSym (show_int i))"
  using show_nat_digits by (intro lexes_symbols) (auto simp: show_int_def list_all_iff)

lemma lexes_literal_then:
  assumes "rest \<noteq> []" "hd rest \<noteq> CHR 0x27" "lexes_any rest ts"
  shows "lexes_any ([CHR 0x27] @ replace_char (CHR 0x27) [CHR 0x27, CHR 0x27] x @ [CHR 0x27] @ rest) (TLit x # ts)"
proof -
  have "rest @ more = [] \<or> hd (rest @ more) \<noteq> CHR 0x27" for more using assms(1,2) by simp
  from read_quoted_doubled [OF this, of x] assms(3) show ?thesis
    by (simp add: lexes_any_def sql_lex.simps(2) sql_space_def option.map_comp comp_def)
qed

lemma lexes_any_concat: "list_all2 lexes_any ps tss \<Longrightarrow> lexes_any (concat ps) (concat tss)"
  by (induction rule: list_all2_induct) (simp_all add: lexes_any_Nil lexes_any_append)

lemma lexes_any_fixed: "(\<And>rest. sql_lex (s @ rest) = map_option (\<lambda>u. ts @ u) (sql_lex rest)) \<Longrightarrow> lexes_any s ts"
  by (simp add: lexes_any_def)

lemmas lex_chars = sql_lex.simps(2) sql_space_def word_start_def word_char_def ascii_defs option.map_comp comp_def

definition without_nul :: "string \<Rightarrow> string" where
  "without_nul v = replace_char (CHR 0x00) [] v"

definition cast_tokens :: "string \<Rightarrow> string \<Rightarrow> token list" where
  "cast_tokens x ty = [TLit x, TSym (CHR '':''), TSym (CHR '':''), TWord ty]"

definition jsonb_tokens :: "pg_host \<Rightarrow> json option \<Rightarrow> token list" where
  "jsonb_tokens pg v = (case v of Some x \<Rightarrow> cast_tokens (without_nul (json_text pg x)) ''jsonb'' | None \<Rightarrow> [TWord ''NULL''])"

text \<open>The values of the audit row, column by column.\<close>

definition audit_values :: "pg_host \<Rightarrow> string \<Rightarrow> call_record \<Rightarrow> token list list" where
  "audit_values pg server_name rec =
     [cast_tokens (uuid_hex (cr_id rec)) ''uuid'', [TLit (without_nul server_name)], [TWord ''current_user''],
      [TLit (without_nul (cr_tool rec))], jsonb_tokens pg (Some (cr_arguments rec)), jsonb_tokens pg (cr_content rec),
      jsonb_tokens pg (cr_structured rec), [TWord (if cr_is_error rec then ''TRUE'' else ''FALSE'')],
      jsonb_tokens pg (cr_error rec),
      cast_tokens ''2000-01-01 00:00:00+00'' ''timestamptz'' @ [TSym (CHR ''+'')] @ map TSym (show_int (cr_called_at rec))
        @ [TSym (CHR ''*''), TWord ''interval'', TLit ''1 microsecond''],
      map TSym (show_int (cr_duration_ms rec))]"

lemma lexes_comma: "lexes_any '', '' [TSym (CHR '','')]"
  by (rule lexes_any_fixed) (simp add: lex_chars)

lemma lexes_sql_literal: "lexes_any (sql_literal v @ '', '') [TLit (without_nul v), TSym (CHR '','')]"
  using lexes_literal_then [OF _ _ lexes_comma, of "without_nul v"] by (simp add: sql_literal_def without_nul_def Let_def)

lemma lexes_jsonb:
  "lexes_any (sql_jsonb_opt pg v @ '', '') (jsonb_tokens pg v @ [TSym (CHR '','')])"
proof (cases v)
  case None
  have "lexes_any ''NULL, '' [TWord ''NULL'', TSym (CHR '','')]" by (rule lexes_any_fixed) (simp add: lex_chars)
  with None show ?thesis by (simp add: sql_jsonb_opt_def jsonb_tokens_def)
next
  case (Some x)
  have "lexes_any ''::jsonb, '' [TSym (CHR '':''), TSym (CHR '':''), TWord ''jsonb'', TSym (CHR '','')]"
    by (rule lexes_any_fixed) (simp add: lex_chars)
  from lexes_literal_then [OF _ _ this, of "without_nul (json_text pg x)"] Some show ?thesis
    by (simp add: sql_jsonb_opt_def sql_jsonb_def jsonb_tokens_def cast_tokens_def sql_literal_def without_nul_def Let_def)
qed

lemma lexes_quoted_name:
  assumes "x \<noteq> []"
  shows "lexes_any (CHR 0x22 # sql_ident x @ CHR 0x22 # ''.'') [TIdent x, TSym (CHR ''.'')]"
    and "lexes_any (CHR 0x22 # sql_ident x @ CHR 0x22 # '' ('') [TIdent x, TSym (CHR ''('')]"
  using lexes_sep [OF lexes_quoted_ident [OF assms], of "''.''"] lexes_sep [OF lexes_quoted_ident [OF assms], of "'' (''"]
  by (simp_all add: sql_ident_def separator_def sql_space_def sep_tokens_def)

lemma lexes_audit_columns:
  "lexes_any ''id, server, role_name, tool, arguments, content, structured, is_error, error, called_at, duration_ms) VALUES (''
     (comma_tokens (map (\<lambda>c. [TWord (fst c)]) AUDIT_EXPECTED) @ [TSym (CHR '')''), TWord ''VALUES'', TSym (CHR ''('')])"
  by (rule lexes_any_fixed) (simp add: lex_chars AUDIT_EXPECTED_def)

lemma lexes_audit_id:
  assumes "list_all (\<lambda>b. b < 256) bytes"
  shows "lexes_any ([CHR 0x27] @ uuid_hex bytes @ [CHR 0x27] @ ''::uuid, '') (cast_tokens (uuid_hex bytes) ''uuid'' @ [TSym (CHR '','')])"
proof -
  have "CHR 0x27 \<notin> set (hex2 b)" if "b < 256" for b
    using hex2_is_hex [OF that] by (auto simp: list_all_iff is_hex_char_def is_ascii_digit_def byte_def)
  with assms have "CHR 0x27 \<notin> set (uuid_hex bytes)"
    by (auto simp: uuid_hex_def Let_def list_all_iff dest!: in_set_takeD in_set_dropD)
  moreover have "lexes_any ''::uuid, '' [TSym (CHR '':''), TSym (CHR '':''), TWord ''uuid'', TSym (CHR '','')]"
    by (rule lexes_any_fixed) (simp add: lex_chars)
  ultimately show ?thesis
    using lexes_literal_then [of "''::uuid, ''" _ "uuid_hex bytes"] by (simp add: cast_tokens_def replace_char_id)
qed

lemma lexes_audit_stamp:
  "lexes_any ([CHR 0x27] @ ''2000-01-01 00:00:00+00'' @ [CHR 0x27] @ ''::timestamptz + '')
     (cast_tokens ''2000-01-01 00:00:00+00'' ''timestamptz'' @ [TSym (CHR ''+'')])"
  "lexes_any ('' * interval '' @ [CHR 0x27] @ ''1 microsecond'' @ [CHR 0x27] @ '', '')
     [TSym (CHR ''*''), TWord ''interval'', TLit ''1 microsecond'', TSym (CHR '','')]"
  by (rule lexes_any_fixed, simp add: lex_chars cast_tokens_def)+

text \<open>C31. The audit INSERT reads back as one statement: it names the eleven expected columns in order and
  gives each exactly one value, and no character of a server name, tool name or JSON text, quotes
  included, ends the literal it stands in. (A NUL byte, which no PostgreSQL text can hold, is dropped.)\<close>

theorem audit_insert_lexes:
  assumes "schema \<noteq> []" "table \<noteq> []" "list_all (\<lambda>b. b < 256) (cr_id rec)"
  shows "length (audit_values pg server_name rec) = length AUDIT_EXPECTED
    \<and> sql_lex (audit_insert_sql pg schema table server_name rec) = Some
       ([TWord ''INSERT'', TWord ''INTO'', TIdent schema, TSym (CHR ''.''), TIdent table, TSym (CHR ''('')]
        @ comma_tokens (map (\<lambda>c. [TWord (fst c)]) AUDIT_EXPECTED) @ [TSym (CHR '')''), TWord ''VALUES'', TSym (CHR ''('')]
        @ comma_tokens (audit_values pg server_name rec) @ [TSym (CHR '')'')])"
proof
  show "length (audit_values pg server_name rec) = length AUDIT_EXPECTED" by (simp add: audit_values_def AUDIT_EXPECTED_def)
  have "list_all2 lexes_any
      [''INSERT INTO '', CHR 0x22 # sql_ident schema @ CHR 0x22 # ''.'', CHR 0x22 # sql_ident table @ CHR 0x22 # '' ('',
       ''id, server, role_name, tool, arguments, content, structured, is_error, error, called_at, duration_ms) VALUES ('',
       [CHR 0x27] @ uuid_hex (cr_id rec) @ [CHR 0x27] @ ''::uuid, '', sql_literal server_name @ '', '', ''current_user, '',
       sql_literal (cr_tool rec) @ '', '', sql_jsonb_opt pg (Some (cr_arguments rec)) @ '', '',
       sql_jsonb_opt pg (cr_content rec) @ '', '', sql_jsonb_opt pg (cr_structured rec) @ '', '',
       (if cr_is_error rec then ''TRUE'' else ''FALSE'') @ '', '', sql_jsonb_opt pg (cr_error rec) @ '', '',
       [CHR 0x27] @ ''2000-01-01 00:00:00+00'' @ [CHR 0x27] @ ''::timestamptz + '', show_int (cr_called_at rec),
       '' * interval '' @ [CHR 0x27] @ ''1 microsecond'' @ [CHR 0x27] @ '', '', show_int (cr_duration_ms rec), '')'']
      [[TWord ''INSERT'', TWord ''INTO''], [TIdent schema, TSym (CHR ''.'')], [TIdent table, TSym (CHR ''('')],
       comma_tokens (map (\<lambda>c. [TWord (fst c)]) AUDIT_EXPECTED) @ [TSym (CHR '')''), TWord ''VALUES'', TSym (CHR ''('')],
       cast_tokens (uuid_hex (cr_id rec)) ''uuid'' @ [TSym (CHR '','')], [TLit (without_nul server_name), TSym (CHR '','')],
       [TWord ''current_user'', TSym (CHR '','')], [TLit (without_nul (cr_tool rec)), TSym (CHR '','')],
       jsonb_tokens pg (Some (cr_arguments rec)) @ [TSym (CHR '','')], jsonb_tokens pg (cr_content rec) @ [TSym (CHR '','')],
       jsonb_tokens pg (cr_structured rec) @ [TSym (CHR '','')],
       [TWord (if cr_is_error rec then ''TRUE'' else ''FALSE''), TSym (CHR '','')], jsonb_tokens pg (cr_error rec) @ [TSym (CHR '','')],
       cast_tokens ''2000-01-01 00:00:00+00'' ''timestamptz'' @ [TSym (CHR ''+'')], map TSym (show_int (cr_called_at rec)),
       [TSym (CHR ''*''), TWord ''interval'', TLit ''1 microsecond'', TSym (CHR '','')], map TSym (show_int (cr_duration_ms rec)),
       [TSym (CHR '')'')]]" (is "list_all2 _ ?ps ?tss")
    by (intro list.rel_intros lexes_quoted_name assms lexes_audit_columns lexes_audit_id
        lexes_sql_literal lexes_jsonb lexes_audit_stamp lexes_number; rule lexes_any_fixed, simp add: lex_chars)
  from lexes_any_concat [OF this]
  have lx: "sql_lex (concat ?ps) = Some (concat ?tss)" by (rule lexes_anyD)
  have "audit_insert_sql pg schema table server_name rec = concat ?ps" by (simp add: audit_insert_sql_def sql_jsonb_opt_def)
  with lx show "sql_lex (audit_insert_sql pg schema table server_name rec) = Some
       ([TWord ''INSERT'', TWord ''INTO'', TIdent schema, TSym (CHR ''.''), TIdent table, TSym (CHR ''('')]
        @ comma_tokens (map (\<lambda>c. [TWord (fst c)]) AUDIT_EXPECTED) @ [TSym (CHR '')''), TWord ''VALUES'', TSym (CHR ''('')]
        @ comma_tokens (audit_values pg server_name rec) @ [TSym (CHR '')'')])"
    by (simp add: audit_values_def)
qed

theorem audit_insert_lexes_witness:
  "\<exists>ts. sql_lex (audit_insert_sql random_host ''audit'' ''calls'' (''o'' @ [CHR 0x27] @ ''hare'') ping_call) = Some
     ([TWord ''INSERT'', TWord ''INTO'', TIdent ''audit'', TSym (CHR ''.''), TIdent ''calls'', TSym (CHR ''('')] @ ts)"
proof -
  have "list_all (\<lambda>b. b < 256) (cr_id ping_call)" by (simp add: ping_call_def list_all_iff)
  from audit_insert_lexes [OF _ _ this, of "''audit''" "''calls''" random_host "''o'' @ [CHR 0x27] @ ''hare''"]
  show ?thesis by (simp only: list.distinct not_False_eq_True simp_thms append.assoc option.inject same_append_eq ex_simps)
qed

section \<open>What an INSERT does\<close>

text \<open>
  \<open>touches res b b'\<close>: between the two states, one role's entries on one server may have changed and
  statements may have joined the SPI log; the wire saw only that server's URL and that role's credential,
  and no call log has outgrown its bound.
\<close>

definition touches :: "resolved \<Rightarrow> 'z backend_scheme \<Rightarrow> 'z backend_scheme \<Rightarrow> bool" where
  "touches res b b' \<longleftrightarrow> (\<exists>new. sent b' = sent b @ new \<and> (\<forall>x \<in> set new. addressed res x))
     \<and> clock b \<le> clock b' \<and> tick b \<le> tick b'
     \<and> (\<forall>k. k \<noteq> session_key_of res \<longrightarrow> sessions b' k = sessions b k \<and> caches b' k = caches b k \<and> call_logs b' k = call_logs b k)
     \<and> (\<exists>stmts. spi_log b' = spi_log b @ stmts) \<and> (\<exists>msgs. notices b' = notices b @ msgs)
     \<and> (log_bounded b \<longrightarrow> log_bounded b') \<and> backend.more b' = backend.more b"

lemma log_bounded_cong: "call_logs b' = call_logs b \<Longrightarrow> log_bounded b' = log_bounded b"
  by (simp add: log_bounded_def snapshot_def)

lemma more_backend:
  fixes b :: "'z backend_scheme"
  shows "catalog_store.more b' = catalog_store.more b
    \<Longrightarrow> call_logs b' = call_logs b \<and> spi_log b' = spi_log b \<and> notices b' = notices b \<and> backend.more b' = backend.more b"
  by (cases b; cases b') simp

lemma own_host_state: "own res b b' \<Longrightarrow> call_logs b' = call_logs b \<and> spi_log b' = spi_log b \<and> notices b' = notices b"
  for b b' :: "'z backend_scheme"
  using more_backend [of b' b] by (simp add: own_def)

lemma own_touches: "own res b b' \<Longrightarrow> touches res b b'" for b b' :: "'z backend_scheme"
  using more_backend [of b' b] log_bounded_cong [of b' b] by (simp add: own_def touches_def)

interpretation touch_scope: role_scope "touches res" res for res
proof
  show "touches res s s" for s :: "'z backend_scheme" by (simp add: touches_def)
  show "touches res s t \<Longrightarrow> touches res t u \<Longrightarrow> touches res s u" for s t u :: "'z backend_scheme"
    by (fastforce simp: touches_def)
  show "confined res b b' \<Longrightarrow> touches res b b'" for b b' :: "'z backend_scheme"
    by (rule own_touches, rule own_scope.scope_confined)
  show "touches res b b' \<Longrightarrow> touches res b (b'\<lparr>sessions := (sessions b')(session_key_of res := v)\<rparr>)"
    for b b' :: "'z backend_scheme" and v
    using log_bounded_cong [of "b'\<lparr>sessions := (sessions b')(session_key_of res := v)\<rparr>" b'] by (simp add: touches_def)
qed

lemma with_session_own: "with_session env res (\<lambda>tr. session_request env tr mthd p) b = (r, b') \<Longrightarrow> own res b b'"
  by (rule evolvesD [rotated], assumption) (rule own_scope.scope_with_session, rule own_scope.scope_request)

lemma audit_append_result:
  assumes "audit_append pg ctx rec b = (r, b')"
  shows "(b' = b \<or> (\<exists>sql. b' = b\<lparr>spi_log := spi_log b @ [sql]\<rparr>))
    \<and> (audit_table (options (tc_resolved ctx)) = None \<longrightarrow> r = Inr () \<and> b' = b)
    \<and> (r = Inr () \<longrightarrow> (\<forall>target schema table. audit_table (options (tc_resolved ctx)) = Some target \<longrightarrow>
         split_once (CHR ''.'') target = Some (schema, table) \<longrightarrow>
         b' = b\<lparr>spi_log := spi_log b @ [audit_insert_sql pg schema table (tc_server_name ctx) rec]\<rparr>))"
proof -
  have v: "snd (validate_audit_shape pg schema table b) = b" for schema table
    by (simp add: validate_audit_shape_def Let_def)
  show ?thesis
    using assms unfolding audit_append_def
    by (auto simp: eff_simps spi_exec_def split_beta v split: option.splits prod.splits sum.splits)
qed

lemma touches_spi: "touches res b (b\<lparr>spi_log := spi_log b @ stmts\<rparr>)"
  using log_bounded_cong [of "b\<lparr>spi_log := spi_log b @ stmts\<rparr>" b] by (simp add: touches_def)

lemma touches_record: "key = session_key_of res \<Longrightarrow> touches res b (record_call key rec b)"
  using log_bounded_record [of b key rec] by (simp add: touches_def) (simp add: record_call_def)

text \<open>The one request an INSERT makes.\<close>

definition call_request :: "env \<Rightarrow> table_context \<Rightarrow> insert_row \<Rightarrow> string \<Rightarrow> ('z backend_scheme, json) eff" where
  "call_request env ctx input tool = with_session env (tc_resolved ctx)
     (\<lambda>tr. session_request env tr ''tools/call'' (JObj [(''name'', JStr tool), (''arguments'', insert_arguments input)]))"


definition calls_context :: table_context where
  "calls_context = \<lparr>tc_spec = TOOL_CALLS_SPEC, tc_server_name = ''srv'', tc_resolved = role_five, tc_options = []\<rparr>"

definition ping_insert :: insert_row where
  "ping_insert = \<lparr>ir_spec = TOOL_CALLS_SPEC, ir_cells = [None, Some (Cell_Text ''ping''), None, None, None, None, None, None, None]\<rparr>"


section \<open>Isolation and types\<close>

lemma tool_calls_insert_touches: "evolves (touches (tc_resolved ctx)) (tool_calls_insert env pg ctx input)"
proof (rule evolvesI)
  fix b :: "'z backend_scheme"
  show "touches (tc_resolved ctx) b (snd (tool_calls_insert env pg ctx input b))"
  proof (cases "insert_tool pg input")
    case (Inr tool)
    obtain x b1 where c: "call_request env ctx input tool b = (x, b1)" by force
    have t: "touches (tc_resolved ctx) b b1" using with_session_own [OF c [unfolded call_request_def]] by (rule own_touches)
    show ?thesis
    proof (cases x)
      case (Inl e)
      with Inr c t show ?thesis by (simp add: tool_calls_insert_def eff_simps Let_def call_request_def)
    next
      case (Inr result)
      define rec where "rec = completed_call pg tool (insert_arguments input) result (now_pg_micros pg (tick b))
        (clamp_i32 (clock b1 - clock b)) (tick b1)"
      let ?b2 = "record_call (cache_key ctx) rec b1"
      obtain y b3 where a: "audit_append pg ctx rec ?b2 = (y, b3)" by force
      have "touches (tc_resolved ctx) b ?b2"
        using t touches_record [of "cache_key ctx" "tc_resolved ctx" b1 rec] touch_scope.evo_trans by (blast intro: cache_key_session_key)
      moreover have "touches (tc_resolved ctx) ?b2 b3"
        using audit_append_result [OF a] touches_spi [of _ ?b2] touch_scope.evo_refl by blast
      ultimately have "touches (tc_resolved ctx) b b3" by (rule touch_scope.evo_trans)
      with \<open>insert_tool pg input = Inr tool\<close> c Inr a show ?thesis
        by (cases y; simp add: tool_calls_insert_def eff_simps Let_def call_request_def rec_def [symmetric])
    qed
  qed (simp add: tool_calls_insert_def eff_simps touch_scope.evo_refl)
qed

lemma tool_calls_scan_pure: "snd (tool_calls_begin_scan ctx b) = b"
  by (simp add: tool_calls_begin_scan_def)

lemma row_from_record_typed: "row_typed TOOL_CALLS_SPEC (row_from_record rec)"
  by (auto simp: row_typed_def row_from_record_def TOOL_CALLS_SPEC_def cell_fits_def split: option.splits)

end
