(* ===== verification/Registry.thy ===== *)
theory Registry
  imports Import Tool_Calls
begin

text \<open>
  \<^verbatim>\<open>codegen/registry.rs\<close>: the bookkeeping of generated objects. The table \<^verbatim>\<open>mcp.generated\<close> is PostgreSQL's:
  the model has the statements this module runs against it, in order, and what it makes of the
  answers; the rows a query returns are SPI's, a parameter.
\<close>

section \<open>Definitions\<close>

definition GENERATED_TABLE :: string where "GENERATED_TABLE = ''mcp.generated''"
definition KIND_TABLE :: string where "KIND_TABLE = ''table''"
definition KIND_FUNCTION :: string where "KIND_FUNCTION = ''function''"
definition KIND_VIEW :: string where "KIND_VIEW = ''view''"

record owned_object =
  oo_kind :: string
  oo_name :: string
  oo_schema :: string
  oo_tool :: string

definition owned_sql :: "string \<Rightarrow> string \<Rightarrow> string" where
  "owned_sql server schema =
     ''SELECT kind, name, schema, tool FROM '' @ GENERATED_TABLE @ '' WHERE server = '' @ quote_literal server
     @ '' AND schema = '' @ quote_literal schema @ '' ORDER BY generated_at, name''"

definition owned_from_row :: "(string \<Rightarrow> string option) \<Rightarrow> owned_object" where
  "owned_from_row r =
     \<lparr>oo_kind = unwrap_or (r ''kind'') [], oo_name = unwrap_or (r ''name'') [],
      oo_schema = unwrap_or (r ''schema'') [], oo_tool = unwrap_or (r ''tool'') []\<rparr>"

definition lookup_failed :: "string \<Rightarrow> mcp_error" where
  "lookup_failed e = Internal (''mcp.generated lookup failed: '' @ e)"

definition owned :: "pg_host \<Rightarrow> string \<Rightarrow> string \<Rightarrow> ('z backend_scheme, owned_object list) eff" where
  "owned pg server schema b =
     (case spi_select pg (spi_log b) (owned_sql server schema) of
        Inl e \<Rightarrow> (Inl (lookup_failed e), b)
      | Inr rows \<Rightarrow> (Inr (map owned_from_row rows), b))"

definition schemas_sql :: "string \<Rightarrow> string" where
  "schemas_sql server = ''SELECT DISTINCT schema FROM '' @ GENERATED_TABLE @ '' WHERE server = '' @ quote_literal server"

definition schemas_for :: "pg_host \<Rightarrow> string \<Rightarrow> ('z backend_scheme, string list) eff" where
  "schemas_for pg server b =
     (case spi_select pg (spi_log b) (schemas_sql server) of
        Inl e \<Rightarrow> (Inl (lookup_failed e), b)
      | Inr rows \<Rightarrow> (Inr (remdups_adj (sort (List.map_filter (\<lambda>r. r ''schema'') rows))), b))"

definition record_sql :: "string \<Rightarrow> owned_object \<Rightarrow> string" where
  "record_sql server ob =
     ''INSERT INTO '' @ GENERATED_TABLE @ '' (server, schema, kind, name, tool, generated_at) VALUES (''
     @ quote_literal server @ '', '' @ quote_literal (oo_schema ob) @ '', '' @ quote_literal (oo_kind ob) @ '', ''
     @ quote_literal (oo_name ob) @ '', '' @ quote_literal (oo_tool ob)
     @ '', now()) ON CONFLICT (schema, name) DO UPDATE SET server = EXCLUDED.server, kind = EXCLUDED.kind, tool = EXCLUDED.tool, generated_at = now()''"

definition registry_record :: "pg_host \<Rightarrow> string \<Rightarrow> owned_object \<Rightarrow> ('z backend_scheme, unit) eff" where
  "registry_record pg server ob =
     emap_err (\<lambda>e. Internal (''mcp.generated write failed: '' @ e)) (spi_exec pg (record_sql server ob))"

definition clear_sql :: "string \<Rightarrow> string \<Rightarrow> string" where
  "clear_sql server schema =
     ''DELETE FROM '' @ GENERATED_TABLE @ '' WHERE server = '' @ quote_literal server @ '' AND schema = '' @ quote_literal schema"

definition clear_owned :: "pg_host \<Rightarrow> string \<Rightarrow> string \<Rightarrow> ('z backend_scheme, unit) eff" where
  "clear_owned pg server schema =
     emap_err (\<lambda>e. Internal (''mcp.generated delete failed: '' @ e)) (spi_exec pg (clear_sql server schema))"

definition identity_sql :: "owned_object \<Rightarrow> string" where
  "identity_sql ob =
     ''SELECT (SELECT pg_get_function_identity_arguments(p.oid) FROM pg_proc p JOIN pg_namespace n ON n.oid = p.pronamespace WHERE n.nspname = ''
     @ quote_literal (oo_schema ob) @ '' AND p.proname = '' @ quote_literal (oo_name ob) @ '')''"

definition drop_statement :: "pg_host \<Rightarrow> owned_object \<Rightarrow> ('z backend_scheme, string) eff" where
  "drop_statement pg ob b =
     (let schema = quote_ident (oo_schema ob); name = quote_ident (oo_name ob)
      in if oo_kind ob = KIND_VIEW then (Inr (''DROP VIEW '' @ schema @ ''.'' @ name @ '' RESTRICT;''), b)
         else if oo_kind ob = KIND_TABLE then (Inr (''DROP FOREIGN TABLE '' @ schema @ ''.'' @ name @ '' RESTRICT;''), b)
         else if oo_kind ob = KIND_FUNCTION then
           (case spi_get_one pg (spi_log b) (identity_sql ob) of
              Inl e \<Rightarrow> (Inl (Internal (''function lookup failed: '' @ e)), b)
            | Inr args \<Rightarrow> (Inr (''DROP FUNCTION '' @ schema @ ''.'' @ name @ ''('' @ unwrap_or args [] @ '') RESTRICT;''), b))
         else (Inl (Internal (''mcp.generated holds unknown kind \"'' @ oo_kind ob @ ''\" for '' @ oo_schema ob @ ''.'' @ oo_name ob)), b))"

definition drop_one :: "pg_host \<Rightarrow> owned_object \<Rightarrow> ('z backend_scheme, unit) eff" where
  "drop_one pg ob =
     ebind (drop_statement pg ob) (\<lambda>sql.
       emap_err (\<lambda>e. Internal (''drop of '' @ oo_schema ob @ ''.'' @ oo_name ob @ '' failed: '' @ e)) (spi_exec pg sql))"

definition drop_owned :: "pg_host \<Rightarrow> string \<Rightarrow> string \<Rightarrow> ('z backend_scheme, nat) eff" where
  "drop_owned pg server schema =
     ebind (owned pg server schema) (\<lambda>objects.
     ebind (emap (drop_one pg) (rev objects)) (\<lambda>dropped.
     ebind (clear_owned pg server schema) (\<lambda>_. eret (length dropped))))"

section \<open>SPI statements as a log\<close>

text \<open>\<open>runs b stmts b'\<close>: the statements \<open>stmts\<close> were run, in this order, and nothing else changed.\<close>

definition runs :: "'z backend_scheme \<Rightarrow> string list \<Rightarrow> 'z backend_scheme \<Rightarrow> bool" where
  "runs b stmts b' \<longleftrightarrow> b' = b\<lparr>spi_log := spi_log b @ stmts\<rparr>"

lemma runs_refl [simp]: "runs b [] b' \<longleftrightarrow> b' = b"
  by (simp add: runs_def)

lemma runs_trans: "runs b xs b1 \<Longrightarrow> runs b1 ys b2 \<Longrightarrow> runs b (xs @ ys) b2"
  by (simp add: runs_def)

lemma runs_touches: "runs b stmts b' \<Longrightarrow> touches res b b'"
  by (simp add: runs_def touches_spi)

lemma spi_exec_runs: "spi_exec pg sql b = (r, b') \<Longrightarrow> (case r of Inr _ \<Rightarrow> runs b [sql] b' | Inl _ \<Rightarrow> b' = b)"
  by (auto simp: spi_exec_def runs_def split: option.splits)

lemma emap_err_Inr: "emap_err g m b = (Inr x, b') \<longleftrightarrow> m b = (Inr x, b')"
  by (auto simp: emap_err_def split: prod.splits sum.splits)

lemma emap_err_spi:
  "emap_err g (spi_exec pg sql) b = (r, b') \<Longrightarrow> (case r of Inr _ \<Rightarrow> runs b [sql] b' | Inl _ \<Rightarrow> b' = b)"
  using spi_exec_runs [of pg sql b] by (auto simp: emap_err_def split: prod.splits sum.splits)

lemma drop_statement_pure: "snd (drop_statement pg ob b) = b"
  by (simp add: drop_statement_def Let_def split: sum.splits)

lemma owned_pure: "snd (owned pg server schema b) = b" "snd (schemas_for pg server b) = b"
  by (simp_all add: owned_def schemas_for_def split: sum.splits)

section \<open>Regeneration drops what is recorded, newest first\<close>

text \<open>The statement that drops an object, \<open>args\<close> being a function's identity arguments.\<close>

definition drop_text :: "owned_object \<Rightarrow> string \<Rightarrow> string" where
  "drop_text ob args =
     (if oo_kind ob = KIND_VIEW then ''DROP VIEW '' @ qualified_name (oo_schema ob) (oo_name ob)
      else if oo_kind ob = KIND_TABLE then ''DROP FOREIGN TABLE '' @ qualified_name (oo_schema ob) (oo_name ob)
      else ''DROP FUNCTION '' @ qualified_name (oo_schema ob) (oo_name ob) @ ''('' @ args @ '')'') @ '' RESTRICT;''"

definition droppable :: "owned_object \<Rightarrow> bool" where
  "droppable ob \<longleftrightarrow> oo_kind ob \<in> {KIND_VIEW, KIND_TABLE, KIND_FUNCTION}"

definition drops :: "owned_object \<Rightarrow> string \<Rightarrow> bool" where
  "drops ob sql \<longleftrightarrow> droppable ob \<and> (\<exists>args. sql = drop_text ob args)"

lemma drop_statement_drops: "drop_statement pg ob b = (Inr sql, b') \<Longrightarrow> drops ob sql \<and> b' = b"
  by (auto simp: drop_statement_def Let_def drops_def drop_text_def droppable_def qualified_name_def KIND_VIEW_def KIND_TABLE_def
      KIND_FUNCTION_def split: if_splits sum.splits)

lemma drop_one_runs:
  assumes "drop_one pg ob b = (r, b')"
  shows "case r of Inr _ \<Rightarrow> \<exists>sql. drops ob sql \<and> runs b [sql] b' | Inl _ \<Rightarrow> b' = b"
proof -
  obtain x b1 where d: "drop_statement pg ob b = (x, b1)" by force
  show ?thesis
  proof (cases x)
    case (Inl e)
    with d drop_statement_pure [of pg ob b] assms show ?thesis by (auto simp: drop_one_def eff_simps)
  next
    case (Inr sql)
    then have "drops ob sql" "b1 = b" using drop_statement_drops [of pg ob b sql b1] d by simp_all
    with assms d Inr emap_err_spi [of _ pg sql b r b'] show ?thesis
      by (auto simp: drop_one_def eff_simps split: sum.splits)
  qed
qed

lemma drop_all_runs:
  assumes "emap (drop_one pg) obs b = (r, b')"
  shows "\<exists>stmts. runs b stmts b' \<and> list_all2 drops (take (length stmts) obs) stmts
    \<and> (case r of Inr us \<Rightarrow> length us = length obs \<and> length stmts = length obs | Inl _ \<Rightarrow> length stmts < length obs)"
  using assms
proof (induction obs arbitrary: b r b')
  case Nil
  then show ?case by (intro exI [of _ "[]"]) (auto simp: eff_simps)
next
  case (Cons ob obs)
  obtain x b1 where d: "drop_one pg ob b = (x, b1)" by force
  show ?case
  proof (cases x)
    case (Inl e)
    with d Cons.prems drop_one_runs [OF d] show ?thesis by (intro exI [of _ "[]"]) (auto simp: eff_simps)
  next
    case (Inr u)
    then obtain sql where s: "drops ob sql" "runs b [sql] b1" using drop_one_runs [OF d] by auto
    obtain y b2 where rest: "emap (drop_one pg) obs b1 = (y, b2)" by force
    from Cons.IH [OF rest] obtain stmts where st: "runs b1 stmts b2" "list_all2 drops (take (length stmts) obs) stmts"
      "case y of Inr us \<Rightarrow> length us = length obs \<and> length stmts = length obs | Inl _ \<Rightarrow> length stmts < length obs" by blast
    have "runs b (sql # stmts) b2" using runs_trans [OF s(2) st(1)] by simp
    with Cons.prems d Inr rest s st show ?thesis
      by (intro exI [of _ "sql # stmts"]) (auto simp: eff_simps split: sum.splits)
  qed
qed

text \<open>C38. Regeneration drops exactly the objects recorded for the server and schema, in the reverse of the order
  the registry lists them, each with \<^verbatim>\<open>RESTRICT\<close>, and forgets them only after the last drop succeeded: a
  drop that fails, or an object of unknown kind, stops before any row of the bookkeeping is deleted.
  Nothing but the SPI log changes.\<close>

theorem drop_owned_spec:
  assumes "drop_owned pg server schema b = (r, b')"
  shows "case spi_select pg (spi_log b) (owned_sql server schema) of
      Inl e \<Rightarrow> r = Inl (lookup_failed e) \<and> b' = b
    | Inr rows \<Rightarrow> \<exists>stmts. list_all2 drops (take (length stmts) (rev (map owned_from_row rows))) stmts \<and>
        (case r of
           Inr n \<Rightarrow> n = length rows \<and> length stmts = n \<and> runs b (stmts @ [clear_sql server schema]) b'
         | Inl _ \<Rightarrow> runs b stmts b')"
proof (cases "spi_select pg (spi_log b) (owned_sql server schema)")
  case (Inl e)
  with assms show ?thesis by (simp add: drop_owned_def owned_def eff_simps)
next
  case (Inr rows)
  let ?obs = "rev (map owned_from_row rows)"
  obtain y b1 where d: "emap (drop_one pg) ?obs b = (y, b1)" by force
  from drop_all_runs [OF d] obtain stmts where st: "runs b stmts b1" "list_all2 drops (take (length stmts) ?obs) stmts"
    "case y of Inr us \<Rightarrow> length us = length ?obs \<and> length stmts = length ?obs | Inl _ \<Rightarrow> length stmts < length ?obs" by blast
  show ?thesis
  proof (cases y)
    case Inl': (Inl e)
    with assms Inr d st show ?thesis by (auto simp: drop_owned_def owned_def eff_simps)
  next
    case Inr': (Inr us)
    obtain z b2 where c: "clear_owned pg server schema b1 = (z, b2)" by force
    from emap_err_spi [OF c [unfolded clear_owned_def]] runs_trans [OF st(1)]
    have "case z of Inr _ \<Rightarrow> runs b (stmts @ [clear_sql server schema]) b2 | Inl _ \<Rightarrow> b2 = b1"
      by (auto split: sum.splits)
    with assms Inr Inr' d c st show ?thesis
      by (auto simp: drop_owned_def owned_def eff_simps split: sum.splits intro!: exI [of _ stmts])
  qed
qed

definition generated_host :: pg_host where
  "generated_host = random_host\<lparr>spi_select := (\<lambda>_ _. Inr [[''kind'' \<mapsto> ''view'', ''name'' \<mapsto> ''v'', ''schema'' \<mapsto> ''s'', ''tool'' \<mapsto> ''t'']])\<rparr>"

theorem drop_owned_spec_witness:
  "\<exists>b' stmt. drop_owned generated_host ''srv'' ''s'' empty_backend = (Inr 1, b') \<and> spi_log b' = [stmt, clear_sql ''srv'' ''s'']"
proof -
  have "\<exists>b'. drop_owned generated_host ''srv'' ''s'' empty_backend = (Inr 1, b')"
    by (simp add: drop_owned_def owned_def generated_host_def random_host_def drop_one_def drop_statement_def clear_owned_def
        spi_exec_def owned_from_row_def KIND_VIEW_def eff_simps)
  then obtain b' where run: "drop_owned generated_host ''srv'' ''s'' empty_backend = (Inr 1, b')" by blast
  have sel: "spi_select generated_host (spi_log empty_backend) (owned_sql ''srv'' ''s'')
      = Inr [[''kind'' \<mapsto> ''view'', ''name'' \<mapsto> ''v'', ''schema'' \<mapsto> ''s'', ''tool'' \<mapsto> ''t'']]" by (simp add: generated_host_def)
  have "spi_log empty_backend = []" by (simp add: empty_backend_def)
  with drop_owned_spec [OF run] run show ?thesis unfolding sel by (auto simp: runs_def length_Suc_conv)
qed

section \<open>The bookkeeping statements\<close>

lemma lexes_generated_where:
  "lexes_any ''mcp.generated WHERE server = '' [TWord ''mcp'', TSym (CHR ''.''), TWord ''generated'', TWord ''WHERE'', TWord ''server'', TSym (CHR ''='')]"
  by (rule lexes_any_fixed) (simp add: lex_chars)

text \<open>Whatever the server and schema are called, the DELETE restricts both columns to exactly those values.\<close>

lemma clear_sql_lexes:
  "sql_lex (clear_sql server schema) = Some ([TWord ''DELETE'', TWord ''FROM'', TWord ''mcp'', TSym (CHR ''.''), TWord ''generated'',
     TWord ''WHERE'', TWord ''server'', TSym (CHR ''=''), TLit server, TWord ''AND'', TWord ''schema'', TSym (CHR ''=''), TLit schema])"
proof -
  have a: "lexes_any ''DELETE FROM '' [TWord ''DELETE'', TWord ''FROM'']" by (rule lexes_any_fixed) (simp add: lex_chars)
  have c: "lexes_any '' AND schema = '' [TWord ''AND'', TWord ''schema'', TSym (CHR ''='')]" by (rule lexes_any_fixed) (simp add: lex_chars)
  have b: "lexes_any (quote_literal server @ '' AND schema = '') (TLit server # [TWord ''AND'', TWord ''schema'', TSym (CHR ''='')])"
    using lexes_literal_then [OF _ _ c, of server] by (simp add: quote_literal_def)
  from lexes_any_then [OF a lexes_any_then [OF lexes_generated_where lexes_any_then [OF b lexes_literal [of schema]]]]
  have "lexes (clear_sql server schema) ([TWord ''DELETE'', TWord ''FROM''] @ [TWord ''mcp'', TSym (CHR ''.''), TWord ''generated'',
      TWord ''WHERE'', TWord ''server'', TSym (CHR ''='')] @ (TLit server # [TWord ''AND'', TWord ''schema'', TSym (CHR ''='')]) @ [TLit schema])"
    by (simp add: clear_sql_def GENERATED_TABLE_def)
  then show ?thesis unfolding lexes_def by (auto dest: spec [of _ "[]"] simp: clean_def)
qed

end
