(* ===== verification/Per_Tool.thy ===== *)
theory Per_Tool
  imports Registry
begin

text \<open>
  \<^verbatim>\<open>tables/per_tool.rs\<close>: the handler of generated \<^verbatim>\<open>tool_<name>\<close> tables. PostgreSQL's input functions for
  timestamps, UUIDs and dates are parameters; a value they reject raises PostgreSQL's own error from
  inside, which no \<^verbatim>\<open>Result\<close> of this module catches. Failures are therefore of two sorts: an
  \<^verbatim>\<open>McpError\<close> value, or a raised error that ends the statement.
\<close>

section \<open>Failures and PostgreSQL's input functions\<close>

datatype pg_failure = Mcp mcp_error | PgRaise string

record pg_input =
  timestamptz_in :: "string \<Rightarrow> string + int"
  uuid_in :: "string \<Rightarrow> string + nat list"
  date_in :: "string \<Rightarrow> string + unit"

type_synonym ('s, 'a) peff = "('s, pg_failure, 'a) effe"

definition without_nuls :: "string \<Rightarrow> string" where
  "without_nuls text = replace_char (CHR 0x00) [] text"

definition raising :: "string + 'a \<Rightarrow> pg_failure + 'a" where
  "raising r = (case r of Inl e \<Rightarrow> Inl (PgRaise e) | Inr x \<Rightarrow> Inr x)"

definition parse_timestamptz :: "pg_input \<Rightarrow> string \<Rightarrow> pg_failure + int" where
  "parse_timestamptz pin text = raising (timestamptz_in pin (without_nuls text))"

definition parse_uuid :: "pg_input \<Rightarrow> string \<Rightarrow> pg_failure + nat list" where
  "parse_uuid pin text = raising (uuid_in pin (without_nuls text))"

definition parse_date :: "pg_input \<Rightarrow> string \<Rightarrow> pg_failure + unit" where
  "parse_date pin text = raising (date_in pin (without_nuls text))"

definition type_error :: "(json \<Rightarrow> string) \<Rightarrow> json \<Rightarrow> string \<Rightarrow> string \<Rightarrow> pg_failure + 'a" where
  "type_error pr v column expected =
     Inl (Mcp (InvalidParams (''value '' @ pr v @ '' for argument \"'' @ column @ ''\" is not a valid '' @ expected
       @ '' (PRD-8 '' @ sect_sign @ ''4.1)'')))"

definition as_i32_checked :: "int \<Rightarrow> int option" where
  "as_i32_checked i = (if - (2 ^ 31) \<le> i \<and> i < 2 ^ 31 then Some i else None)"

fun json_to_cell :: "(json \<Rightarrow> string) \<Rightarrow> pg_input \<Rightarrow> json \<Rightarrow> column_type \<Rightarrow> string \<Rightarrow> pg_failure + cell option" where
  "json_to_cell pr pin v ty column =
     (if is_null v then Inr None
      else rmap Some
        (case ty of
           Ty_Text \<Rightarrow> Inr (Cell_Text (case v of JStr s \<Rightarrow> s | _ \<Rightarrow> pr v))
         | Ty_Jsonb \<Rightarrow> Inr (Cell_Json v)
         | Ty_Boolean \<Rightarrow> (case as_bool v of Some x \<Rightarrow> Inr (Cell_Bool x) | None \<Rightarrow> type_error pr v column ''boolean'')
         | Ty_Int4 \<Rightarrow> (case Option.bind (as_i64 v) as_i32_checked of
                         Some i \<Rightarrow> Inr (Cell_Int4 i) | None \<Rightarrow> type_error pr v column ''integer'')
         | Ty_Int8 \<Rightarrow> (case as_i64 v of Some i \<Rightarrow> Inr (Cell_Int8 i) | None \<Rightarrow> type_error pr v column ''bigint'')
         | Ty_Float8 \<Rightarrow> (case as_f64 v of Some x \<Rightarrow> Inr (Cell_Float8 (Some x)) | None \<Rightarrow> type_error pr v column ''double precision'')
         | Ty_Uuid \<Rightarrow> (case as_str v of Some s \<Rightarrow> rmap Cell_Uuid (parse_uuid pin s) | None \<Rightarrow> type_error pr v column ''uuid'')
         | Ty_TimestampTz \<Rightarrow> (case as_str v of
                         Some s \<Rightarrow> rmap Cell_TimestampTz (parse_timestamptz pin s) | None \<Rightarrow> type_error pr v column ''timestamptz'')
         | Ty_Date \<Rightarrow> (case as_str v of Some s \<Rightarrow> rmap (\<lambda>_. Cell_Date s) (parse_date pin s) | None \<Rightarrow> type_error pr v column ''date'')
         | Ty_Bytea \<Rightarrow> type_error pr v column ''bytea''))"

declare json_to_cell.simps [simp del]

text \<open>\<^verbatim>\<open>.ok().flatten()\<close>: an \<^verbatim>\<open>McpError\<close> becomes NULL, a raised error does not.\<close>

definition ok_flatten :: "pg_failure + cell option \<Rightarrow> pg_failure + cell option" where
  "ok_flatten r = (case r of Inl (Mcp _) \<Rightarrow> Inr None | _ \<Rightarrow> r)"

section \<open>Contexts\<close>

record per_tool_target =
  pt_tool :: string
  pt_invoke :: bool
  pt_ttl_ms :: "nat option"

record per_tool_context =
  pc_target :: per_tool_target
  pc_table_qual :: string
  pc_server_name :: string
  pc_resolved :: resolved
  pc_quals :: "qual list"

section \<open>Resolving the tool\<close>

definition warn :: "log_level \<Rightarrow> string \<Rightarrow> 'z backend_scheme \<Rightarrow> 'z backend_scheme" where
  "warn level msg b = b\<lparr>notices := notices b @ [(level, msg)]\<rparr>"

definition stale_warning :: "string \<Rightarrow> string list \<Rightarrow> string" where
  "stale_warning server_name schemas =
     ''tool list changed on server '' @ server_name @ ''; generated objects in '' @ str_join '', '' schemas
     @ '' are stale; re-run mcp.generate_functions''"

text \<open>The notification half: the flag is looked at, not consumed.\<close>

definition note_tools_changed :: "pg_host \<Rightarrow> per_tool_context \<Rightarrow> 'z backend_scheme \<Rightarrow> 'z backend_scheme" where
  "note_tools_changed pg ctx b =
     (let res = pc_resolved ctx;
          changed = unwrap_or (with_cached_session (server_oid res) (user_oid res) tools_list_changed b) False
      in if changed then
           (let b1 = snd (drop_tools (session_key_of res) b)
            in case fst (schemas_for pg (pc_server_name ctx) b1) of
                 Inr schemas \<Rightarrow> if schemas \<noteq> [] then warn Level_Warning (stale_warning (pc_server_name ctx) schemas) b1 else b1
               | Inl _ \<Rightarrow> b1)
         else b)"

definition tools_listing :: "env \<Rightarrow> per_tool_context \<Rightarrow> ('z backend_scheme, json list) eff" where
  "tools_listing env ctx =
     (let res = pc_resolved ctx; ttl = unwrap_or (pt_ttl_ms (pc_target ctx)) (cache_ttl_ms (options res))
      in get_or_fetch (\<lambda>b. b) (\<lambda>f. f) (session_key_of res) ttl Slice_Tools
           (with_session env res (\<lambda>tr. list_all_pages env tr ''tools/list'' ''tools'' (JObj []))))"

definition named_tool :: "string \<Rightarrow> json list \<Rightarrow> json option" where
  "named_tool name items = find (\<lambda>t. get_str ''name'' t = Some name) items"

definition missing_tool :: "per_tool_context \<Rightarrow> mcp_error" where
  "missing_tool ctx =
     UndefinedObject (''tool \"'' @ pt_tool (pc_target ctx) @ ''\" is not in server \"'' @ pc_server_name ctx
       @ ''\"'s tools/list; the generated table '' @ pc_table_qual ctx @ '' is stale '' @ em_dash
       @ '' re-run mcp.generate_functions'')"

definition unmappable_tool :: "per_tool_context \<Rightarrow> mcp_error" where
  "unmappable_tool ctx =
     UndefinedObject (''tool \"'' @ pt_tool (pc_target ctx) @ ''\" on server \"'' @ pc_server_name ctx
       @ ''\" no longer has a mappable input schema; re-run mcp.generate_functions'')"

text \<open>Re-planning one entry. The planner's panic, a raised error, is its \<open>None\<close>.\<close>

definition replan :: "(json \<Rightarrow> string) \<Rightarrow> per_tool_context \<Rightarrow> json \<Rightarrow> pg_failure + planned_tool" where
  "replan pr ctx def =
     (case plan pr [def] ''pg_mcp_runtime'' [] IReadOnly SingleSchema of
        None \<Rightarrow> Inl (PgRaise ''panic'')
      | Some (Inl e) \<Rightarrow> Inl (Mcp e)
      | Some (Inr p) \<Rightarrow> (case tools p of [] \<Rightarrow> Inl (Mcp (unmappable_tool ctx)) | t # _ \<Rightarrow> Inr t))"

definition resolve_tool :: "env \<Rightarrow> pg_host \<Rightarrow> per_tool_context \<Rightarrow> ('z backend_scheme, planned_tool) peff" where
  "resolve_tool env pg ctx =
     ebind (emap_err Mcp (tools_listing env ctx)) (\<lambda>items b.
       (case named_tool (pt_tool (pc_target ctx)) items of
          None \<Rightarrow> Inl (Mcp (missing_tool ctx))
        | Some def \<Rightarrow> replan (json_text pg) ctx def, note_tools_changed pg ctx b))"

section \<open>Calling\<close>

definition check_gate :: "per_tool_context \<Rightarrow> unit mcp_result" where
  "check_gate ctx =
     (if pt_invoke (pc_target ctx) then Inr ()
      else Inl (FeatureNotSupported (''tool \"'' @ pt_tool (pc_target ctx) @ ''\" is not read-only; INSERT into ''
             @ pc_table_qual ctx @ '' instead (PRD-8 '' @ sect_sign @ ''4.2)'')))"

definition supplied_qual :: "qual list \<Rightarrow> column \<Rightarrow> json option" where
  "supplied_qual quals col = map_option qvalue (find (\<lambda>q. field q = col_sql col \<and> operator q = Equal) quals)"

fun arguments_loop ::
  "(column \<Rightarrow> json option) \<Rightarrow> (column \<Rightarrow> mcp_error) \<Rightarrow> column list \<Rightarrow> (string \<times> json) list \<Rightarrow> json mcp_result"
where
  "arguments_loop supplied missing [] args = Inr (JObj args)"
| "arguments_loop supplied missing (col # cols) args =
     (case supplied col of
        Some v \<Rightarrow> arguments_loop supplied missing cols (obj_insert (property col) v args)
      | None \<Rightarrow> if required col then Inl (missing col) else arguments_loop supplied missing cols args)"

definition missing_qual :: "planned_tool \<Rightarrow> column \<Rightarrow> mcp_error" where
  "missing_qual t col =
     InvalidParams (''required argument \"'' @ col_sql col @ ''\" of tool \"'' @ tool_name t
       @ ''\" must be supplied as a WHERE equality qual (PRD-8 '' @ sect_sign @ ''4.2)'')"

definition arguments_from_quals :: "planned_tool \<Rightarrow> qual list \<Rightarrow> json mcp_result" where
  "arguments_from_quals t quals = arguments_loop (supplied_qual quals) (missing_qual t) (inputs t) []"

text \<open>The cell of a column whose value is read off a JSON object.\<close>

definition cell_of :: "(json \<Rightarrow> string) \<Rightarrow> pg_input \<Rightarrow> json option \<Rightarrow> column \<Rightarrow> pg_failure + cell option" where
  "cell_of pr pin obj col =
     (case Option.bind obj (jget (property col)) of
        None \<Rightarrow> Inr None
      | Some v \<Rightarrow> ok_flatten (json_to_cell pr pin v (col_type col) (col_sql col)))"

definition shape_row ::
  "planned_tool \<Rightarrow> (column \<Rightarrow> pg_failure + cell option) \<Rightarrow> cell option list \<Rightarrow> bool \<Rightarrow> json option \<Rightarrow> pg_failure + row"
where
  "shape_row t echo outputs err content =
     rmap (\<lambda>ins. ins @ outputs @ [map_option Cell_Json content, Some (Cell_Bool err)]) (collect_results echo (inputs t))"

definition fan_out_elements :: "json option \<Rightarrow> string \<Rightarrow> json list" where
  "fan_out_elements structured prop_name = unwrap_or (Option.bind (Option.bind structured (jget prop_name)) as_array) []"

definition shape_result :: "(json \<Rightarrow> string) \<Rightarrow> pg_input \<Rightarrow> planned_tool \<Rightarrow> json \<Rightarrow> json \<Rightarrow> pg_failure + row list" where
  "shape_result pr pin t arguments result =
     (let is_error = is_error_result result;
          content = jget ''content'' result;
          structured = jget ''structuredContent'' result;
          echo = cell_of pr pin (Some arguments);
          null_outputs = replicate (length (output_columns t)) None;
          one = rmap (\<lambda>r. [r])
      in if is_error then one (shape_row t echo null_outputs True content)
         else case shape t of
                ElementOf prop_name cols \<Rightarrow>
                  (let elements = fan_out_elements structured prop_name
                   in if elements = [] then one (shape_row t echo null_outputs False content)
                      else collect_results (\<lambda>element. rbind (collect_results (cell_of pr pin (Some element)) cols) (\<lambda>cells.
                             shape_row t echo cells False content)) elements)
              | Single cols \<Rightarrow> rbind (collect_results (cell_of pr pin structured) cols) (\<lambda>cells.
                             one (shape_row t echo cells False content))
              | ONone \<Rightarrow> one (shape_row t echo [] False content))"

definition invoke_and_shape ::
  "env \<Rightarrow> pg_host \<Rightarrow> pg_input \<Rightarrow> per_tool_context \<Rightarrow> planned_tool \<Rightarrow> json \<Rightarrow> ('z backend_scheme, row list) peff"
where
  "invoke_and_shape env pg pin ctx t arguments =
     ebind (emap_err Mcp (with_session env (pc_resolved ctx) (\<lambda>tr.
         session_request env tr ''tools/call'' (JObj [(''name'', JStr (tool_name t)), (''arguments'', arguments)])))) (\<lambda>result.
     elift (shape_result (json_text pg) pin t arguments result))"

section \<open>SELECT\<close>

definition filter_value :: "planned_tool \<Rightarrow> string \<Rightarrow> row \<Rightarrow> cell option option" where
  "filter_value t fld r =
     (let width = length (inputs t); outputs = output_columns t;
          cell_at = (\<lambda>i. if i < length r then r ! i else None)
      in case position (\<lambda>c. col_sql c = fld) outputs of
           Some pos \<Rightarrow> Some (cell_at (width + pos))
         | None \<Rightarrow> if fld = ''content'' then Some (cell_at (width + length outputs))
                   else if fld = ''is_error'' then Some (cell_at (width + length outputs + 1))
                   else None)"

definition consumed_as_argument :: "planned_tool \<Rightarrow> qual \<Rightarrow> bool" where
  "consumed_as_argument t q \<longleftrightarrow> list_ex (\<lambda>c. col_sql c = field q) (inputs t) \<and> operator q = Equal"

definition post_filter :: "planned_tool \<Rightarrow> qual list \<Rightarrow> row \<Rightarrow> bool" where
  "post_filter t quals r =
     list_all (\<lambda>q.
       if consumed_as_argument t q then True
       else case filter_value t (field q) r of
              None \<Rightarrow> True
            | Some c \<Rightarrow> matches_json q (field q) (case c of Some v \<Rightarrow> cell_as_json v | None \<Rightarrow> JNull)) quals"

definition per_tool_begin_scan ::
  "env \<Rightarrow> pg_host \<Rightarrow> pg_input \<Rightarrow> per_tool_context \<Rightarrow> ('z backend_scheme, log_cursor) peff"
where
  "per_tool_begin_scan env pg pin ctx =
     ebind (elift (case check_gate ctx of Inl e \<Rightarrow> Inl (Mcp e) | Inr u \<Rightarrow> Inr u)) (\<lambda>_.
     ebind (resolve_tool env pg ctx) (\<lambda>t.
     ebind (emap_err Mcp (elift (arguments_from_quals t (pc_quals ctx)))) (\<lambda>arguments.
     ebind (invoke_and_shape env pg pin ctx t arguments) (\<lambda>rows.
     eret \<lparr>lc_rows = filter (post_filter t (pc_quals ctx)) rows\<rparr>))))"

section \<open>INSERT\<close>

definition supplied_value :: "(string \<times> json option) list \<Rightarrow> column \<Rightarrow> json option" where
  "supplied_value supplied col = (case find (\<lambda>p. fst p = col_sql col) supplied of Some (_, v) \<Rightarrow> v | None \<Rightarrow> None)"

definition missing_value :: "planned_tool \<Rightarrow> column \<Rightarrow> mcp_error" where
  "missing_value t col =
     InvalidParams (''required argument \"'' @ col_sql col @ ''\" of tool \"'' @ tool_name t
       @ ''\" must be supplied on INSERT (PRD-8 '' @ sect_sign @ ''4.2)'')"

definition per_tool_insert ::
  "env \<Rightarrow> pg_host \<Rightarrow> pg_input \<Rightarrow> per_tool_context \<Rightarrow> (string \<times> json option) list \<Rightarrow> ('z backend_scheme, row) peff"
where
  "per_tool_insert env pg pin ctx supplied =
     (let ctx' = ctx\<lparr>pc_quals := []\<rparr>
      in ebind (resolve_tool env pg ctx') (\<lambda>t.
         ebind (emap_err Mcp (elift (arguments_loop (supplied_value supplied) (missing_value t) (inputs t) []))) (\<lambda>arguments.
         ebind (invoke_and_shape env pg pin ctx' t arguments) (\<lambda>rows.
         eret (case take 1 rows of r # _ \<Rightarrow> r | [] \<Rightarrow> [])))))"

section \<open>Rows fit the declared columns\<close>

lemma collect_results_Inr: "collect_results f xs = Inr ys \<longleftrightarrow> list_all2 (\<lambda>x y. f x = Inr y) xs ys"
  by (induction xs arbitrary: ys) (auto simp: rbind_eq_Inr_iff rmap_eq_Inr_iff list_all2_Cons1)

lemma collect_results_in: "collect_results f xs = Inr ys \<Longrightarrow> y \<in> set ys \<Longrightarrow> \<exists>x \<in> set xs. f x = Inr y"
  by (induction xs arbitrary: ys) (auto simp: rbind_eq_Inr_iff rmap_eq_Inr_iff)

lemma json_to_cell_typed: "json_to_cell pr pin v ty column = Inr c \<Longrightarrow> cell_fits ty c"
  by (cases ty)
    (auto simp: json_to_cell.simps cell_fits_def rmap_eq_Inr_iff type_error_def split: if_splits option.splits)

lemma cell_of_typed: "cell_of pr pin obj col = Inr c \<Longrightarrow> cell_fits (col_type col) c"
  by (auto simp: cell_of_def ok_flatten_def cell_fits_def split: option.splits sum.splits pg_failure.splits
      dest!: json_to_cell_typed)

lemma cells_typed:
  "collect_results (cell_of pr pin obj) cols = Inr cs \<Longrightarrow> list_all2 (\<lambda>col c. cell_fits (col_type col) c) cols cs"
  unfolding collect_results_Inr by (erule list_all2_mono) (rule cell_of_typed)

text \<open>A row of a generated table: one cell per column of its DDL, NULL or of that column's type.\<close>

definition fits :: "planned_tool \<Rightarrow> row \<Rightarrow> bool" where
  "fits t r \<longleftrightarrow> list_all2 (\<lambda>(_, ty) c. cell_fits ty c) (ddl_columns t) r"

lemma shape_row_fits:
  assumes "shape_row t (cell_of pr pin obj) outs err content = Inr r"
    and "list_all2 (\<lambda>col c. cell_fits (col_type col) c) (output_columns t) outs"
  shows "fits t r"
proof -
  obtain ins where ins: "collect_results (cell_of pr pin obj) (inputs t) = Inr ins"
    and r: "r = ins @ outs @ [map_option Cell_Json content, Some (Cell_Bool err)]"
    using assms(1) by (auto simp: shape_row_def rmap_eq_Inr_iff)
  have "list_all2 (\<lambda>col c. cell_fits (col_type col) c) (table_columns t) (ins @ outs)"
    unfolding table_columns_def by (intro list_all2_appendI cells_typed [OF ins] assms(2))
  then have "list_all2 (\<lambda>(_, ty) c. cell_fits ty c) (map (\<lambda>c. (col_sql c, col_type c)) (table_columns t)) (ins @ outs)"
    by (simp add: list_all2_map1)
  moreover have "list_all2 (\<lambda>(_, ty) c. cell_fits ty c) [(''content'', Ty_Jsonb), (''is_error'', Ty_Boolean)]
      [map_option Cell_Json content, Some (Cell_Bool err)]"
    by (auto simp: cell_fits_def)
  ultimately show ?thesis
    unfolding fits_def r ddl_columns_def by (simp only: append_assoc [symmetric] list_all2_appendI)
qed

lemma null_outputs_typed:
  "list_all2 (\<lambda>col c. cell_fits (col_type col) c) cols (replicate (length cols) None)"
  by (simp add: list_all2_conv_all_nth cell_fits_def)

lemma shape_result_fits:
  assumes "shape_result pr pin t arguments result = Inr rows" "r \<in> set rows"
  shows "fits t r"
proof -
  note fit = shape_row_fits [where obj = "Some arguments" and pr = pr and pin = pin]
  have nulls: "list_all2 (\<lambda>col c. cell_fits (col_type col) c) (output_columns t) (replicate (length (output_columns t)) None)"
    by (rule null_outputs_typed)
  show ?thesis
  proof (cases "is_error_result result")
    case True
    with assms nulls show ?thesis by (auto simp: shape_result_def Let_def rmap_eq_Inr_iff intro: fit)
  next
    case ok: False
    show ?thesis
    proof (cases "shape t")
      case (ElementOf p cols)
      define elements where "elements = fan_out_elements (jget ''structuredContent'' result) p"
      have out: "output_columns t = cols" by (simp add: output_columns_def ElementOf)
      show ?thesis
      proof (cases "elements = []")
        case True
        with assms nulls ok ElementOf show ?thesis
          by (auto simp: shape_result_def Let_def rmap_eq_Inr_iff elements_def [symmetric] intro: fit)
      next
        case False
        with assms(1) ok ElementOf have "collect_results (\<lambda>element. rbind (collect_results (cell_of pr pin (Some element)) cols)
            (\<lambda>cells. shape_row t (cell_of pr pin (Some arguments)) cells False (jget ''content'' result))) elements = Inr rows"
          by (simp add: shape_result_def Let_def elements_def [symmetric])
        from collect_results_in [OF this assms(2)] obtain element cells where
          c: "collect_results (cell_of pr pin (Some element)) cols = Inr cells" and
          r: "shape_row t (cell_of pr pin (Some arguments)) cells False (jget ''content'' result) = Inr r"
          by (auto simp: rbind_eq_Inr_iff)
        show ?thesis by (rule fit [OF r]) (use cells_typed [OF c] out in simp)
      qed
    next
      case (Single cols)
      then have out: "output_columns t = cols" by (simp add: output_columns_def)
      from assms ok Single obtain cells where
        c: "collect_results (cell_of pr pin (jget ''structuredContent'' result)) cols = Inr cells" and
        r: "shape_row t (cell_of pr pin (Some arguments)) cells False (jget ''content'' result) = Inr r"
        by (auto simp: shape_result_def Let_def rmap_eq_Inr_iff rbind_eq_Inr_iff)
      show ?thesis by (rule fit [OF r]) (use cells_typed [OF c] out in simp)
    next
      case ONone
      then have "output_columns t = []" by (simp add: output_columns_def)
      with assms ok ONone show ?thesis by (auto simp: shape_result_def Let_def rmap_eq_Inr_iff intro: fit)
    qed
  qed
qed

lemma shape_result_nonempty: "shape_result pr pin t arguments result = Inr rows \<Longrightarrow> rows \<noteq> []"
  by (auto simp: shape_result_def Let_def rmap_eq_Inr_iff rbind_eq_Inr_iff collect_results_Inr split: if_splits output_shape.splits)

section \<open>Re-planning gives the generated columns\<close>

lemma plan_one_columns:
  assumes "plan_one pr tool l1 s1 tg1 g1 = Some (Inr t1)" "plan_one pr tool l2 s2 tg2 g2 = Some (Inr t2)"
  shows "inputs t1 = inputs t2 \<and> shape t1 = shape t2 \<and> params t1 = params t2"
  using assms by (auto simp: plan_one_def Let_def split: option.splits)

lemma item_tool_plan_one:
  assumes "item_plannable it"
  shows "plan_one pr (fst (fst it)) (snd (snd (fst it))) (snd it) (fst (snd (fst it))) gate = Some (Inr (item_tool pr gate it))"
proof -
  obtain tool target local sqln where it: "it = ((tool, target, local), sqln)" by (metis prod.collapse)
  with assms have "plannable tool" by simp
  then obtain t where "plan_one pr tool local sqln target gate = Some (Inr t)" by (rule plan_one_ok)
  then show ?thesis by (simp add: item_tool_def it)
qed

text \<open>The planned tools of a batch, each with the listing entry it came from.\<close>

lemma planned_from_entry:
  assumes "plan pr items schema pre gate mode = Some (Inr p)" "ident_ok pre" "schema \<noteq> []" "length items < 2 ^ 64"
    and "t \<in> set (tools p)"
  shows "\<exists>def l s tg. def \<in> set items \<and> get_str ''name'' def = Some (tool_name t) \<and> tool_name t \<noteq> []
    \<and> plan_one pr def l s tg gate = Some (Inr t)"
proof -
  from plan_eq [OF assms(2-4), of pr gate mode] assms(1)
  have "tools p = map (item_tool pr gate) (filter item_plannable (batch_items items schema pre mode))" by auto
  with assms(5) obtain it where it: "it \<in> set (batch_items items schema pre mode)" "item_plannable it" "t = item_tool pr gate it"
    by auto
  obtain n where n: "usable_name (fst (fst it)) = Some n" using batch_items_named [OF it(1)] by auto
  have "fst (fst it) \<in> set (map (\<lambda>it. fst (fst it)) (batch_items items schema pre mode))" using it(1) by simp
  then have "fst (fst it) \<in> set items" unfolding batch_items_tools by simp
  moreover have "get_str ''name'' (fst (fst it)) = Some (tool_name t)" "tool_name t \<noteq> []"
    using usable_nameD [OF n] item_tool_facts(3) [OF it(2)] it(3) by simp_all
  ultimately show ?thesis using item_tool_plan_one [OF it(2), of pr gate] it(3) by blast
qed

lemma named_tool_unique:
  assumes "distinct (List.map_filter (get_str ''name'') items)" "def \<in> set items" "get_str ''name'' def = Some n"
  shows "named_tool n items = Some def"
  using assms
proof (induction items)
  case (Cons x items)
  have "n \<notin> set (List.map_filter (get_str ''name'') items)" if "get_str ''name'' x = Some n"
    using Cons.prems(1) that by (simp add: map_filter_simps)
  moreover have "n \<in> set (List.map_filter (get_str ''name'') items)" if "def \<in> set items"
    using that Cons.prems(3) by (force simp: List.map_filter_def)
  ultimately show ?case
    using Cons by (cases "get_str ''name'' x") (auto simp: named_tool_def map_filter_simps)
qed simp

lemma replan_columns:
  assumes "plan_one pr def l s tg gate = Some (Inr t)" "get_str ''name'' def = Some n" "n \<noteq> []"
  shows "\<exists>t'. replan pr ctx def = Inr t' \<and> inputs t' = inputs t \<and> shape t' = shape t \<and> tool_name t' = n"
proof -
  have u: "usable_name def = Some n" using assms(2,3) by (simp add: usable_name_def)
  have pl: "plannable def" using assms(1) plan_one_skip [of def pr l s tg gate] by (cases "plannable def") auto
  let ?items = "batch_items [def] ''pg_mcp_runtime'' [] SingleSchema"
  obtain p where p: "plan pr [def] ''pg_mcp_runtime'' [] IReadOnly SingleSchema = Some (Inr p)"
    "tools p = map (item_tool pr IReadOnly) (filter item_plannable ?items)"
    using plan_eq [OF ident_ok_Nil, of "''pg_mcp_runtime''" "[def]" pr IReadOnly SingleSchema] by auto
  have "map (\<lambda>it. fst (fst it)) ?items = [def]" using u by (simp add: batch_items_tools)
  then obtain it where it: "?items = [it]" "fst (fst it) = def" by auto
  then have pl': "item_plannable it" using pl by simp
  from p it pl' have "replan pr ctx def = Inr (item_tool pr IReadOnly it)" by (simp add: replan_def)
  moreover have "tool_name (item_tool pr IReadOnly it) = n" using item_tool_facts(3) [OF pl'] it(2) assms(2) by simp
  moreover have "inputs (item_tool pr IReadOnly it) = inputs t \<and> shape (item_tool pr IReadOnly it) = shape t"
    using plan_one_columns [OF item_tool_plan_one [OF pl', where gate = IReadOnly and pr = pr, unfolded it(2)] assms(1)] by blast
  ultimately show ?thesis by blast
qed

lemma same_columns_fits: "inputs t' = inputs t \<Longrightarrow> shape t' = shape t \<Longrightarrow> fits t' r \<longleftrightarrow> fits t r"
  by (simp add: fits_def ddl_columns_def table_columns_def output_columns_def)

lemma resolve_tool_Inr:
  assumes "resolve_tool env pg ctx b = (Inr t, b')"
  obtains items b1 def where "tools_listing env ctx b = (Inr items, b1)" "named_tool (pt_tool (pc_target ctx)) items = Some def"
    "replan (json_text pg) ctx def = Inr t" "b' = note_tools_changed pg ctx b1"
  using assms by (auto simp: resolve_tool_def eff_simps split: sum.splits prod.splits option.splits)

lemma replan_context: "replan pr (ctx\<lparr>pc_quals := q\<rparr>) def = replan pr ctx def"
proof -
  have "unmappable_tool (ctx\<lparr>pc_quals := q\<rparr>) = unmappable_tool ctx" by (simp add: unmappable_tool_def)
  then show ?thesis unfolding replan_def by (simp only:)
qed

lemma tools_listing_context: "tools_listing env (ctx\<lparr>pc_quals := q\<rparr>) = tools_listing env ctx"
  by (simp add: tools_listing_def)

lemma invoke_and_shape_Inr:
  assumes "invoke_and_shape env pg pin ctx t arguments b = (Inr rows, b')"
  shows "\<exists>result. with_session env (pc_resolved ctx) (\<lambda>tr. session_request env tr ''tools/call''
      (JObj [(''name'', JStr (tool_name t)), (''arguments'', arguments)])) b = (Inr result, b')
    \<and> shape_result (json_text pg) pin t arguments result = Inr rows"
  using assms by (auto simp: invoke_and_shape_def eff_simps split: sum.splits prod.splits)

lemma resolve_generated:
  assumes "plan (json_text pg) items schema pre gate mode = Some (Inr p)" "ident_ok pre" "schema \<noteq> []" "length items < 2 ^ 64"
    and "t \<in> set (tools p)" "distinct (List.map_filter (get_str ''name'') items)"
    and "tools_listing env ctx b = (Inr items, b1)" "pt_tool (pc_target ctx) = tool_name t"
  shows "\<exists>t'. resolve_tool env pg ctx b = (Inr t', note_tools_changed pg ctx b1) \<and> inputs t' = inputs t \<and> shape t' = shape t
    \<and> tool_name t' = tool_name t"
proof -
  obtain def l s tg where d: "def \<in> set items" "get_str ''name'' def = Some (tool_name t)" "tool_name t \<noteq> []"
    "plan_one (json_text pg) def l s tg gate = Some (Inr t)"
    using planned_from_entry [OF assms(1-5)] by blast
  from replan_columns [OF d(4,2,3), of ctx] obtain t' where t': "replan (json_text pg) ctx def = Inr t'" "inputs t' = inputs t"
    "shape t' = shape t" "tool_name t' = tool_name t" by blast
  with assms(7,8) named_tool_unique [OF assms(6) d(1,2)] show ?thesis by (simp add: resolve_tool_def eff_simps)
qed


definition now_tool :: json where
  "now_tool = JObj [(''name'', JStr ''now''), (''inputSchema'', JObj [(''properties'', JObj [])])]"

definition warm_backend :: backend where
  "warm_backend = empty_backend\<lparr>caches := [(1, 5) \<mapsto> [Slice_Tools \<mapsto> \<lparr>fetched_at = 0, cached_items = [now_tool]\<rparr>]]\<rparr>"

definition now_context :: per_tool_context where
  "now_context = \<lparr>pc_target = \<lparr>pt_tool = ''now'', pt_invoke = True, pt_ttl_ms = None\<rparr>, pc_table_qual = ''s.tool_now'',
     pc_server_name = ''srv'', pc_resolved = role_five, pc_quals = []\<rparr>"

lemma warm_listing: "tools_listing env now_context warm_backend = (Inr [now_tool], warm_backend)"
  by (simp add: tools_listing_def get_or_fetch_def cache_lookup_def warm_backend_def empty_backend_def now_context_def
      role_five_def session_key_of_def Let_def)


section \<open>What a SELECT does\<close>

lemma arguments_loop_spec:
  assumes "distinct (map property cols)" "\<forall>c \<in> set cols. map_of args (property c) = None"
  shows "case arguments_loop supplied missing cols args of
      Inr a \<Rightarrow> (\<forall>c \<in> set cols. required c \<longrightarrow> supplied c \<noteq> None) \<and> (\<forall>c \<in> set cols. jget (property c) a = supplied c)
        \<and> (\<forall>p. p \<notin> property ` set cols \<longrightarrow> jget p a = map_of args p)
    | Inl e \<Rightarrow> \<exists>c \<in> set cols. required c \<and> supplied c = None \<and> e = missing c"
  using assms
proof (induction cols arbitrary: args)
  case (Cons c cols)
  show ?case
  proof (cases "supplied c")
    case None
    with Cons.IH [of args] Cons.prems show ?thesis by (auto split: sum.splits)
  next
    case (Some v)
    have "\<forall>c' \<in> set cols. map_of (obj_insert (property c) v args) (property c') = None"
      using Cons.prems by (auto simp: image_iff)
    from Cons.IH [OF _ this] Cons.prems Some show ?thesis by (auto split: sum.splits)
  qed
qed simp

lemma arguments_loop_missing:
  "arguments_loop supplied missing cols args = Inl e \<Longrightarrow> \<exists>c \<in> set cols. required c \<and> supplied c = None \<and> e = missing c"
  by (induction cols arbitrary: args) (auto split: option.splits if_splits)

lemma arguments_loop_required:
  "arguments_loop supplied missing cols args = Inr a \<Longrightarrow> c \<in> set cols \<Longrightarrow> required c \<Longrightarrow> supplied c \<noteq> None"
  by (induction cols arbitrary: args) (auto split: option.splits if_splits)

definition expected_rows :: "planned_tool \<Rightarrow> json \<Rightarrow> nat" where
  "expected_rows t result =
     (case shape t of
        ElementOf p _ \<Rightarrow> if is_error_result result then 1 else max 1 (length (fan_out_elements (jget ''structuredContent'' result) p))
      | _ \<Rightarrow> 1)"

lemma collect_results_length: "collect_results f xs = Inr ys \<Longrightarrow> length ys = length xs"
  unfolding collect_results_Inr by (simp add: list_all2_lengthD)

lemma shape_result_length:
  assumes "shape_result pr pin t arguments result = Inr rows"
  shows "length rows = expected_rows t result"
proof (cases "shape t")
  case (ElementOf p cols)
  then show ?thesis
    using assms by (auto simp: shape_result_def expected_rows_def Let_def rmap_eq_Inr_iff Suc_le_eq max_def
        dest!: collect_results_length split: if_splits)
qed (use assms in \<open>auto simp: shape_result_def expected_rows_def Let_def rmap_eq_Inr_iff rbind_eq_Inr_iff split: if_splits\<close>)

text \<open>The cells a row has for the tool's output columns.\<close>

definition output_cells :: "planned_tool \<Rightarrow> row \<Rightarrow> cell option list" where
  "output_cells t r = take (length (output_columns t)) (drop (length (inputs t)) r)"

lemma shape_row_parts:
  assumes "shape_row t echo outs err content = Inr r"
  shows "last r = Some (Cell_Bool err)" "length outs = length (output_columns t) \<Longrightarrow> output_cells t r = outs"
  using assms by (auto simp: shape_row_def rmap_eq_Inr_iff output_cells_def dest: collect_results_length)

lemma shape_result_error:
  assumes "shape_result pr pin t arguments result = Inr rows" "r \<in> set rows"
  shows "last r = Some (Cell_Bool (is_error_result result))"
    and "is_error_result result \<Longrightarrow> output_cells t r = replicate (length (output_columns t)) None"
proof -
  show "is_error_result result \<Longrightarrow> output_cells t r = replicate (length (output_columns t)) None"
    using assms by (auto simp: shape_result_def Let_def rmap_eq_Inr_iff intro!: shape_row_parts(2))
  show "last r = Some (Cell_Bool (is_error_result result))"
    using assms
    by (auto simp: shape_result_def Let_def rmap_eq_Inr_iff rbind_eq_Inr_iff dest!: collect_results_in shape_row_parts(1)
        split: if_splits output_shape.splits)
qed

definition tool_call :: "env \<Rightarrow> per_tool_context \<Rightarrow> planned_tool \<Rightarrow> json \<Rightarrow> ('z backend_scheme, json) eff" where
  "tool_call env ctx t arguments = with_session env (pc_resolved ctx) (\<lambda>tr.
     session_request env tr ''tools/call'' (JObj [(''name'', JStr (tool_name t)), (''arguments'', arguments)]))"

lemma select_success:
  fixes b :: "'z backend_scheme"
  assumes run: "per_tool_begin_scan env pg pin ctx b = (Inr c, b')"
  shows "\<exists>t b1 arguments result rows.
     resolve_tool env pg ctx b = (Inr t, b1) \<and> tool_call env ctx t arguments b1 = (Inr result, b')
     \<and> (distinct (map property (inputs t)) \<longrightarrow>
          (\<forall>col \<in> set (inputs t). jget (property col) arguments = supplied_qual (pc_quals ctx) col)
          \<and> (\<forall>p. p \<notin> property ` set (inputs t) \<longrightarrow> jget p arguments = None))
     \<and> lc_rows c = filter (post_filter t (pc_quals ctx)) rows \<and> length rows = expected_rows t result
     \<and> (\<forall>row \<in> set rows. last row = Some (Cell_Bool (is_error_result result))
          \<and> (is_error_result result \<longrightarrow> output_cells t row = replicate (length (output_columns t)) None))"
proof -
  from run obtain t b1 arguments rows where
    t: "resolve_tool env pg ctx b = (Inr t, b1)" and a: "arguments_from_quals t (pc_quals ctx) = Inr arguments" and
    i: "invoke_and_shape env pg pin ctx t arguments b1 = (Inr rows, b')" and c: "lc_rows c = filter (post_filter t (pc_quals ctx)) rows"
    unfolding per_tool_begin_scan_def ebind_Inr emap_err_Inr by (auto simp: elift_apply eret_apply)
  from invoke_and_shape_Inr [OF i] obtain result where call: "tool_call env ctx t arguments b1 = (Inr result, b')"
    and s: "shape_result (json_text pg) pin t arguments result = Inr rows" unfolding tool_call_def by blast
  have "distinct (map property (inputs t)) \<longrightarrow>
      (\<forall>col \<in> set (inputs t). jget (property col) arguments = supplied_qual (pc_quals ctx) col)
      \<and> (\<forall>p. p \<notin> property ` set (inputs t) \<longrightarrow> jget p arguments = None)"
    using arguments_loop_spec [of "inputs t" "[]" "supplied_qual (pc_quals ctx)" "missing_qual t"] a
    unfolding arguments_from_quals_def by auto
  with t call c shape_result_length [OF s] shape_result_error [OF s] show ?thesis by blast
qed

lemma select_refused: "\<not> pt_invoke (pc_target ctx) \<Longrightarrow> \<exists>m. per_tool_begin_scan env pg pin ctx b = (Inl (Mcp (FeatureNotSupported m)), b)"
  by (simp add: per_tool_begin_scan_def check_gate_def eff_simps)

lemma select_unbound:
  assumes "pt_invoke (pc_target ctx)" "resolve_tool env pg ctx b = (Inr t, b1)" "col \<in> set (inputs t)" "required col"
    "supplied_qual (pc_quals ctx) col = None"
  shows "\<exists>m. per_tool_begin_scan env pg pin ctx b = (Inl (Mcp (InvalidParams m)), b1)"
proof -
  obtain e where e: "arguments_from_quals t (pc_quals ctx) = Inl e"
    unfolding arguments_from_quals_def using assms(3-5)
    by (cases "arguments_loop (supplied_qual (pc_quals ctx)) (missing_qual t) (inputs t) []") (auto dest: arguments_loop_required)
  then have "\<exists>m. e = InvalidParams m"
    unfolding arguments_from_quals_def by (auto dest: arguments_loop_missing simp: missing_qual_def)
  with assms(1,2) e show ?thesis by (auto simp: per_tool_begin_scan_def check_gate_def eff_simps)
qed


definition strict_input :: pg_input where
  "strict_input = \<lparr>timestamptz_in = (\<lambda>_. Inl ''22007''), uuid_in = (\<lambda>_. Inl ''22P02''), date_in = (\<lambda>_. Inl ''22007'')\<rparr>"

lemma now_resolves:
  "\<exists>t. resolve_tool env random_host now_context warm_backend = (Inr t, note_tools_changed random_host now_context warm_backend)
     \<and> inputs t = [] \<and> shape t = ONone"
proof -
  obtain t where t: "plan_one (json_text random_host) now_tool [] [] [] IAll = Some (Inr t)" "inputs t = []" "shape t = ONone"
    by (simp add: plan_one_def now_tool_def properties_def analyze_output_def Let_def)
  have n: "get_str ''name'' now_tool = Some ''now''" by (simp add: now_tool_def get_defs)
  from replan_columns [OF t(1) n, of now_context] t obtain t' where
    "replan (json_text random_host) now_context now_tool = Inr t'" "inputs t' = []" "shape t' = ONone" by auto
  moreover have "named_tool (pt_tool (pc_target now_context)) [now_tool] = Some now_tool"
    using n by (simp add: named_tool_def now_context_def)
  ultimately show ?thesis by (simp add: resolve_tool_def eff_simps warm_listing)
qed


section \<open>Isolation\<close>

lemma own_touches_evolves: "evolves (own res :: 'z backend_scheme \<Rightarrow> _) m \<Longrightarrow> evolves (touches res) m"
  by (auto simp: evolves_def intro: own_touches)

lemma tools_listing_touches: "evolves (touches (pc_resolved ctx) :: 'z backend_scheme \<Rightarrow> _) (tools_listing env ctx)"
  unfolding tools_listing_def Let_def
  by (intro own_touches_evolves own_scope.evo_get_or_fetch own_cache_insert refl)
    (rule own_scope.scope_with_session, rule own_scope.scope_list_all)

lemma touches_warn: "touches res b (warn level msg b)"
  using log_bounded_cong [of "warn level msg b" b] by (simp add: touches_def warn_def)

lemma note_tools_changed_touches: "touches (pc_resolved ctx) b (note_tools_changed pg ctx b)"
proof -
  let ?res = "pc_resolved ctx"
  let ?b1 = "snd (drop_tools (session_key_of ?res) b)"
  have "touches ?res b ?b1" by (rule own_touches [OF own_drop_tools]) simp
  moreover have "touches ?res ?b1 (warn level msg ?b1)" for level msg by (rule touches_warn)
  ultimately have "touches ?res b (warn level msg ?b1)" for level msg by (rule touch_scope.evo_trans)
  with \<open>touches ?res b ?b1\<close> show ?thesis
    by (auto simp: note_tools_changed_def Let_def touch_scope.evo_refl split: sum.splits)
qed

lemma resolve_tool_touches: "evolves (touches (pc_resolved ctx) :: 'z backend_scheme \<Rightarrow> _) (resolve_tool env pg ctx)"
  unfolding resolve_tool_def
  by (intro touch_scope.evo_bind touch_scope.evo_map_err tools_listing_touches) (simp add: evolves_def note_tools_changed_touches)

lemma invoke_and_shape_touches:
  "evolves (touches (pc_resolved ctx) :: 'z backend_scheme \<Rightarrow> _) (invoke_and_shape env pg pin ctx t arguments)"
  unfolding invoke_and_shape_def
  by (intro touch_scope.evo_bind touch_scope.evo_map_err touch_scope.evo_lift)
    (rule touch_scope.scope_with_session, rule touch_scope.scope_request)

lemma per_tool_scan_touches: "evolves (touches (pc_resolved ctx) :: 'z backend_scheme \<Rightarrow> _) (per_tool_begin_scan env pg pin ctx)"
  unfolding per_tool_begin_scan_def
  by (intro touch_scope.evo_bind touch_scope.evo_map_err touch_scope.evo_lift touch_scope.evo_ret resolve_tool_touches invoke_and_shape_touches)

lemma per_tool_insert_touches: "evolves (touches (pc_resolved ctx) :: 'z backend_scheme \<Rightarrow> _) (per_tool_insert env pg pin ctx supplied)"
proof -
  have r: "evolves (touches (pc_resolved ctx) :: 'z backend_scheme \<Rightarrow> _) (resolve_tool env pg (ctx\<lparr>pc_quals := []\<rparr>))"
    and i: "evolves (touches (pc_resolved ctx) :: 'z backend_scheme \<Rightarrow> _) (invoke_and_shape env pg pin (ctx\<lparr>pc_quals := []\<rparr>) t arguments)"
    for t arguments
    using resolve_tool_touches [of "ctx\<lparr>pc_quals := []\<rparr>" env pg] invoke_and_shape_touches [of "ctx\<lparr>pc_quals := []\<rparr>" env pg pin t arguments]
    by simp_all
  show ?thesis
    unfolding per_tool_insert_def Let_def
    by (intro touch_scope.evo_bind touch_scope.evo_map_err touch_scope.evo_lift touch_scope.evo_ret r i)
qed

section \<open>Divergences\<close>

text \<open>
  A qual on an output column whose cells have no JSON form rejects every row: the filter compares
  with JSON null, which equals nothing. The executor never sees the rows it would have kept.
\<close>

lemma uuid_filter_drops_all:
  assumes "q \<in> set quals" "\<not> consumed_as_argument t q"
    and "position (\<lambda>c. col_sql c = field q) (output_columns t) = Some i"
    and "r ! (length (inputs t) + i) = Some (Cell_Uuid u)" "length (inputs t) + i < length r"
  shows "\<not> post_filter t quals r"
proof -
  have "\<not> json_equal v JNull" for v by (cases v) (simp_all add: json_equal_def)
  then have m: "\<not> matches_json q (field q) JNull"
    by (simp add: matches_json_def list_ex_iff split: operator.splits option.splits)
  have "filter_value t (field q) r = Some (Some (Cell_Uuid u))" using assms(3-5) by (simp add: filter_value_def Let_def)
  with m assms(1,2) show ?thesis unfolding post_filter_def list_all_iff by (intro notI) (drule bspec, assumption, simp)
qed

end
