(* ===== verification/Pushdown.thy ===== *)
theory Pushdown
  imports Per_Tool
begin

text \<open>
  The planner half of \<^verbatim>\<open>fdw.rs\<close>: how a foreign table finds its handler, which clauses of a query are
  taken over as quals and which stay with PostgreSQL, and the plan that carries them to the
  executor. The server's expression nodes are a datatype with the node tags the code inspects;
  catalog lookups, type output functions and serde's codec are fields of \<open>foreign_rel\<close> and
  \<open>fdw_host\<close>. The second part gives the inspected clauses their SQL meaning and shows that a
  pushed clause accepts exactly the rows its qual accepts.
\<close>

section \<open>Failures and the host\<close>

text \<open>
  An entry point ends the statement with its own report, with an error raised inside a PostgreSQL
  function it called, or with a panic, which the guard around it turns into an error.
\<close>

datatype fdw_failure = Reported pg_report | Raised_by_pg string | Panicked

definition raise_mcp :: "mcp_error \<Rightarrow> fdw_failure + 'a" where
  "raise_mcp e = Inl (Reported (raise_err e))"

definition or_panic :: "'a option \<Rightarrow> fdw_failure + 'a" where
  "or_panic v = ok_or v Panicked"

definition pg_result :: "string + 'a \<Rightarrow> fdw_failure + 'a" where
  "pg_result r = (case r of Inl msg \<Rightarrow> Inl (Raised_by_pg msg) | Inr v \<Rightarrow> Inr v)"

text \<open>What the catalogs say of one foreign table; \<open>None\<close> is a NULL pointer.\<close>

record foreign_rel =
  get_rel_name :: "string option"
  get_namespace_name :: "string option"
  rel_options :: "(string \<times> string) list"
  rel_servername :: "string option"
  get_attname :: "int \<Rightarrow> string + string"
  get_atttype :: "int \<Rightarrow> oid"

record 'd fdw_host =
  get_opcode :: "oid \<Rightarrow> oid"
  text_to_cstring :: "'d \<Rightarrow> string"
  jsonb_out :: "'d \<Rightarrow> string"
  uuid_out :: "'d \<Rightarrow> string"
  date_out :: "'d \<Rightarrow> string"
  timestamptz_out :: "'d \<Rightarrow> string"
  byteaout :: "'d \<Rightarrow> string"
  bool_from_datum :: "'d \<Rightarrow> bool"
  i32_from_datum :: "'d \<Rightarrow> int"
  i64_from_datum :: "'d \<Rightarrow> int"
  f64_from_datum :: "'d \<Rightarrow> rat option"
  uuid_bytes :: "'d \<Rightarrow> nat list"
  cstring_to_text :: "string \<Rightarrow> 'd"
  jsonb_in :: "string \<Rightarrow> string + 'd"
  byteain :: "string \<Rightarrow> string + 'd"
  date_in_func :: "string \<Rightarrow> string + 'd"
  bool_datum :: "bool \<Rightarrow> 'd"
  i32_datum :: "int \<Rightarrow> 'd"
  i64_datum :: "int \<Rightarrow> 'd"
  f64_datum :: "rat option \<Rightarrow> 'd"
  uuid_datum :: "nat list \<Rightarrow> 'd"
  json_from_str :: "string \<Rightarrow> json option"
  private_to_string :: "fdw_private \<Rightarrow> string option"
  private_from_str :: "string \<Rightarrow> fdw_private option"

definition cstr_to_string :: "string option \<Rightarrow> string \<Rightarrow> fdw_failure + string" where
  "cstr_to_string raw what =
     (case raw of
        None \<Rightarrow> raise_mcp (Internal (''catalog returned no name for '' @ what))
      | Some s \<Rightarrow> Inr s)"

section \<open>The handler of a foreign table\<close>

datatype target = Registry table_entry | PerTool per_tool_target

definition relname_for_relid :: "foreign_rel \<Rightarrow> fdw_failure + string" where
  "relname_for_relid rel = cstr_to_string (get_rel_name rel) ''foreign table''"

definition rel_option :: "foreign_rel \<Rightarrow> string \<Rightarrow> string option" where
  "rel_option rel k = map_option snd (find (\<lambda>(n, _). n = k) (rel_options rel))"

definition unmanaged_table :: "string \<Rightarrow> mcp_error" where
  "unmanaged_table name = FeatureNotSupported
     (''foreign table \"'' @ name @ ''\" is not managed by mcp_fdw; import it with IMPORT FOREIGN SCHEMA mcp FROM SERVER ... (PRD-7 ''
      @ sect_sign @ ''4.11) or generate per-tool tables with mcp.generate_functions (PRD-8 '' @ sect_sign @ ''4.6)'')"

definition target_for_relid :: "foreign_rel \<Rightarrow> fdw_failure + target" where
  "target_for_relid rel =
     rbind (relname_for_relid rel) (\<lambda>name.
     case find_table name of
       Some entry \<Rightarrow> Inr (Registry entry)
     | None \<Rightarrow>
         (case rel_option rel ''tool'' of
            Some tool \<Rightarrow>
              if tool \<noteq> []
              then Inr (PerTool \<lparr>pt_tool = tool,
                                 pt_invoke = (rel_option rel ''invoke_on_select'' = Some ''true''),
                                 pt_ttl_ms = Option.bind (rel_option rel ''cache_ttl_ms'') parse_u64\<rparr>)
              else raise_mcp (unmanaged_table name)
          | None \<Rightarrow> raise_mcp (unmanaged_table name)))"

definition table_qual_for_relid :: "foreign_rel \<Rightarrow> fdw_failure + string" where
  "table_qual_for_relid rel =
     rbind (cstr_to_string (get_namespace_name rel) ''foreign table schema'') (\<lambda>schema.
     rbind (relname_for_relid rel) (\<lambda>name.
     Inr (quote_ident schema @ ''.'' @ quote_ident name)))"

definition server_name_for_relid :: "foreign_rel \<Rightarrow> fdw_failure + string" where
  "server_name_for_relid rel = cstr_to_string (rel_servername rel) ''foreign server''"

definition resolve_for_relid :: "pg_catalog \<Rightarrow> foreign_rel \<Rightarrow> fdw_failure + (target \<times> string \<times> resolved)" where
  "resolve_for_relid cat rel =
     rbind (target_for_relid rel) (\<lambda>target.
     rbind (server_name_for_relid rel) (\<lambda>server_name.
     case resolve cat server_name of
       Inl e \<Rightarrow> raise_mcp e
     | Inr r \<Rightarrow> Inr (target, server_name, r)))"

section \<open>Values as JSON\<close>

text \<open>Type OIDs beyond those of the column types, from PostgreSQL's \<^verbatim>\<open>pg_type.dat\<close>.\<close>

definition VARCHAROID :: oid where "VARCHAROID = 1043"
definition BPCHAROID :: oid where "BPCHAROID = 1042"

definition is_iso_timestamp :: "string \<Rightarrow> bool" where
  "is_iso_timestamp b \<longleftrightarrow>
     19 \<le> length b \<and> b ! 4 = CHR ''-'' \<and> b ! 7 = CHR ''-'' \<and> b ! 10 = CHR '' '' \<and> b ! 13 = CHR '':'' \<and> b ! 16 = CHR '':''"

definition normalized_offset :: "string \<Rightarrow> string" where
  "normalized_offset offset =
     (if offset = [] then []
      else if offset = ''+00'' then ''Z''
      else if length offset = 3 then offset @ '':00''
      else offset)"

definition pg_timestamptz_to_json :: "string \<Rightarrow> string option" where
  "pg_timestamptz_to_json raw =
     (if \<not> is_iso_timestamp raw then Some raw
      else Option.bind (slice_from 11 raw) (\<lambda>time.
           Option.bind (slice_from 8 time) (\<lambda>tail.
           let offset_at = map_option (\<lambda>i. 8 + i) (position (\<lambda>c. c = CHR ''+'' \<or> c = CHR ''-'') tail);
               (time_core, offset) = (case offset_at of Some i \<Rightarrow> (take i time, drop i time) | None \<Rightarrow> (time, []))
           in map_option (\<lambda>date. date @ ''T'' @ time_core @ normalized_offset offset) (slice_to 10 raw))))"

definition datum_to_json :: "('d, 'z) fdw_host_scheme \<Rightarrow> oid \<Rightarrow> 'd \<Rightarrow> fdw_failure + json option" where
  "datum_to_json h t d =
     (if t = oid Ty_Text \<or> t = VARCHAROID \<or> t = BPCHAROID then Inr (Some (JStr (text_to_cstring h d)))
      else if t = oid Ty_Jsonb then Inr (json_from_str h (jsonb_out h d))
      else if t = oid Ty_Boolean then Inr (Some (JBool (bool_from_datum h d)))
      else if t = oid Ty_Int4 then Inr (Some (JNum (number_of_int (i32_from_datum h d))))
      else if t = oid Ty_Int8 then Inr (Some (JNum (number_of_int (i64_from_datum h d))))
      else if t = oid Ty_Float8 then Inr (map_option (\<lambda>r. JNum (Float r)) (f64_from_datum h d))
      else if t = oid Ty_Uuid then Inr (Some (JStr (uuid_out h d)))
      else if t = oid Ty_Date then Inr (Some (JStr (date_out h d)))
      else if t = oid Ty_TimestampTz
           then rmap (\<lambda>s. Some (JStr s)) (or_panic (pg_timestamptz_to_json (timestamptz_out h d)))
      else Inr None)"

section \<open>Clauses\<close>

datatype param_kind = PARAM_EXTERN | PARAM_EXEC | PARAM_SUBLINK | PARAM_MULTIEXPR
datatype bool_expr_type = AND_EXPR | OR_EXPR | NOT_EXPR
datatype bool_test_type = IS_TRUE | IS_NOT_TRUE | IS_FALSE | IS_NOT_FALSE | IS_UNKNOWN | IS_NOT_UNKNOWN
datatype null_test_type = IS_NULL | IS_NOT_NULL

text \<open>Fields as the code reads them: \<open>T_Var varno varattno varlevelsup\<close>, \<open>T_Const consttype constisnull constvalue\<close>,
  \<open>T_Param paramkind paramid paramtype\<close>, and operator, flags and arguments of the rest.\<close>

datatype 'd node =
    T_Var int int nat
  | T_Const oid bool 'd
  | T_Param param_kind int oid
  | T_OpExpr oid "'d node list"
  | T_ScalarArrayOpExpr oid bool "'d node list"
  | T_BoolExpr bool_expr_type "'d node list"
  | T_BooleanTest bool_test_type "'d node"
  | T_NullTest null_test_type "'d node"
  | T_RelabelType "'d node"
  | T_Other

datatype 'd pushed = Value qual | Param param_qual "'d node"

fun strip_coercion :: "'d node \<Rightarrow> 'd node" where
  "strip_coercion (T_RelabelType arg) = strip_coercion arg"
| "strip_coercion n = n"

text \<open>Function OIDs of PostgreSQL's \<^verbatim>\<open>pg_proc.dat\<close>: the equalities of text, int4, int8, bool, bytea, jsonb,
  uuid, float8, date and timestamptz.\<close>

definition EQUALITY_OPCODES :: "oid list" where
  "EQUALITY_OPCODES = [67, 65, 467, 60, 1948, 4038, 2956, 293, 1086, 1152]"

definition is_equality_opcode :: "oid \<Rightarrow> bool" where
  "is_equality_opcode opcode \<longleftrightarrow> opcode \<in> set EQUALITY_OPCODES"

fun const_to_json :: "('d, 'z) fdw_host_scheme \<Rightarrow> 'd node \<Rightarrow> fdw_failure + json option" where
  "const_to_json h (T_Const t isnull v) = (if isnull then Inr None else datum_to_json h t v)"
| "const_to_json h _ = Inr None"

definition eligible_column :: "target \<Rightarrow> string \<Rightarrow> bool" where
  "eligible_column target column =
     (case target of
        Registry entry \<Rightarrow> attno (spec entry) column \<noteq> None \<and> column \<in> set (pushdown_columns (handler entry))
      | PerTool _ \<Rightarrow> True)"

fun var_column :: "foreign_rel \<Rightarrow> target \<Rightarrow> int \<Rightarrow> 'd node \<Rightarrow> fdw_failure + string option" where
  "var_column rel target rt_index (T_Var varno varattno varlevelsup) =
     (if varlevelsup \<noteq> 0 \<or> varattno \<le> 0 \<or> varno \<noteq> rt_index then Inr None
      else rmap (\<lambda>column. if eligible_column target column then Some column else None)
             (pg_result (get_attname rel varattno)))"
| "var_column rel target rt_index _ = Inr None"

definition qual_from_var :: "foreign_rel \<Rightarrow> target \<Rightarrow> int \<Rightarrow> 'd node \<Rightarrow> json \<Rightarrow> fdw_failure + 'd pushed option" where
  "qual_from_var rel target rt_index v value =
     rmap (map_option (\<lambda>column. Value (qual_equal column value))) (var_column rel target rt_index v)"

fun is_var :: "'d node \<Rightarrow> bool" where
  "is_var (T_Var _ _ _) = True"
| "is_var _ = False"

text \<open>Orientation of the two sides of an equality: the column first.\<close>

fun orient :: "'d node \<Rightarrow> 'd node \<Rightarrow> ('d node \<times> 'd node) option" where
  "orient (T_Var a b c) (T_Const t n v) = Some (T_Var a b c, T_Const t n v)"
| "orient (T_Var a b c) (T_Param k i t) = Some (T_Var a b c, T_Param k i t)"
| "orient (T_Const t n v) (T_Var a b c) = Some (T_Var a b c, T_Const t n v)"
| "orient (T_Param k i t) (T_Var a b c) = Some (T_Var a b c, T_Param k i t)"
| "orient _ _ = None"

definition param_pushed :: "string \<Rightarrow> bool \<Rightarrow> 'd node \<Rightarrow> 'd pushed option" where
  "param_pushed column omit p =
     (case p of
        T_Param PARAM_EXTERN _ t \<Rightarrow>
          Some (Param \<lparr>pq_field = column, pq_index = 0, omit_null = omit, param_type = t\<rparr> p)
      | _ \<Rightarrow> None)"

definition pushed_value :: "('d, 'z) fdw_host_scheme \<Rightarrow> string \<Rightarrow> bool \<Rightarrow> 'd node \<Rightarrow> fdw_failure + 'd pushed option" where
  "pushed_value h column use_any n =
     (case n of
        T_Const _ _ _ \<Rightarrow>
          rmap (\<lambda>v. Option.bind v (\<lambda>value.
                  if use_any then map_option (\<lambda>items. Value (any_equal column items)) (as_array value)
                  else Some (Value (qual_equal column value))))
            (const_to_json h n)
      | T_Param _ _ _ \<Rightarrow> Inr (if use_any then None else param_pushed column False n)
      | _ \<Rightarrow> Inr None)"

definition equality_qual ::
  "('d, 'z) fdw_host_scheme \<Rightarrow> foreign_rel \<Rightarrow> target \<Rightarrow> int \<Rightarrow> oid \<Rightarrow> 'd node list \<Rightarrow> bool \<Rightarrow> fdw_failure + 'd pushed option"
where
  "equality_qual h rel target rt_index opno args use_any =
     (if \<not> is_equality_opcode (get_opcode h opno) then Inr None
      else case args of
        [a, b] \<Rightarrow>
          (case orient (strip_coercion a) (strip_coercion b) of
             None \<Rightarrow> Inr None
           | Some (v, n) \<Rightarrow>
               rbind (var_column rel target rt_index v) (\<lambda>c.
               case c of None \<Rightarrow> Inr None | Some column \<Rightarrow> pushed_value h column use_any n))
      | _ \<Rightarrow> Inr None)"

text \<open>\<^verbatim>\<open>($n IS NULL OR column = $n)\<close>, in either order.\<close>

fun optional_arms :: "'d node \<Rightarrow> 'd node \<Rightarrow> (null_test_type \<times> 'd node \<times> oid \<times> 'd node list) option" where
  "optional_arms (T_NullTest k arg) (T_OpExpr opno args) = Some (k, arg, opno, args)"
| "optional_arms (T_OpExpr opno args) (T_NullTest k arg) = Some (k, arg, opno, args)"
| "optional_arms _ _ = None"

definition optional_equality ::
  "('d, 'z) fdw_host_scheme \<Rightarrow> foreign_rel \<Rightarrow> target \<Rightarrow> int \<Rightarrow> int \<Rightarrow> oid \<Rightarrow> 'd node list \<Rightarrow> fdw_failure + 'd pushed option"
where
  "optional_equality h rel target rt_index null_id opno args =
     (if \<not> is_equality_opcode (get_opcode h opno) then Inr None
      else case args of
        [a, b] \<Rightarrow>
          (case orient (strip_coercion a) (strip_coercion b) of
             Some (v, T_Param k i t) \<Rightarrow>
               if i \<noteq> null_id then Inr None
               else rmap (\<lambda>c. Option.bind c (\<lambda>column. param_pushed column True (T_Param k i t)))
                      (var_column rel target rt_index v)
           | _ \<Rightarrow> Inr None)
      | _ \<Rightarrow> Inr None)"

definition extract_optional_param_qual ::
  "('d, 'z) fdw_host_scheme \<Rightarrow> foreign_rel \<Rightarrow> target \<Rightarrow> int \<Rightarrow> bool_expr_type \<Rightarrow> 'd node list \<Rightarrow> fdw_failure + 'd pushed option"
where
  "extract_optional_param_qual h rel target rt_index boolop args =
     (if boolop \<noteq> OR_EXPR then Inr None
      else case args of
        [a0, a1] \<Rightarrow>
          (case optional_arms (strip_coercion a0) (strip_coercion a1) of
             Some (IS_NULL, arg, opno, eq_args) \<Rightarrow>
               (case strip_coercion arg of
                  T_Param _ null_id _ \<Rightarrow> optional_equality h rel target rt_index null_id opno eq_args
                | _ \<Rightarrow> Inr None)
           | _ \<Rightarrow> Inr None)
      | _ \<Rightarrow> Inr None)"

fun truth_of_test :: "bool_test_type \<Rightarrow> json option" where
  "truth_of_test IS_TRUE = Some (JBool True)"
| "truth_of_test IS_FALSE = Some (JBool False)"
| "truth_of_test _ = None"

definition negated_var :: "bool_expr_type \<Rightarrow> 'd node list \<Rightarrow> 'd node option" where
  "negated_var boolop args =
     (case args of
        [a] \<Rightarrow> if boolop = NOT_EXPR \<and> is_var (strip_coercion a) then Some (strip_coercion a) else None
      | _ \<Rightarrow> None)"

fun extract_qual ::
  "('d, 'z) fdw_host_scheme \<Rightarrow> foreign_rel \<Rightarrow> target \<Rightarrow> int \<Rightarrow> 'd node \<Rightarrow> fdw_failure + 'd pushed option"
where
  "extract_qual h rel target rt (T_Var a b c) = qual_from_var rel target rt (T_Var a b c) (JBool True)"
| "extract_qual h rel target rt (T_BoolExpr boolop args) =
     (case negated_var boolop args of
        Some v \<Rightarrow> qual_from_var rel target rt v (JBool False)
      | None \<Rightarrow> extract_optional_param_qual h rel target rt boolop args)"
| "extract_qual h rel target rt (T_BooleanTest test arg) =
     (if \<not> is_var (strip_coercion arg) then Inr None
      else case truth_of_test test of
             Some truth \<Rightarrow> qual_from_var rel target rt (strip_coercion arg) truth
           | None \<Rightarrow> Inr None)"
| "extract_qual h rel target rt (T_OpExpr opno args) = equality_qual h rel target rt opno args False"
| "extract_qual h rel target rt (T_ScalarArrayOpExpr opno any args) = equality_qual h rel target rt opno args any"
| "extract_qual h rel target rt _ = Inr None"

section \<open>The plan\<close>

definition get_foreign_rel_size :: "foreign_rel \<Rightarrow> fdw_failure + rat" where
  "get_foreign_rel_size rel =
     rmap (\<lambda>target. case target of
             Registry entry \<Rightarrow> if ts_name (spec entry) = ''server'' then 1 else 1000
           | PerTool _ \<Rightarrow> 1000)
       (target_for_relid rel)"

text \<open>The one path added, as (rows, startup cost, total cost).\<close>

definition get_foreign_paths :: "rat \<Rightarrow> rat \<times> rat \<times> rat" where
  "get_foreign_paths rows = (rows, 0, 10 + rows * 10)"

datatype 'd scan_clause = RestrictInfo "'d node" bool | BareClause "'d node" | NullClause

text \<open>The lists the loop builds: quals, parameter quals, their nodes, and the clauses left to PostgreSQL.\<close>

record 'd clause_split =
  cs_pushed :: "qual list"
  cs_params :: "param_qual list"
  cs_param_nodes :: "'d node list"
  cs_local :: "'d node list"

definition empty_split :: "'d clause_split" where
  "empty_split = \<lparr>cs_pushed = [], cs_params = [], cs_param_nodes = [], cs_local = []\<rparr>"

definition keep_local :: "'d node \<Rightarrow> 'd clause_split \<Rightarrow> 'd clause_split" where
  "keep_local clause s = s\<lparr>cs_local := cs_local s @ [clause]\<rparr>"

definition file_clause :: "'d node \<Rightarrow> 'd pushed option \<Rightarrow> 'd clause_split \<Rightarrow> 'd clause_split" where
  "file_clause clause verdict s =
     (case verdict of
        Some (Value q) \<Rightarrow> s\<lparr>cs_pushed := cs_pushed s @ [q]\<rparr>
      | Some (Param pq n) \<Rightarrow>
          s\<lparr>cs_params := cs_params s @ [pq\<lparr>pq_index := length (cs_param_nodes s)\<rparr>],
            cs_param_nodes := cs_param_nodes s @ [n]\<rparr>
      | None \<Rightarrow> keep_local clause s)"

fun clause_of :: "'d scan_clause \<Rightarrow> ('d node \<times> bool) option" where
  "clause_of (RestrictInfo clause pseudoconstant) = Some (clause, pseudoconstant)"
| "clause_of (BareClause clause) = Some (clause, False)"
| "clause_of NullClause = None"

fun split_clauses ::
  "('d, 'z) fdw_host_scheme \<Rightarrow> foreign_rel \<Rightarrow> target \<Rightarrow> int \<Rightarrow> 'd scan_clause list \<Rightarrow> 'd clause_split \<Rightarrow> fdw_failure + 'd clause_split"
where
  "split_clauses h rel target rt [] s = Inr s"
| "split_clauses h rel target rt (c # cs) s =
     (case clause_of c of
        None \<Rightarrow> split_clauses h rel target rt cs s
      | Some (clause, pseudoconstant) \<Rightarrow>
          if pseudoconstant then split_clauses h rel target rt cs (keep_local clause s)
          else rbind (extract_qual h rel target rt clause) (\<lambda>verdict.
               split_clauses h rel target rt cs (file_clause clause verdict s)))"

text \<open>An element of the private list is a string node or, as \<open>None\<close>, something the reader skips.\<close>

record 'd foreign_scan_plan =
  fs_local :: "'d node list"
  fdw_exprs :: "'d node list"
  fdw_private_list :: "string option list"

definition get_foreign_plan ::
  "('d, 'z) fdw_host_scheme \<Rightarrow> foreign_rel \<Rightarrow> int \<Rightarrow> 'd scan_clause list \<Rightarrow> fdw_failure + 'd foreign_scan_plan"
where
  "get_foreign_plan h rel rt_index scan_clauses =
     rbind (target_for_relid rel) (\<lambda>target.
     rbind (relname_for_relid rel) (\<lambda>relname.
     rbind (split_clauses h rel target rt_index scan_clauses empty_split) (\<lambda>s.
     case private_to_string h \<lparr>fp_table = relname, fp_quals = cs_pushed s, fp_params = cs_params s\<rparr> of
       None \<Rightarrow> raise_mcp (Internal ''could not encode fdw_private'')
     | Some text \<Rightarrow>
         if CHR 0x00 \<in> set text then raise_mcp (Internal ''fdw_private contained NUL'')
         else Inr \<lparr>fs_local = cs_local s, fdw_exprs = cs_param_nodes s, fdw_private_list = [Some text]\<rparr>)))"

section \<open>Reading the plan back\<close>

fun quals_from_private ::
  "('d, 'z) fdw_host_scheme \<Rightarrow> string option list \<Rightarrow> string \<Rightarrow> fdw_failure + (qual list \<times> param_qual list)"
where
  "quals_from_private h [] expected_table = Inr ([], [])"
| "quals_from_private h (None # nodes) expected_table = quals_from_private h nodes expected_table"
| "quals_from_private h (Some s # nodes) expected_table =
     (case private_from_str h s of
        None \<Rightarrow> quals_from_private h nodes expected_table
      | Some decoded \<Rightarrow>
          if fp_table decoded \<noteq> expected_table
          then raise_mcp (Internal (''fdw_private names table \"'' @ fp_table decoded @ ''\" but the plan scans \"''
                 @ expected_table @ ''\"''))
          else Inr (fp_quals decoded, fp_params decoded))"

definition list_node_at :: "'d node list \<Rightarrow> nat \<Rightarrow> 'd node option" where
  "list_node_at nodes index = (if index < length nodes then Some (nodes ! index) else None)"

text \<open>\<open>ev\<close> is the executor's evaluation of an expression node; \<open>None\<close> is the SQL NULL.\<close>

definition bind_param :: "('d, 'z) fdw_host_scheme \<Rightarrow> param_qual \<Rightarrow> 'd option \<Rightarrow> fdw_failure + qual option" where
  "bind_param h pq v =
     (case v of
        None \<Rightarrow> Inr None
      | Some d \<Rightarrow> rmap (map_option (qual_equal (pq_field pq))) (datum_to_json h (param_type pq) d))"

fun resolve_param_quals ::
  "('d, 'z) fdw_host_scheme \<Rightarrow> 'd node list \<Rightarrow> ('d node \<Rightarrow> string + 'd option) \<Rightarrow> param_qual list \<Rightarrow> fdw_failure + qual list"
where
  "resolve_param_quals h exprs ev [] = Inr []"
| "resolve_param_quals h exprs ev (pq # pqs) =
     (case list_node_at exprs (pq_index pq) of
        None \<Rightarrow> raise_mcp (Internal (''fdw_exprs entry '' @ show_nat (pq_index pq) @ '' for parameter qual on \"''
                  @ pq_field pq @ ''\" is missing''))
      | Some n \<Rightarrow>
          rbind (pg_result (ev n)) (\<lambda>v.
          rbind (bind_param h pq v) (\<lambda>bound.
          rmap (\<lambda>quals. case bound of None \<Rightarrow> quals | Some q \<Rightarrow> q # quals)
            (resolve_param_quals h exprs ev pqs))))"

section \<open>What the clauses mean\<close>

text \<open>
  SQL's reading of the clause shapes the planner inspects, on one row: \<open>rv\<close> gives the row's
  attributes, \<open>pv\<close> the statement's parameters, \<open>opeq\<close> the operators' functions; \<open>None\<close> is NULL.
\<close>

fun sql_value :: "(int \<Rightarrow> 'd option) \<Rightarrow> (int \<Rightarrow> 'd option) \<Rightarrow> 'd node \<Rightarrow> 'd option" where
  "sql_value rv pv (T_Var _ k _) = rv k"
| "sql_value rv pv (T_Const _ isnull v) = (if isnull then None else Some v)"
| "sql_value rv pv (T_Param _ i _) = pv i"
| "sql_value rv pv (T_RelabelType a) = sql_value rv pv a"
| "sql_value rv pv _ = None"

fun sql_or :: "bool option \<Rightarrow> bool option \<Rightarrow> bool option" where
  "sql_or (Some True) _ = Some True"
| "sql_or _ (Some True) = Some True"
| "sql_or (Some False) (Some False) = Some False"
| "sql_or _ _ = None"

fun sql_truth ::
  "('d, 'z) fdw_host_scheme \<Rightarrow> (oid \<Rightarrow> 'd \<Rightarrow> 'd \<Rightarrow> bool) \<Rightarrow> (int \<Rightarrow> 'd option) \<Rightarrow> (int \<Rightarrow> 'd option) \<Rightarrow> 'd node \<Rightarrow> bool option"
where
  "sql_truth h opeq rv pv (T_Var _ k _) = map_option (bool_from_datum h) (rv k)"
| "sql_truth h opeq rv pv (T_RelabelType a) = sql_truth h opeq rv pv a"
| "sql_truth h opeq rv pv (T_OpExpr opno [a, b]) =
     (case (sql_value rv pv a, sql_value rv pv b) of
        (Some x, Some y) \<Rightarrow> Some (opeq opno x y)
      | _ \<Rightarrow> None)"
| "sql_truth h opeq rv pv (T_BoolExpr NOT_EXPR [a]) = map_option Not (sql_truth h opeq rv pv a)"
| "sql_truth h opeq rv pv (T_BoolExpr OR_EXPR [a, b]) = sql_or (sql_truth h opeq rv pv a) (sql_truth h opeq rv pv b)"
| "sql_truth h opeq rv pv (T_BooleanTest IS_TRUE a) = Some (sql_truth h opeq rv pv a = Some True)"
| "sql_truth h opeq rv pv (T_BooleanTest IS_FALSE a) = Some (sql_truth h opeq rv pv a = Some False)"
| "sql_truth h opeq rv pv (T_NullTest IS_NULL a) = Some (sql_value rv pv a = None)"
| "sql_truth h opeq rv pv (T_NullTest IS_NOT_NULL a) = Some (sql_value rv pv a \<noteq> None)"
| "sql_truth h opeq rv pv _ = None"

text \<open>The character types compare as text.\<close>

definition type_family :: "oid \<Rightarrow> oid" where
  "type_family t = (if t = VARCHAROID \<or> t = BPCHAROID then oid Ty_Text else t)"

fun node_type :: "'d node \<Rightarrow> oid" where
  "node_type (T_Const t _ _) = t"
| "node_type (T_Param _ _ t) = t"
| "node_type _ = 0"

text \<open>
  What PostgreSQL's analyser guarantees of a clause: an operator's operands have its operand type
  (\<open>opty\<close>), and what stands where a truth value is expected is boolean. The array operators are
  outside this reading.
\<close>

definition operands_typed :: "foreign_rel \<Rightarrow> (oid \<Rightarrow> oid) \<Rightarrow> oid \<Rightarrow> 'd node list \<Rightarrow> bool" where
  "operands_typed rel opty opno args =
     (case args of
        [a, b] \<Rightarrow>
          (case orient (strip_coercion a) (strip_coercion b) of
             Some (T_Var _ k _, n) \<Rightarrow> type_family (get_atttype rel k) = opty opno \<and> type_family (node_type n) = opty opno
           | _ \<Rightarrow> True)
      | _ \<Rightarrow> True)"

fun bool_var :: "foreign_rel \<Rightarrow> 'd node \<Rightarrow> bool" where
  "bool_var rel (T_Var _ k _) \<longleftrightarrow> get_atttype rel k = oid Ty_Boolean"
| "bool_var rel _ \<longleftrightarrow> True"

fun clause_typed :: "foreign_rel \<Rightarrow> (oid \<Rightarrow> oid) \<Rightarrow> 'd node \<Rightarrow> bool" where
  "clause_typed rel opty (T_Var _ k _) = (get_atttype rel k = oid Ty_Boolean)"
| "clause_typed rel opty (T_BooleanTest _ a) = bool_var rel (strip_coercion a)"
| "clause_typed rel opty (T_OpExpr opno args) = operands_typed rel opty opno args"
| "clause_typed rel opty (T_BoolExpr boolop args) =
     ((boolop = NOT_EXPR \<longrightarrow> list_all (\<lambda>a. bool_var rel (strip_coercion a)) args)
      \<and> list_all (\<lambda>a. case strip_coercion a of T_OpExpr opno ops \<Rightarrow> operands_typed rel opty opno ops | _ \<Rightarrow> True) args)"
| "clause_typed rel opty (T_ScalarArrayOpExpr _ _ _) = False"
| "clause_typed rel opty _ = True"

text \<open>
  \<open>cols\<close> is the row as the handlers see it, JSON by column name. It agrees with the row of datums
  when a NULL is a null, a boolean is the same truth value, and the SQL equality of an attribute
  with a value coincides with the handlers' JSON comparison.
\<close>

definition row_agrees ::
  "('d, 'z) fdw_host_scheme \<Rightarrow> foreign_rel \<Rightarrow> (oid \<Rightarrow> oid) \<Rightarrow> (oid \<Rightarrow> 'd \<Rightarrow> 'd \<Rightarrow> bool) \<Rightarrow> (int \<Rightarrow> 'd option) \<Rightarrow> (string \<Rightarrow> json) \<Rightarrow> bool"
where
  "row_agrees h rel opty opeq rv cols \<longleftrightarrow>
     (\<forall>k c. get_attname rel k = Inr c \<longrightarrow>
        (case rv k of
           None \<Rightarrow> cols c = JNull
         | Some d \<Rightarrow>
             (get_atttype rel k = oid Ty_Boolean \<longrightarrow> cols c = JBool (bool_from_datum h d))
             \<and> (\<forall>opno t x j. is_equality_opcode (get_opcode h opno) \<longrightarrow> type_family (get_atttype rel k) = opty opno
                    \<longrightarrow> type_family t = opty opno \<longrightarrow> datum_to_json h t x = Inr (Some j)
                    \<longrightarrow> opeq opno d x = json_equal j (cols c) \<and> opeq opno x d = json_equal j (cols c))))"

section \<open>A pushed clause and its qual\<close>

lemma sql_value_strip [simp]: "sql_value rv pv (strip_coercion n) = sql_value rv pv n"
  by (induction n rule: strip_coercion.induct) simp_all

lemma sql_truth_strip [simp]: "sql_truth h opeq rv pv (strip_coercion n) = sql_truth h opeq rv pv n"
  by (induction n rule: strip_coercion.induct) simp_all

lemma matches_qual_equal [simp]: "matches_json (qual_equal c j) c v = json_equal j v"
  by (simp add: matches_json_def qual_equal_def)

lemma qual_equal_field [simp]: "field (qual_equal c j) = c"
  by (simp add: qual_equal_def)

lemma pg_result_Inr [simp]: "pg_result r = Inr v \<longleftrightarrow> r = Inr v"
  by (auto simp: pg_result_def split: sum.splits)

lemma raise_mcp_Inr [simp]: "raise_mcp e \<noteq> Inr v"
  by (simp add: raise_mcp_def)

lemma var_column_Some:
  "var_column rel target rt n = Inr (Some c) \<longleftrightarrow>
     (\<exists>k. n = T_Var rt k 0 \<and> 0 < k \<and> get_attname rel k = Inr c \<and> eligible_column target c)"
  by (cases n) (auto simp: rmap_eq_Inr_iff split: if_splits)

lemma orient_sides:
  "orient a b = Some (v, n) \<Longrightarrow>
     (a = v \<and> b = n \<or> a = n \<and> b = v) \<and> (\<exists>x k l. v = T_Var x k l)
     \<and> ((\<exists>t i d. n = T_Const t i d) \<or> (\<exists>k i t. n = T_Param k i t))"
  by (induction a b rule: orient.induct) auto

lemma qual_from_var_Some:
  "qual_from_var rel target rt v j = Inr (Some p) \<longleftrightarrow>
     (\<exists>c. p = Value (qual_equal c j) \<and> var_column rel target rt v = Inr (Some c))"
  by (auto simp: qual_from_var_def rmap_eq_Inr_iff eq_commute [of "Some p"])

lemma is_var_iff: "is_var n \<longleftrightarrow> (\<exists>a k l. n = T_Var a k l)"
  by (cases n) simp_all

text \<open>A boolean column holding \<open>b\<close>.\<close>

lemma row_agrees_bool:
  assumes "row_agrees h rel opty opeq rv cols" "get_attname rel k = Inr c" "get_atttype rel k = oid Ty_Boolean"
  shows "json_equal (JBool b) (cols c) \<longleftrightarrow> map_option (bool_from_datum h) (rv k) = Some b"
  using assms unfolding row_agrees_def by (cases "rv k") fastforce+

lemma row_agrees_eq:
  assumes "row_agrees h rel opty opeq rv cols" "get_attname rel k = Inr c"
    "is_equality_opcode (get_opcode h opno)" "type_family (get_atttype rel k) = opty opno" "type_family t = opty opno"
    "datum_to_json h t x = Inr (Some j)"
  shows "(\<exists>d. rv k = Some d \<and> opeq opno d x) \<longleftrightarrow> json_equal j (cols c)"
    and "(\<exists>d. rv k = Some d \<and> opeq opno x d) \<longleftrightarrow> json_equal j (cols c)"
  using assms unfolding row_agrees_def by (cases "rv k"; fastforce)+

text \<open>The equality of a column with a value that reads as \<open>j\<close>, in either orientation.\<close>

lemma equality_truth:
  assumes agr: "row_agrees h rel opty opeq rv cols" and ty: "operands_typed rel opty opno [a, b]"
    and opq: "is_equality_opcode (get_opcode h opno)"
    and ori: "orient (strip_coercion a) (strip_coercion b) = Some (T_Var x k l, n)"
    and nm: "get_attname rel k = Inr c"
    and v: "sql_value rv pv n = Some d" and j: "datum_to_json h (node_type n) d = Inr (Some j)"
  shows "sql_truth h opeq rv pv (T_OpExpr opno [a, b]) = Some True \<longleftrightarrow> json_equal j (cols c)"
proof -
  have t: "type_family (get_atttype rel k) = opty opno" "type_family (node_type n) = opty opno"
    using ty ori by (simp_all add: operands_typed_def)
  note e = row_agrees_eq [OF agr nm opq t j]
  have s: "sql_value rv pv a = sql_value rv pv (strip_coercion a)" "sql_value rv pv b = sql_value rv pv (strip_coercion b)"
    by simp_all
  from orient_sides [OF ori] consider
      "strip_coercion a = T_Var x k l" "strip_coercion b = n" | "strip_coercion a = n" "strip_coercion b = T_Var x k l" by auto
  then show ?thesis
  proof cases
    case 1
    then show ?thesis using e(1) s v by (cases "rv k") (auto split: option.splits)
  next
    case 2
    then show ?thesis using e(2) s v by (cases "rv k") (auto split: option.splits)
  qed
qed

text \<open>A parameter qual is decided once its parameter has a value the JSON comparison can use; a NULL
  decides it only in the optional shape, where the clause is then true.\<close>

definition param_bound :: "('d, 'z) fdw_host_scheme \<Rightarrow> param_qual \<Rightarrow> 'd option \<Rightarrow> bool" where
  "param_bound h pq v \<longleftrightarrow>
     (case v of None \<Rightarrow> omit_null pq | Some d \<Rightarrow> \<exists>j. datum_to_json h (param_type pq) d = Inr (Some j))"

definition accepts :: "(string \<Rightarrow> json) \<Rightarrow> qual \<Rightarrow> bool" where
  "accepts cols q \<longleftrightarrow> matches_json q (field q) (cols (field q))"

definition accepts_param :: "('d, 'z) fdw_host_scheme \<Rightarrow> (string \<Rightarrow> json) \<Rightarrow> param_qual \<Rightarrow> 'd option \<Rightarrow> bool" where
  "accepts_param h cols pq v \<longleftrightarrow> (\<forall>q. bind_param h pq v = Inr (Some q) \<longrightarrow> accepts cols q)"

lemma accepts_equal [simp]: "accepts cols (qual_equal c j) \<longleftrightarrow> json_equal j (cols c)"
  by (simp add: accepts_def)

lemma accepts_param_bound:
  "datum_to_json h (param_type pq) d = Inr (Some j) \<Longrightarrow> accepts_param h cols pq (Some d) \<longleftrightarrow> json_equal j (cols (pq_field pq))"
  by (simp add: accepts_param_def bind_param_def rmap_def)

lemma equality_qual_cases:
  assumes "equality_qual h rel target rt opno args u = Inr (Some p)"
  obtains a b x k l n c where "args = [a, b]" "is_equality_opcode (get_opcode h opno)"
    "orient (strip_coercion a) (strip_coercion b) = Some (T_Var x k l, n)" "get_attname rel k = Inr c"
    "eligible_column target c" "0 < k" "pushed_value h c u n = Inr (Some p)"
proof -
  from assms have opq: "is_equality_opcode (get_opcode h opno)"
    by (simp add: equality_qual_def split: if_splits)
  with assms obtain a b where ab: "args = [a, b]"
    by (auto simp: equality_qual_def split: list.splits)
  with assms opq obtain v n where o: "orient (strip_coercion a) (strip_coercion b) = Some (v, n)"
    by (auto simp: equality_qual_def split: option.splits)
  with assms opq ab obtain c where c: "var_column rel target rt v = Inr (Some c)" "pushed_value h c u n = Inr (Some p)"
    by (auto simp: equality_qual_def rbind_eq_Inr_iff split: option.splits)
  from that [OF ab opq, of rt] o c show thesis
    using orient_sides [OF o] by (auto simp: var_column_Some intro: that [OF ab opq])
qed

lemma pushed_value_cases:
  assumes "pushed_value h c False n = Inr (Some p)"
  obtains (Const) t d j where "n = T_Const t False d" "datum_to_json h t d = Inr (Some j)" "p = Value (qual_equal c j)"
  | (Param) i t where "n = T_Param PARAM_EXTERN i t"
      "p = Param \<lparr>pq_field = c, pq_index = 0, omit_null = False, param_type = t\<rparr> n"
  using assms
  by (cases n) (auto simp: pushed_value_def param_pushed_def rmap_eq_Inr_iff eq_commute [of "Some p"] bind_eq_Some_conv
    split: if_splits param_kind.splits)

text \<open>The three boolean shapes.\<close>

lemma qual_from_var_truth:
  assumes q: "qual_from_var rel target rt v (JBool b) = Inr (Some p)"
    and agr: "row_agrees h rel opty opeq rv cols" and ty: "bool_var rel v"
  shows "\<exists>q. p = Value q \<and> (accepts cols q \<longleftrightarrow> sql_truth h opeq rv pv v = Some b)"
proof -
  from q obtain c k where c: "p = Value (qual_equal c (JBool b))" "v = T_Var rt k 0" "get_attname rel k = Inr c"
    by (auto simp: qual_from_var_Some var_column_Some)
  with ty row_agrees_bool [OF agr c(3), of b] show ?thesis by simp
qed

lemma equality_qual_truth:
  assumes ex: "equality_qual h rel target rt opno args False = Inr (Some p)"
    and agr: "row_agrees h rel opty opeq rv cols" and ty: "operands_typed rel opty opno args"
  shows "case p of
           Value q \<Rightarrow> accepts cols q \<longleftrightarrow> sql_truth h opeq rv pv (T_OpExpr opno args) = Some True
         | Param pq n \<Rightarrow> param_bound h pq (sql_value rv pv n) \<longrightarrow>
             (accepts_param h cols pq (sql_value rv pv n) \<longleftrightarrow> sql_truth h opeq rv pv (T_OpExpr opno args) = Some True)"
proof -
  from ex obtain a b x k l n c where ab: "args = [a, b]" and opq: "is_equality_opcode (get_opcode h opno)"
    and ori: "orient (strip_coercion a) (strip_coercion b) = Some (T_Var x k l, n)" and nm: "get_attname rel k = Inr c"
    and pv': "pushed_value h c False n = Inr (Some p)"
    by (rule equality_qual_cases)
  note et = equality_truth [OF agr ty [unfolded ab] opq ori nm]
  from pv' show ?thesis
  proof (cases rule: pushed_value_cases)
    case (Const t d j)
    with et [of pv d j] ab show ?thesis by simp
  next
    case (Param i t)
    show ?thesis
    proof (cases "pv i")
      case None
      with Param show ?thesis by (simp add: param_bound_def)
    next
      case (Some d)
      with Param et [of pv d] ab show ?thesis by (auto simp: param_bound_def accepts_param_bound)
    qed
  qed
qed

lemma optional_qual_cases:
  assumes "extract_optional_param_qual h rel target rt boolop args = Inr (Some p)"
  obtains a0 a1 arg opno a b x k l c i t where "boolop = OR_EXPR" "args = [a0, a1]"
    "(strip_coercion a0, strip_coercion a1) = (T_NullTest IS_NULL arg, T_OpExpr opno [a, b])
     \<or> (strip_coercion a1, strip_coercion a0) = (T_NullTest IS_NULL arg, T_OpExpr opno [a, b])"
    "is_equality_opcode (get_opcode h opno)"
    "orient (strip_coercion a) (strip_coercion b) = Some (T_Var x k l, T_Param PARAM_EXTERN i t)"
    "\<exists>kd t'. strip_coercion arg = T_Param kd i t'" "get_attname rel k = Inr c" "eligible_column target c" "0 < k"
    "p = Param \<lparr>pq_field = c, pq_index = 0, omit_null = True, param_type = t\<rparr> (T_Param PARAM_EXTERN i t)"
proof -
  from assms have bo: "boolop = OR_EXPR" by (simp add: extract_optional_param_qual_def split: if_splits)
  with assms obtain a0 a1 where as: "args = [a0, a1]"
    by (auto simp: extract_optional_param_qual_def split: list.splits)
  with assms bo obtain arg opno ops where arms: "optional_arms (strip_coercion a0) (strip_coercion a1) = Some (IS_NULL, arg, opno, ops)"
    by (auto simp: extract_optional_param_qual_def split: option.splits null_test_type.splits)
  with assms bo as obtain kd i t' where sa: "strip_coercion arg = T_Param kd i t'"
    and oe: "optional_equality h rel target rt i opno ops = Inr (Some p)"
    by (auto simp: extract_optional_param_qual_def split: node.splits)
  from oe have opq: "is_equality_opcode (get_opcode h opno)" by (simp add: optional_equality_def split: if_splits)
  with oe obtain a b where ab: "ops = [a, b]" by (auto simp: optional_equality_def split: list.splits)
  with oe opq obtain v kp t where ori: "orient (strip_coercion a) (strip_coercion b) = Some (v, T_Param kp i t)"
    and c': "rmap (\<lambda>c. Option.bind c (\<lambda>column. param_pushed column True (T_Param kp i t))) (var_column rel target rt v) = Inr (Some p)"
    by (auto simp: optional_equality_def split: option.splits node.splits if_splits)
  from c' obtain c where c: "var_column rel target rt v = Inr (Some c)" "param_pushed c True (T_Param kp i t) = Some p"
    by (auto simp: rmap_eq_Inr_iff bind_eq_Some_conv eq_commute [of "Some p"])
  from arms have sides: "(strip_coercion a0, strip_coercion a1) = (T_NullTest IS_NULL arg, T_OpExpr opno ops)
     \<or> (strip_coercion a1, strip_coercion a0) = (T_NullTest IS_NULL arg, T_OpExpr opno ops)"
    by (cases "(strip_coercion a0, strip_coercion a1)" rule: optional_arms.cases) auto
  from c(1) obtain k where k: "v = T_Var rt k 0" "get_attname rel k = Inr c" "eligible_column target c" "0 < k"
    by (auto simp: var_column_Some)
  from c(2) k sa ori ab sides opq bo as show thesis
    by (intro that [of a0 a1 arg opno a b rt k 0 i t c]) (auto simp: param_pushed_def split: param_kind.splits)
qed

lemma sql_or_True [simp]: "sql_or a b = Some True \<longleftrightarrow> a = Some True \<or> b = Some True"
  by (cases "(a, b)" rule: sql_or.cases) auto

lemma optional_qual_truth:
  assumes ex: "extract_optional_param_qual h rel target rt boolop args = Inr (Some p)"
    and agr: "row_agrees h rel opty opeq rv cols" and ty: "clause_typed rel opty (T_BoolExpr boolop args)"
  shows "\<exists>pq n. p = Param pq n \<and> (param_bound h pq (sql_value rv pv n) \<longrightarrow>
           (accepts_param h cols pq (sql_value rv pv n) \<longleftrightarrow> sql_truth h opeq rv pv (T_BoolExpr boolop args) = Some True))"
  using ex
proof (cases rule: optional_qual_cases)
  case (1 a0 a1 arg opno a b x k l c i t)
  then obtain kd t' where sa: "strip_coercion arg = T_Param kd i t'" by blast
  have nl: "sql_truth h opeq rv pv (T_NullTest IS_NULL arg) = Some (pv i = None)"
    using sa by (simp flip: sql_value_strip [of rv pv arg])
  have tr: "sql_truth h opeq rv pv (T_BoolExpr boolop args) = Some True
      \<longleftrightarrow> pv i = None \<or> sql_truth h opeq rv pv (T_OpExpr opno [a, b]) = Some True"
  proof -
    have "sql_truth h opeq rv pv a0 = Some (pv i = None) \<and> sql_truth h opeq rv pv a1 = sql_truth h opeq rv pv (T_OpExpr opno [a, b])
        \<or> sql_truth h opeq rv pv a1 = Some (pv i = None) \<and> sql_truth h opeq rv pv a0 = sql_truth h opeq rv pv (T_OpExpr opno [a, b])"
      using 1(3) nl sql_truth_strip by (metis prod.inject)
    then show ?thesis unfolding 1(1,2) by (auto simp del: sql_truth.simps(3))
  qed
  have oty: "operands_typed rel opty opno [a, b]" using ty 1(2,3) by auto
  show ?thesis
  proof (cases "pv i")
    case None
    with tr 1(10) show ?thesis by (simp add: accepts_param_def bind_param_def)
  next
    case (Some d)
    with equality_truth [OF agr oty 1(4) 1(5) 1(7), of pv d] tr 1(10)
    show ?thesis by (auto simp: param_bound_def accepts_param_bound)
  qed
qed

lemma extract_qual_truth:
  assumes ex: "extract_qual h rel target rt clause = Inr (Some p)"
    and agr: "row_agrees h rel opty opeq rv cols" and ty: "clause_typed rel opty clause"
  shows "case p of
           Value q \<Rightarrow> accepts cols q \<longleftrightarrow> sql_truth h opeq rv pv clause = Some True
         | Param pq n \<Rightarrow> param_bound h pq (sql_value rv pv n) \<longrightarrow>
             (accepts_param h cols pq (sql_value rv pv n) \<longleftrightarrow> sql_truth h opeq rv pv clause = Some True)"
proof (cases clause)
  case (T_Var a k l)
  with ex ty qual_from_var_truth [OF _ agr, of target rt clause True p pv] show ?thesis by auto
next
  case (T_OpExpr opno args)
  show ?thesis unfolding T_OpExpr by (rule equality_qual_truth [OF _ agr]) (use ex ty T_OpExpr in simp_all)
next
  case (T_BoolExpr boolop args)
  show ?thesis
  proof (cases "negated_var boolop args")
    case None
    with T_BoolExpr ex ty optional_qual_truth [OF _ agr, of target rt boolop args p pv] show ?thesis by auto
  next
    case (Some v)
    then obtain a where a: "boolop = NOT_EXPR" "args = [a]" "v = strip_coercion a"
      by (auto simp: negated_var_def split: list.splits if_splits)
    with T_BoolExpr Some ex ty qual_from_var_truth [OF _ agr, of target rt v False p pv] show ?thesis by auto
  qed
next
  case (T_BooleanTest test arg)
  with ex obtain b where b: "truth_of_test test = Some (JBool b)" "test = (if b then IS_TRUE else IS_FALSE)"
      "qual_from_var rel target rt (strip_coercion arg) (JBool b) = Inr (Some p)"
    by (cases test) (auto split: if_splits)
  with T_BooleanTest ty qual_from_var_truth [OF b(3) agr, of pv] show ?thesis by (cases b) auto
qed (use ex ty in simp_all)

section \<open>The split as a whole\<close>

definition clauses_of :: "'d scan_clause list \<Rightarrow> 'd node list" where
  "clauses_of cs = map fst (List.map_filter clause_of cs)"

lemma clauses_of_simps [simp]:
  "clauses_of [] = []"
  "clauses_of (c # cs) = (case clause_of c of None \<Rightarrow> clauses_of cs | Some (n, _) \<Rightarrow> n # clauses_of cs)"
  by (simp_all add: clauses_of_def map_filter_simps split: option.splits)

text \<open>Parameter quals are numbered by the position of their node.\<close>

definition split_wf :: "'d clause_split \<Rightarrow> bool" where
  "split_wf s \<longleftrightarrow> map pq_index (cs_params s) = [0..<length (cs_param_nodes s)]"

definition split_params :: "(param_qual \<Rightarrow> 'd node \<Rightarrow> bool) \<Rightarrow> 'd clause_split \<Rightarrow> bool" where
  "split_params P s \<longleftrightarrow> list_all2 P (cs_params s) (cs_param_nodes s)"

lemma split_wf_empty [simp]: "split_wf empty_split"
  by (simp add: split_wf_def empty_split_def)

lemma split_wf_keep [simp]: "split_wf (keep_local n s) \<longleftrightarrow> split_wf s"
  by (simp add: split_wf_def keep_local_def)

lemma split_wf_file [simp]: "split_wf s \<Longrightarrow> split_wf (file_clause n v s)"
  by (auto simp: file_clause_def split_wf_def keep_local_def split: option.splits pushed.splits)

lemma split_clauses_ConsE:
  assumes "split_clauses h rel target rt (c # cs) s = Inr s'"
  obtains (Null) "clause_of c = None" "split_clauses h rel target rt cs s = Inr s'"
  | (Pseudo) n where "clause_of c = Some (n, True)" "split_clauses h rel target rt cs (keep_local n s) = Inr s'"
  | (Read) n v where "clause_of c = Some (n, False)" "extract_qual h rel target rt n = Inr v"
      "split_clauses h rel target rt cs (file_clause n v s) = Inr s'"
  using assms by (auto simp: rbind_eq_Inr_iff split: option.splits if_splits)

lemma split_wf_length: "split_wf s \<Longrightarrow> length (cs_params s) = length (cs_param_nodes s)"
  unfolding split_wf_def by (metis length_map length_upt diff_zero)

lemma split_params_keep [simp]: "split_params P (keep_local n s) = split_params P s"
  by (simp add: split_params_def keep_local_def)

lemma split_params_file:
  "split_wf s \<Longrightarrow> split_params P (file_clause n v s) \<longleftrightarrow>
     split_params P s \<and> (case v of Some (Param pq m) \<Rightarrow> P (pq\<lparr>pq_index := length (cs_param_nodes s)\<rparr>) m | _ \<Rightarrow> True)"
  by (auto simp: split_params_def file_clause_def keep_local_def list_all2_append split_wf_length
      split: option.splits pushed.splits)

lemma split_params_mono:
  "split_clauses h rel target rt cs s = Inr s' \<Longrightarrow> split_wf s \<Longrightarrow> split_params P s' \<Longrightarrow> split_params P s"
  by (induction cs arbitrary: s) (simp, erule split_clauses_ConsE, (force simp: split_params_file)+)

lemma split_clauses_wf: "split_clauses h rel target rt cs s = Inr s' \<Longrightarrow> split_wf s \<Longrightarrow> split_wf s'"
  by (induction cs arbitrary: s) (simp, erule split_clauses_ConsE, fastforce+)

lemma param_index_irrelevant [simp]:
  "param_bound h (pq\<lparr>pq_index := i\<rparr>) v = param_bound h pq v"
  "accepts_param h cols (pq\<lparr>pq_index := i\<rparr>) v = accepts_param h cols pq v"
  by (cases v; simp add: param_bound_def accepts_param_def bind_param_def)+

text \<open>What a split promises of a row: PostgreSQL's own check, the quals and the bound parameter quals.\<close>

definition split_accepts ::
  "('d, 'z) fdw_host_scheme \<Rightarrow> (oid \<Rightarrow> 'd \<Rightarrow> 'd \<Rightarrow> bool) \<Rightarrow> (int \<Rightarrow> 'd option) \<Rightarrow> (int \<Rightarrow> 'd option) \<Rightarrow> (string \<Rightarrow> json) \<Rightarrow> 'd clause_split \<Rightarrow> bool"
where
  "split_accepts h opeq rv pv cols s \<longleftrightarrow>
     (\<forall>c\<in>set (cs_local s). sql_truth h opeq rv pv c = Some True)
     \<and> (\<forall>q\<in>set (cs_pushed s). accepts cols q)
     \<and> split_params (\<lambda>pq n. accepts_param h cols pq (sql_value rv pv n)) s"

lemma split_accepts_keep:
  "split_accepts h opeq rv pv cols (keep_local n s) \<longleftrightarrow>
     split_accepts h opeq rv pv cols s \<and> sql_truth h opeq rv pv n = Some True"
  by (auto simp: split_accepts_def) (auto simp: keep_local_def)

lemma split_accepts_file:
  assumes ex: "extract_qual h rel target rt clause = Inr v" and wf: "split_wf s"
    and agr: "row_agrees h rel opty opeq rv cols" and ty: "clause_typed rel opty clause"
    and bd: "split_params (\<lambda>pq n. param_bound h pq (sql_value rv pv n)) (file_clause clause v s)"
  shows "split_accepts h opeq rv pv cols (file_clause clause v s) \<longleftrightarrow>
     split_accepts h opeq rv pv cols s \<and> sql_truth h opeq rv pv clause = Some True"
proof (cases v)
  case None
  then show ?thesis by (simp add: file_clause_def split_accepts_keep)
next
  case (Some p)
  note t = extract_qual_truth [OF ex [unfolded Some] agr ty, of pv]
  show ?thesis
  proof (cases p)
    case (Value q)
    with Some t show ?thesis by (auto simp: split_accepts_def split_params_def file_clause_def)
  next
    case (Param pq n)
    with Some bd wf have "param_bound h pq (sql_value rv pv n)" by (simp add: split_params_file)
    with t Param have "accepts_param h cols pq (sql_value rv pv n) \<longleftrightarrow> sql_truth h opeq rv pv clause = Some True" by simp
    moreover have "cs_local (file_clause clause v s) = cs_local s" "cs_pushed (file_clause clause v s) = cs_pushed s"
      using Some Param by (simp_all add: file_clause_def)
    ultimately show ?thesis using Some Param wf by (auto simp: split_accepts_def split_params_file)
  qed
qed

lemma split_clauses_accepts:
  assumes "split_clauses h rel target rt cs s = Inr s'" "split_wf s"
    and agr: "row_agrees h rel opty opeq rv cols" and "\<forall>c\<in>set (clauses_of cs). clause_typed rel opty c"
    and bd: "split_params (\<lambda>pq n. param_bound h pq (sql_value rv pv n)) s'"
  shows "split_accepts h opeq rv pv cols s' \<longleftrightarrow>
     split_accepts h opeq rv pv cols s \<and> (\<forall>c\<in>set (clauses_of cs). sql_truth h opeq rv pv c = Some True)"
  using assms(1,2,4)
proof (induction cs arbitrary: s)
  case (Cons c cs)
  from Cons.prems(1) show ?case
  proof (cases rule: split_clauses_ConsE)
    case Null
    with Cons show ?thesis by simp
  next
    case (Pseudo n)
    with Cons.prems Cons.IH [OF Pseudo(2)] show ?thesis by (auto simp: split_accepts_keep)
  next
    case (Read n v)
    have b: "split_params (\<lambda>pq n. param_bound h pq (sql_value rv pv n)) (file_clause n v s)"
      using split_params_mono [OF Read(3) _ bd] Cons.prems(2) by simp
    have "split_accepts h opeq rv pv cols (file_clause n v s) \<longleftrightarrow>
        split_accepts h opeq rv pv cols s \<and> sql_truth h opeq rv pv n = Some True"
      using Cons.prems(2,3) Read(1) by (intro split_accepts_file [OF Read(2) _ agr _ b]) auto
    with Cons.IH [OF Read(3)] Cons.prems(2,3) Read(1) show ?thesis by auto
  qed
qed simp

lemma split_params_by_index:
  assumes "split_wf s"
  shows "split_params P s \<longleftrightarrow> (\<forall>pq\<in>set (cs_params s). P pq (cs_param_nodes s ! pq_index pq))"
proof -
  have "pq_index (cs_params s ! i) = i" if "i < length (cs_params s)" for i
    using that assms split_wf_length [OF assms] nth_map [OF that, of pq_index] by (simp add: split_wf_def)
  then show ?thesis
    using split_wf_length [OF assms]
    by (auto simp: split_params_def list_all2_conv_all_nth all_set_conv_all_nth)
qed

lemma resolve_param_quals_accepts:
  assumes "\<forall>pq\<in>set pqs. pq_index pq < length exprs \<and> param_bound h pq (val (exprs ! pq_index pq))"
  shows "\<exists>rs. resolve_param_quals h exprs (\<lambda>n. Inr (val n)) pqs = Inr rs
     \<and> ((\<forall>q\<in>set rs. accepts cols q) \<longleftrightarrow> (\<forall>pq\<in>set pqs. accepts_param h cols pq (val (exprs ! pq_index pq))))"
  using assms
proof (induction pqs)
  case (Cons pq pqs)
  then obtain rs where rs: "resolve_param_quals h exprs (\<lambda>n. Inr (val n)) pqs = Inr rs"
    "(\<forall>q\<in>set rs. accepts cols q) \<longleftrightarrow> (\<forall>pq\<in>set pqs. accepts_param h cols pq (val (exprs ! pq_index pq)))" by auto
  from Cons.prems obtain b where b: "bind_param h pq (val (exprs ! pq_index pq)) = Inr b"
    by (auto simp: param_bound_def bind_param_def rmap_def split: option.splits)
  with rs Cons.prems show ?case
    by (auto simp: list_node_at_def pg_result_def accepts_param_def rbind_def rmap_def split: option.splits)
qed simp

lemma get_foreign_plan_cases:
  assumes "get_foreign_plan h rel rt cs = Inr p"
  obtains target relname s txt0 where "target_for_relid rel = Inr target" "get_rel_name rel = Some relname"
    "split_clauses h rel target rt cs empty_split = Inr s"
    "private_to_string h \<lparr>fp_table = relname, fp_quals = cs_pushed s, fp_params = cs_params s\<rparr> = Some txt0"
    "p = \<lparr>fs_local = cs_local s, fdw_exprs = cs_param_nodes s, fdw_private_list = [Some txt0]\<rparr>"
  using assms
  by (auto simp: get_foreign_plan_def rbind_eq_Inr_iff relname_for_relid_def cstr_to_string_def
      split: option.splits if_splits)


text \<open>A scan of \<^verbatim>\<open>tools\<close> for one name, on a host whose datums are texts.\<close>

definition text_host :: "fdw_private \<Rightarrow> string fdw_host" where
  "text_host x = \<lparr>get_opcode = (\<lambda>_. 67), text_to_cstring = (\<lambda>d. d), jsonb_out = (\<lambda>d. d), uuid_out = (\<lambda>d. d), date_out = (\<lambda>d. d),
     timestamptz_out = (\<lambda>d. d), byteaout = (\<lambda>d. d), bool_from_datum = (\<lambda>_. False), i32_from_datum = (\<lambda>_. 0), i64_from_datum = (\<lambda>_. 0),
     f64_from_datum = (\<lambda>_. None), uuid_bytes = (\<lambda>_. []), cstring_to_text = (\<lambda>s. s), jsonb_in = Inr, byteain = Inr, date_in_func = Inr,
     bool_datum = (\<lambda>_. []), i32_datum = (\<lambda>_. []), i64_datum = (\<lambda>_. []), f64_datum = (\<lambda>_. []), uuid_datum = (\<lambda>_. []),
     json_from_str = (\<lambda>_. None), private_to_string = (\<lambda>y. if y = x then Some ''p'' else None),
     private_from_str = (\<lambda>s. if s = ''p'' then Some x else None)\<rparr>"

definition tools_rel :: foreign_rel where
  "tools_rel = \<lparr>get_rel_name = Some ''tools'', get_namespace_name = Some ''mcp'', rel_options = [], rel_servername = Some ''srv'',
     get_attname = (\<lambda>k. if k = 1 then Inr ''name'' else if k = 2 then Inr ''title'' else Inl ''cache lookup failed''),
     get_atttype = (\<lambda>_. 25)\<rparr>"

definition name_is :: "string node \<Rightarrow> string node" where
  "name_is n = T_OpExpr 98 [T_Var 1 1 0, T_RelabelType n]"

definition title_is :: "string \<Rightarrow> string node" where
  "title_is s = T_OpExpr 98 [T_Const 25 False s, T_Var 1 2 0]"

definition echo_private :: fdw_private where
  "echo_private = \<lparr>fp_table = ''tools'', fp_quals = [qual_equal ''name'' (JStr ''echo'')],
     fp_params = [\<lparr>pq_field = ''name'', pq_index = 0, omit_null = False, param_type = 25\<rparr>]\<rparr>"

definition echo_clauses :: "string scan_clause list" where
  "echo_clauses = [RestrictInfo (name_is (T_Const 25 False ''echo'')) False, RestrictInfo (title_is ''Echo'') False,
     BareClause (name_is (T_Param PARAM_EXTERN 1 25))]"

definition echo_row :: "int \<Rightarrow> string option" where
  "echo_row k = (if k = 1 then Some ''echo'' else if k = 2 then Some ''Echo'' else None)"

definition echo_cols :: "string \<Rightarrow> json" where
  "echo_cols c = (if c = ''name'' then JStr ''echo'' else if c = ''title'' then JStr ''Echo'' else JNull)"

definition tools_target :: target where
  "tools_target = Registry \<lparr>spec = TOOLS_SPEC, handler = TOOLS_TABLE\<rparr>"

lemma echo_split:
  "split_clauses (text_host echo_private) tools_rel tools_target 1 echo_clauses empty_split
     = Inr \<lparr>cs_pushed = fp_quals echo_private, cs_params = fp_params echo_private,
            cs_param_nodes = [T_Param PARAM_EXTERN 1 25], cs_local = [title_is ''Echo'']\<rparr>"
  by (simp add: tools_target_def tools_rel_def TOOLS_SPEC_def echo_clauses_def name_is_def title_is_def equality_qual_def text_host_def
      is_equality_opcode_def EQUALITY_OPCODES_def pg_result_def eligible_column_def attno_def rbind_def rmap_def
      pushed_value_def datum_to_json_def file_clause_def keep_local_def param_pushed_def empty_split_def echo_private_def)

lemma tools_rel_target: "target_for_relid tools_rel = Inr tools_target"
  by (simp add: target_for_relid_def relname_for_relid_def cstr_to_string_def tools_rel_def tools_target_def
      find_table_def REGISTRY_def spec_defs rbind_def)

lemma echo_plan:
  "get_foreign_plan (text_host echo_private) tools_rel 1 echo_clauses
     = Inr \<lparr>fs_local = [title_is ''Echo''], fdw_exprs = [T_Param PARAM_EXTERN 1 25], fdw_private_list = [Some ''p'']\<rparr>"
proof -
  have "relname_for_relid tools_rel = Inr ''tools''"
    by (simp add: relname_for_relid_def cstr_to_string_def tools_rel_def)
  moreover have "private_to_string (text_host echo_private)
      \<lparr>fp_table = ''tools'', fp_quals = fp_quals echo_private, fp_params = fp_params echo_private\<rparr> = Some ''p''"
    by (simp add: text_host_def echo_private_def)
  ultimately show ?thesis
    by (simp add: get_foreign_plan_def tools_rel_target rbind_def echo_split)
qed

lemma echo_agrees:
  "row_agrees (text_host echo_private) tools_rel (\<lambda>_. 25) (\<lambda>_. (=)) echo_row echo_cols"
  by (auto simp: row_agrees_def tools_rel_def echo_row_def echo_cols_def type_family_def VARCHAROID_def BPCHAROID_def
      datum_to_json_def text_host_def split: option.splits if_splits)


section \<open>Only what the handlers apply\<close>

definition handled :: "foreign_rel \<Rightarrow> target \<Rightarrow> string \<Rightarrow> bool" where
  "handled rel target column \<longleftrightarrow> (\<exists>k>0. get_attname rel k = Inr column) \<and> eligible_column target column"

definition handled_push :: "foreign_rel \<Rightarrow> target \<Rightarrow> 'd pushed \<Rightarrow> bool" where
  "handled_push rel target p =
     (case p of
        Value q \<Rightarrow> handled rel target (field q)
      | Param pq n \<Rightarrow> handled rel target (pq_field pq) \<and> (\<exists>i. n = T_Param PARAM_EXTERN i (param_type pq)))"

lemma pushed_value_handled:
  "pushed_value h c u n = Inr (Some p) \<Longrightarrow> handled rel target c \<Longrightarrow> handled_push rel target p"
  by (cases n) (auto simp: pushed_value_def param_pushed_def handled_push_def rmap_eq_Inr_iff eq_commute [of "Some p"]
    bind_eq_Some_conv any_equal_def split: if_splits param_kind.splits)

lemma qual_from_var_handled: "qual_from_var rel target rt v j = Inr (Some p) \<Longrightarrow> handled_push rel target p"
  by (auto simp: qual_from_var_Some var_column_Some handled_push_def handled_def)

lemma equality_qual_handled: "equality_qual h rel target rt opno args u = Inr (Some p) \<Longrightarrow> handled_push rel target p"
  by (erule equality_qual_cases, erule pushed_value_handled) (force simp: handled_def)

lemma optional_qual_handled:
  "extract_optional_param_qual h rel target rt boolop args = Inr (Some p) \<Longrightarrow> handled_push rel target p"
  by (erule optional_qual_cases) (force simp: handled_def handled_push_def)

lemma extract_qual_handled: "extract_qual h rel target rt clause = Inr (Some p) \<Longrightarrow> handled_push rel target p"
proof (cases clause)
  case (T_BoolExpr boolop args)
  assume "extract_qual h rel target rt clause = Inr (Some p)"
  with T_BoolExpr show ?thesis
    by (cases "negated_var boolop args")
      (simp_all add: qual_from_var_handled optional_qual_handled)
qed (auto simp: qual_from_var_handled equality_qual_handled split: if_splits option.splits)

text \<open>The clauses PostgreSQL keeps: pseudoconstants, and what \<open>extract_qual\<close> cannot read.\<close>

definition stays_local :: "('d, 'z) fdw_host_scheme \<Rightarrow> foreign_rel \<Rightarrow> target \<Rightarrow> int \<Rightarrow> 'd node \<times> bool \<Rightarrow> bool" where
  "stays_local h rel target rt c \<longleftrightarrow> snd c \<or> extract_qual h rel target rt (fst c) = Inr None"

definition split_handled :: "foreign_rel \<Rightarrow> target \<Rightarrow> 'd clause_split \<Rightarrow> bool" where
  "split_handled rel target s \<longleftrightarrow>
     list_all (\<lambda>q. handled rel target (field q)) (cs_pushed s)
     \<and> list_all2 (\<lambda>pq n. handled rel target (pq_field pq) \<and> (\<exists>i. n = T_Param PARAM_EXTERN i (param_type pq)))
         (cs_params s) (cs_param_nodes s)"

lemma split_handled_file:
  assumes "extract_qual h rel target rt n = Inr v" "split_handled rel target s"
  shows "split_handled rel target (file_clause n v s)"
proof (cases v)
  case (Some p)
  with assms(1) have "handled_push rel target p" by (simp add: extract_qual_handled)
  with Some assms(2) show ?thesis
    by (cases p) (auto simp: split_handled_def file_clause_def handled_push_def intro!: list_all2_appendI)
qed (use assms(2) in \<open>simp add: split_handled_def file_clause_def keep_local_def\<close>)

lemma split_clauses_handled:
  "split_clauses h rel target rt cs s = Inr s' \<Longrightarrow> split_handled rel target s \<Longrightarrow> split_handled rel target s'"
proof (induction cs arbitrary: s)
  case (Cons c cs)
  have k: "split_handled rel target (keep_local n s)" for n
    using Cons.prems(2) by (simp add: split_handled_def keep_local_def)
  from Cons.prems(1) show ?case
    by (cases rule: split_clauses_ConsE) (use Cons.IH Cons.prems(2) k split_handled_file in blast)+
qed simp

definition filed :: "'d clause_split \<Rightarrow> nat" where
  "filed s = length (cs_pushed s) + length (cs_params s) + length (cs_local s)"

lemma filed_simps [simp]:
  "filed (keep_local n s) = Suc (filed s)" "filed (file_clause n v s) = Suc (filed s)"
  by (auto simp: filed_def keep_local_def file_clause_def split: option.splits pushed.splits)

lemma split_clauses_filed:
  "split_clauses h rel target rt cs s = Inr s' \<Longrightarrow> filed s' = filed s + length (clauses_of cs)"
  by (induction cs arbitrary: s) (simp, erule split_clauses_ConsE, fastforce+)

lemma split_clauses_local:
  "split_clauses h rel target rt cs s = Inr s' \<Longrightarrow>
     cs_local s' = cs_local s @ map fst (filter (stays_local h rel target rt) (List.map_filter clause_of cs))"
proof (induction cs arbitrary: s)
  case (Cons c cs)
  have f: "cs_local (file_clause n v s) = cs_local s @ (if v = None then [n] else [])" for n v
    by (auto simp: file_clause_def keep_local_def split: option.splits pushed.splits)
  have k: "cs_local (keep_local n s) = cs_local s @ [n]" for n by (simp add: keep_local_def)
  from Cons.prems show ?case
  proof (cases rule: split_clauses_ConsE)
    case Null
    with Cons.IH show ?thesis by (simp add: map_filter_simps)
  next
    case (Pseudo n)
    with Cons.IH [OF Pseudo(2)] show ?thesis by (simp add: map_filter_simps stays_local_def k)
  next
    case (Read n v)
    with Cons.IH [OF Read(3)] show ?thesis by (auto simp: map_filter_simps stays_local_def f)
  qed
qed (simp add: map_filter_simps)



section \<open>Restrictions that are lost\<close>

text \<open>
  The hypothesis that parameters are bound cannot be dropped. An equality with a NULL parameter is
  true of no row, but it is taken over and then restricts nothing; the same happens to
  \<^verbatim>\<open>column = ALL ($n)\<close>, whose array has no JSON reading. A constant array, on the other hand, is never
  taken over, so \<^verbatim>\<open>IN\<close> lists are always checked by PostgreSQL.
\<close>

lemma null_param_restricts_nothing:
  assumes "is_equality_opcode (get_opcode h opno)" "var_column rel target rt (T_Var v k l) = Inr (Some c)" "pv i = None"
  shows "\<exists>pq. extract_qual h rel target rt (T_OpExpr opno [T_Var v k l, T_Param PARAM_EXTERN i t]) = Inr (Some (Param pq (T_Param PARAM_EXTERN i t)))
    \<and> sql_truth h opeq rv pv (T_OpExpr opno [T_Var v k l, T_Param PARAM_EXTERN i t]) = None
    \<and> resolve_param_quals h [T_Param PARAM_EXTERN i t] (\<lambda>n. Inr (sql_value rv pv n)) [pq] = Inr []"
  using assms
  by (simp add: equality_qual_def rbind_def pushed_value_def param_pushed_def list_node_at_def pg_result_def bind_param_def rmap_def
      split: option.splits)

text \<open>1009 is the OID of \<^verbatim>\<open>text[]\<close>.\<close>

lemma text_array_has_no_json: "datum_to_json h 1009 d = Inr None"
  by (simp add: datum_to_json_def VARCHAROID_def BPCHAROID_def)

lemma all_array_param_restricts_nothing:
  assumes "is_equality_opcode (get_opcode h opno)" "var_column rel target rt (T_Var v k l) = Inr (Some c)"
  shows "\<exists>pq. extract_qual h rel target rt (T_ScalarArrayOpExpr opno False [T_Var v k l, T_Param PARAM_EXTERN i 1009])
        = Inr (Some (Param pq (T_Param PARAM_EXTERN i 1009)))
    \<and> resolve_param_quals h [T_Param PARAM_EXTERN i 1009] (\<lambda>n. Inr (sql_value rv pv n)) [pq] = Inr []"
  using assms
  by (cases "pv i") (simp_all add: equality_qual_def rbind_def pushed_value_def param_pushed_def list_node_at_def pg_result_def
      bind_param_def rmap_def text_array_has_no_json)

lemma constant_array_stays_local:
  "extract_qual h rel target rt (T_ScalarArrayOpExpr opno any [a, T_Const 1009 isnull d]) = Inr r \<Longrightarrow> r = None"
  by (cases "strip_coercion a")
    (auto simp: equality_qual_def pushed_value_def rbind_eq_Inr_iff rmap_eq_Inr_iff text_array_has_no_json
      split: if_splits option.splits)

section \<open>Timestamps on the wire\<close>

lemma slice_from_ascii: "list_all is_ascii s \<Longrightarrow> n \<le> length s \<Longrightarrow> slice_from n s = Some (drop n s)"
  by (simp add: slice_from_def is_char_boundary_ascii)

lemma position_append_skip:
  "list_all (\<lambda>x. \<not> P x) xs \<Longrightarrow> position P (xs @ ys) = map_option (\<lambda>i. length xs + i) (position P ys)"
  by (induction xs; cases "position P ys") auto

definition is_sign :: "char \<Rightarrow> bool" where
  "is_sign c \<longleftrightarrow> c = CHR ''+'' \<or> c = CHR ''-''"

lemma timestamptz_ascii:
  assumes "list_all is_ascii raw"
  shows "\<exists>out. pg_timestamptz_to_json raw = Some out"
proof (cases "is_iso_timestamp raw")
  case True
  then have l: "19 \<le> length raw" by (simp add: is_iso_timestamp_def)
  have d: "list_all is_ascii (drop 11 raw)" using assms by (auto simp: list_all_iff dest: in_set_dropD)
  from l have "slice_from 11 raw = Some (drop 11 raw)" "slice_to 10 raw = Some (take 10 raw)"
    "slice_from 8 (drop 11 raw) = Some (drop 8 (drop 11 raw))"
    using assms d by (simp_all add: slice_from_ascii slice_to_ascii)
  then show ?thesis using True by (simp add: pg_timestamptz_to_json_def Let_def split: prod.splits)
qed (simp add: pg_timestamptz_to_json_def)

text \<open>Timestamps reach the server in RFC 3339 form. PostgreSQL's ISO output, a date, a blank, a time of day with an
  optional fraction and an optional zone offset, becomes the same date and time joined by T with
  the offset spelled out: Z for +00, minutes added to a bare hour, otherwise unchanged. A text
  that is not in that form passes through unchanged, and no ASCII text makes the conversion panic.\<close>

theorem timestamptz_wire_form:
  assumes "list_all is_ascii (date @ '' '' @ time @ fsec @ zone)"
    and "length date = 10" "date ! 4 = CHR ''-''" "date ! 7 = CHR ''-''"
    and "length time = 8" "time ! 2 = CHR '':''" "time ! 5 = CHR '':''"
    and "list_all (\<lambda>c. \<not> is_sign c) fsec" "zone = [] \<or> is_sign (hd zone)"
  shows "pg_timestamptz_to_json (date @ '' '' @ time @ fsec @ zone) = Some (date @ ''T'' @ time @ fsec @ normalized_offset zone)
    \<and> (\<not> is_iso_timestamp other \<longrightarrow> pg_timestamptz_to_json other = Some other)
    \<and> (list_all is_ascii other \<longrightarrow> (\<exists>out. pg_timestamptz_to_json other = Some out))"
proof -
  let ?r = "date @ '' '' @ time @ fsec @ zone"
  have iso: "is_iso_timestamp ?r"
    using assms(2-7) by (simp add: is_iso_timestamp_def nth_append)
  have "position (\<lambda>c. c = CHR ''+'' \<or> c = CHR ''-'') (fsec @ zone)
      = (if zone = [] then None else Some (length fsec))"
    using assms(8,9) position_append_skip [of "\<lambda>c. c = CHR ''+'' \<or> c = CHR ''-''" fsec zone]
    by (cases zone) (auto simp: is_sign_def)
  moreover have "slice_from 11 ?r = Some (time @ fsec @ zone)" "slice_to 10 ?r = Some date"
    using assms(1,2) slice_from_ascii [of ?r 11] slice_to_ascii [of ?r 10] by simp_all
  moreover have "slice_from 8 (time @ fsec @ zone) = Some (fsec @ zone)"
    using assms(1,5) slice_from_ascii [of "time @ fsec @ zone" 8] by simp
  ultimately have "pg_timestamptz_to_json ?r = Some (date @ ''T'' @ time @ fsec @ normalized_offset zone)"
    using iso assms(5) by (cases "zone = []") (simp_all add: pg_timestamptz_to_json_def normalized_offset_def)
  then show ?thesis using timestamptz_ascii [of other] by (auto simp: pg_timestamptz_to_json_def)
qed

theorem timestamptz_wire_form_witness:
  "pg_timestamptz_to_json ''2026-09-05 10:00:00.25+00'' = Some ''2026-09-05T10:00:00.25Z''
   \<and> pg_timestamptz_to_json ''infinity'' = Some ''infinity''"
  using timestamptz_wire_form [of "''2026-09-05''" "''10:00:00''" "''.25''" "''+00''" "''infinity''"]
  by (simp add: is_ascii_def byte_def is_sign_def is_iso_timestamp_def normalized_offset_def)

end
