(* ===== verification/Api.thy ===== *)
theory Api
  imports Per_Tool
begin

text \<open>
  \<^verbatim>\<open>api.rs\<close>: the \<^verbatim>\<open>mcp.*\<close> SQL functions and the option validator. \<^verbatim>\<open>McpError::raise\<close> ends the function, so
  a function that may raise is a computation whose error is the one raised; SQL NULL is \<open>None\<close>. The
  order in which a \<^verbatim>\<open>HashSet\<close> is walked is a parameter.
\<close>

section \<open>Calling\<close>

datatype on_error = Raise | Return

definition on_error_parse :: "string \<Rightarrow> on_error mcp_result" where
  "on_error_parse raw =
     (if raw = ''raise'' then Inr Raise
      else if raw = ''return'' then Inr Return
      else Inl (InvalidOption (''invalid value for on_error: \"'' @ raw @ ''\" (expected 'raise' or 'return')'')))"

definition request :: "env \<Rightarrow> pg_catalog \<Rightarrow> string \<Rightarrow> string \<Rightarrow> json \<Rightarrow> ('z backend_scheme, json) eff" where
  "request env cat server mthd p =
     ebind (elift (resolve cat server)) (\<lambda>res. with_session env res (\<lambda>tr. session_request env tr mthd p))"

definition tool_failure :: "string \<Rightarrow> json \<Rightarrow> mcp_error" where
  "tool_failure tool result =
     ToolError (unwrap_or (text_content result) (''tool \"'' @ tool @ ''\" returned an error result''))"

definition call_tool_inner ::
  "env \<Rightarrow> pg_catalog \<Rightarrow> string \<Rightarrow> string \<Rightarrow> json option \<Rightarrow> string \<Rightarrow> ('z backend_scheme, json) eff"
where
  "call_tool_inner env cat server tool args on_err =
     ebind (elift (on_error_parse on_err)) (\<lambda>mode.
     ebind (request env cat server ''tools/call'' (JObj [(''name'', JStr tool), (''arguments'', params_object args)])) (\<lambda>result.
     if is_error_result result \<and> mode = Raise then elift (Inl (tool_failure tool result)) else eret result))"

definition call_tool ::
  "env \<Rightarrow> pg_catalog \<Rightarrow> string \<Rightarrow> string \<Rightarrow> json option \<Rightarrow> string \<Rightarrow> ('z backend_scheme, json) eff"
where
  "call_tool env cat server tool args on_err = call_tool_inner env cat server tool args on_err"

definition call_tool_text ::
  "env \<Rightarrow> pg_catalog \<Rightarrow> string \<Rightarrow> string \<Rightarrow> json option \<Rightarrow> string \<Rightarrow> ('z backend_scheme, string option) eff"
where
  "call_tool_text env cat server tool args on_err =
     ebind (call_tool_inner env cat server tool args on_err) (\<lambda>result. eret (text_content result))"

definition get_prompt :: "env \<Rightarrow> pg_catalog \<Rightarrow> string \<Rightarrow> string \<Rightarrow> json option \<Rightarrow> ('z backend_scheme, json) eff" where
  "get_prompt env cat server prompt args =
     request env cat server ''prompts/get'' (JObj [(''name'', JStr prompt), (''arguments'', params_object args)])"

definition read_resource :: "env \<Rightarrow> pg_catalog \<Rightarrow> string \<Rightarrow> string \<Rightarrow> ('z backend_scheme, json) eff" where
  "read_resource env cat server uri = request env cat server ''resources/read'' (JObj [(''uri'', JStr uri)])"

definition complete :: "env \<Rightarrow> pg_catalog \<Rightarrow> string \<Rightarrow> json \<Rightarrow> string \<Rightarrow> string \<Rightarrow> ('z backend_scheme, json) eff" where
  "complete env cat server rf argument_name argument_value =
     request env cat server ''completion/complete''
       (JObj [(''ref'', rf), (''argument'', JObj [(''name'', JStr argument_name), (''value'', JStr argument_value)])])"

section \<open>Generation\<close>

definition fetch_tools_fresh :: "env \<Rightarrow> pg_catalog \<Rightarrow> string \<Rightarrow> ('z backend_scheme, json list) eff" where
  "fetch_tools_fresh env cat server =
     ebind (elift (resolve cat server)) (\<lambda>res.
       with_session env res (\<lambda>tr. list_all_pages env tr ''tools/list'' ''tools'' (JObj [])))"

definition discover_upstreams :: "env \<Rightarrow> pg_catalog \<Rightarrow> string \<Rightarrow> ('z backend_scheme, string list) eff" where
  "discover_upstreams env cat server =
     ebind (fetch_tools_fresh env cat server) (\<lambda>items.
       eret (upstreams_from_tool_names (List.map_filter (get_str ''name'') items)))"

definition owned_rows :: "planned_tool \<Rightarrow> (string \<times> string) list" where
  "owned_rows t =
     [(KIND_TABLE, table_name t), (KIND_FUNCTION, pt_sql_name t)]
     @ (case create_view t of Some _ \<Rightarrow> [(KIND_VIEW, view_name t)] | None \<Rightarrow> [])"

definition emit_warning :: "string \<Rightarrow> ('z backend_scheme, 'e, unit) effe" where
  "emit_warning msg b = (Inr (), warn Level_Warning msg b)"

definition skip_warning :: "string list \<Rightarrow> string" where
  "skip_warning names =
     ''skipped '' @ show_nat (length names) @ '' tool(s) with unmappable schemas: '' @ str_join '', '' names"

definition spi_ddl :: "pg_host \<Rightarrow> string \<Rightarrow> string \<Rightarrow> ('z backend_scheme, unit) peff" where
  "spi_ddl pg what sql = emap_err (\<lambda>e. Mcp (Internal (what @ '' failed: '' @ e))) (spi_exec pg sql)"

definition create_schema_if_missing :: "string \<Rightarrow> string" where
  "create_schema_if_missing target = ''CREATE SCHEMA IF NOT EXISTS '' @ quote_ident target"

definition plan_statements ::
  "pg_host \<Rightarrow> string \<Rightarrow> string \<Rightarrow> json list \<Rightarrow> import_options \<Rightarrow> pg_failure + (string list \<times> generation_plan)"
where
  "plan_statements pg server schema items opts =
     (case per_tool_plan (json_text pg) server schema items opts of
        None \<Rightarrow> Inl (PgRaise ''panic'')
      | Some (Inl e) \<Rightarrow> Inl (Mcp e)
      | Some (Inr v) \<Rightarrow> Inr v)"

definition tool_records :: "planned_tool list \<Rightarrow> owned_object list" where
  "tool_records ts =
     concat (map (\<lambda>t. map (\<lambda>(kind, name).
       \<lparr>oo_kind = kind, oo_name = name, oo_schema = pt_schema t, oo_tool = tool_name t\<rparr>) (owned_rows t)) ts)"

definition generate_per_tool ::
  "env \<Rightarrow> pg_catalog \<Rightarrow> pg_host \<Rightarrow> (string list \<Rightarrow> string list) \<Rightarrow> string \<Rightarrow> string \<Rightarrow> import_options
   \<Rightarrow> ('z backend_scheme, nat \<times> string list \<times> nat) peff"
where
  "generate_per_tool env cat pg hash_order server schema opts =
     ebind (emap_err Mcp (fetch_tools_fresh env cat server)) (\<lambda>items.
     ebind (elift (plan_statements pg server schema items opts)) (\<lambda>(stmts, p).
     ebind (emap emit_warning (warnings p @ (if skipped p = [] then [] else [skip_warning (skipped p)]))) (\<lambda>_.
     ebind (emap (\<lambda>target. if target = schema then eret () else spi_ddl pg ''CREATE SCHEMA'' (create_schema_if_missing target))
             (if per_upstream_schema opts then hash_order (map pt_schema (tools p)) else [])) (\<lambda>_.
     ebind (emap (spi_ddl pg ''per-tool DDL'') stmts) (\<lambda>created.
     ebind (emap (\<lambda>ob. emap_err Mcp (registry_record pg server ob)) (tool_records (tools p))) (\<lambda>_.
     eret (length (tools p), skipped p, length created)))))))"

definition import_fn ::
  "env \<Rightarrow> pg_catalog \<Rightarrow> pg_host \<Rightarrow> (string list \<Rightarrow> string list) \<Rightarrow> string \<Rightarrow> string \<Rightarrow> json option \<Rightarrow> ('z backend_scheme, int) peff"
where
  "import_fn env cat pg hash_order server schema opts =
     ebind (emap_err Mcp (elift (lookup_foreign_server cat server))) (\<lambda>_.
     ebind (emap_err Mcp (elift (parse_options (json_text pg) (unwrap_or opts JNull)))) (\<lambda>parsed.
     ebind (if all_upstreams parsed then
              ebind (emap_err Mcp (discover_upstreams env cat server)) (\<lambda>ups. eret (engine_statements server schema parsed ups))
            else eret (statements_with server schema FAll parsed)) (\<lambda>stmts.
     ebind (if per_tool parsed then
              ebind (generate_per_tool env cat pg hash_order server schema parsed) (\<lambda>(count, _, _). eret count)
            else eret 0) (\<lambda>generated.
     ebind (emap (spi_ddl pg ''import DDL'') stmts) (\<lambda>created.
     eret (as_i32 (int (length created) + int generated)))))))"

text \<open>\<^verbatim>\<open>mcp.generate_functions\<close>: the row it returns is the triple of counts and skipped names.\<close>

definition drop_targets :: "import_options \<Rightarrow> string \<Rightarrow> string list \<Rightarrow> string list" where
  "drop_targets opts schema schemas =
     foldl (\<lambda>acc s. if per_upstream_schema opts \<and> s \<notin> set acc then acc @ [s] else acc) [schema] schemas"

definition generate_functions ::
  "env \<Rightarrow> pg_catalog \<Rightarrow> pg_host \<Rightarrow> (string list \<Rightarrow> string list) \<Rightarrow> string \<Rightarrow> string \<Rightarrow> json option
   \<Rightarrow> ('z backend_scheme, int \<times> int \<times> string list) peff"
where
  "generate_functions env cat pg hash_order server schema opts =
     ebind (emap_err Mcp (elift (lookup_foreign_server cat server))) (\<lambda>_.
     ebind (emap_err Mcp (elift (parse_options (json_text pg) (unwrap_or opts JNull)))) (\<lambda>parsed0.
     let parsed = parsed0\<lparr>per_tool := True\<rparr> in
     ebind (emap_err Mcp (schemas_for pg server)) (\<lambda>schemas.
     ebind (emap (\<lambda>target. emap_err Mcp (drop_owned pg server target)) (drop_targets parsed schema schemas)) (\<lambda>_.
     ebind (generate_per_tool env cat pg hash_order server schema parsed) (\<lambda>(generated, skips, _).
     eret (as_i32 (int generated), as_i32 (int (length skips)), skips))))))"

section \<open>Sessions\<close>

definition refresh_notice :: "string \<Rightarrow> string list \<Rightarrow> string" where
  "refresh_notice server schemas =
     ''server \"'' @ server @ ''\" has generated per-tool objects in schema(s) '' @ str_join '', '' schemas
     @ ''; if its tools changed, re-run mcp.generate_functions''"

definition refresh :: "pg_catalog \<Rightarrow> pg_host \<Rightarrow> string \<Rightarrow> ('z backend_scheme, bool) eff" where
  "refresh cat pg server =
     ebind (elift (lookup_foreign_server cat server)) (\<lambda>(srv, _) b.
       (let usr = current_user_oid cat;
            b1 = snd (drop_session srv usr b);
            b2 = snd (drop_cache (srv, usr) b1)
        in (Inr True,
            case fst (schemas_for pg server b2) of
              Inr schemas \<Rightarrow> if schemas \<noteq> [] then warn Level_Notice (refresh_notice server schemas) b2 else b2
            | Inl _ \<Rightarrow> b2)))"

definition session_initialize_count :: "pg_catalog \<Rightarrow> string \<Rightarrow> 'z backend_scheme \<Rightarrow> int option mcp_result" where
  "session_initialize_count cat server b =
     rmap (\<lambda>(srv, _). map_option (\<lambda>n. as_i32 (int n)) (cached_initialize_count srv (current_user_oid cat) b))
       (lookup_foreign_server cat server)"

definition session_count_fn :: "'z backend_scheme \<Rightarrow> int" where
  "session_count_fn b = as_i32 (int (session_count b))"

definition session_info_json :: "mcp_session \<Rightarrow> json" where
  "session_info_json s = JObj [(''url'', JStr (ms_url s)), (''protocolVersion'', JStr (protocol_version s)),
     (''serverInfo'', server_info s), (''capabilities'', capabilities s), (''hasSessionId'', JBool (session_id s \<noteq> None)),
     (''initializeCount'', JNum (PosInt (initialize_count s)))]"

definition session_info :: "pg_catalog \<Rightarrow> string \<Rightarrow> 'z backend_scheme \<Rightarrow> json option mcp_result" where
  "session_info cat server b =
     rmap (\<lambda>(srv, _). with_cached_session srv (current_user_oid cat) session_info_json b) (lookup_foreign_server cat server)"

section \<open>Versions\<close>

definition version :: string where
  "version = CLIENT_VERSION"

definition protocol_version_fn :: string where
  "protocol_version_fn = CLIENT_PROTOCOL_VERSION"

section \<open>The validator\<close>

definition mcp_fdw_validator :: "pg_catalog \<Rightarrow> string option list \<Rightarrow> oid \<Rightarrow> unit mcp_result" where
  "mcp_fdw_validator cat raw catalog =
     (let parsed = split_validator_options raw
      in case validator_catalog_of catalog of
           VC_ForeignServer \<Rightarrow> rmap (\<lambda>_. ()) (server_options_parse (url_parse cat) (name_resolution cat) parsed)
         | VC_UserMapping \<Rightarrow> rmap (\<lambda>_. ()) (user_mapping_parse parsed)
         | VC_ForeignDataWrapper \<Rightarrow>
             (case parsed of
                [] \<Rightarrow> Inr ()
              | (name, _) # _ \<Rightarrow> Inl (InvalidOption (''invalid option \"'' @ name
                  @ ''\" for the mcp_fdw foreign data wrapper (it takes none)'')))
         | VC_Other \<Rightarrow> Inr ())"

section \<open>What generation runs\<close>

lemma emap_runs:
  assumes "emap f xs b = (Inr us, b')" "\<And>x b u b'. x \<in> set xs \<Longrightarrow> f x b = (Inr u, b') \<Longrightarrow> runs b (g x) b'"
  shows "runs b (concat (map g xs)) b' \<and> length us = length xs"
  using assms
proof (induction xs arbitrary: b us)
  case (Cons x xs)
  obtain u b1 us' where x: "f x b = (Inr u, b1)" and rest: "emap f xs b1 = (Inr us', b')" and us: "us = u # us'"
    using Cons.prems(1) by (auto simp: ebind_Inr eret_apply)
  have "runs b1 (concat (map g xs)) b' \<and> length us' = length xs"
    by (rule Cons.IH [OF rest]) (use Cons.prems(2) in auto)
  moreover have "runs b (g x) b1" using Cons.prems(2) x by simp
  ultimately show ?case using runs_trans us by auto
qed (auto simp: eret_apply)

lemma spi_ddl_runs: "spi_ddl pg what sql b = (Inr u, b') \<Longrightarrow> runs b [sql] b'"
  unfolding spi_ddl_def emap_err_Inr using spi_exec_runs [of pg sql b] by fastforce

lemma registry_record_runs: "emap_err Mcp (registry_record pg server ob) b = (Inr u, b') \<Longrightarrow> runs b [record_sql server ob] b'"
  unfolding registry_record_def emap_err_Inr using spi_exec_runs [of pg "record_sql server ob" b] by fastforce

lemma concat_singletons: "concat (map (\<lambda>x. [g x]) xs) = map g xs"
  by (induction xs) simp_all

lemma warnings_run:
  "emap emit_warning msgs b = (Inr (replicate (length msgs) ()), b\<lparr>notices := notices b @ map (Pair Level_Warning) msgs\<rparr>)"
  by (induction msgs arbitrary: b) (simp_all add: eff_simps emit_warning_def warn_def)

text \<open>The statements of one generation: missing upstream schemas, the DDL, the bookkeeping.\<close>

definition generation_log ::
  "(string list \<Rightarrow> string list) \<Rightarrow> string \<Rightarrow> string \<Rightarrow> import_options \<Rightarrow> string list \<Rightarrow> generation_plan \<Rightarrow> string list"
where
  "generation_log hash_order server schema opts stmts p =
     map create_schema_if_missing
       (filter (\<lambda>target. target \<noteq> schema) (if per_upstream_schema opts then hash_order (map pt_schema (tools p)) else []))
     @ stmts @ map (record_sql server) (tool_records (tools p))"

definition plan_messages :: "generation_plan \<Rightarrow> string list" where
  "plan_messages p = warnings p @ (if skipped p = [] then [] else [skip_warning (skipped p)])"

definition missing_targets :: "(string list \<Rightarrow> string list) \<Rightarrow> import_options \<Rightarrow> generation_plan \<Rightarrow> string list" where
  "missing_targets hash_order opts p = (if per_upstream_schema opts then hash_order (map pt_schema (tools p)) else [])"

text \<open>The steps of a generation that succeeds.\<close>

lemma generate_per_tool_steps:
  assumes "generate_per_tool env cat pg hash_order server schema opts b = (Inr out, b')"
  obtains items b1 stmts p b3 b4 created where
    "fetch_tools_fresh env cat server b = (Inr items, b1)"
    "per_tool_plan (json_text pg) server schema items opts = Some (Inr (stmts, p))"
    "runs (b1\<lparr>notices := notices b1 @ map (Pair Level_Warning) (plan_messages p)\<rparr>)
       (map create_schema_if_missing (filter (\<lambda>target. target \<noteq> schema) (missing_targets hash_order opts p))) b3"
    "emap (spi_ddl pg ''per-tool DDL'') stmts b3 = (Inr created, b4)" "runs b3 stmts b4" "length created = length stmts"
    "runs b4 (map (record_sql server) (tool_records (tools p))) b'"
    "out = (length (tools p), skipped p, length created)"
proof -
  let ?mk = "\<lambda>target. if target = schema then eret () else spi_ddl pg ''CREATE SCHEMA'' (create_schema_if_missing target)"
  let ?g = "\<lambda>target. if target = schema then [] else [create_schema_if_missing target]"
  from assms obtain items b1 stmts p b2 b3 b4 created us vs where
    f: "fetch_tools_fresh env cat server b = (Inr items, b1)" and
    pl: "plan_statements pg server schema items opts = Inr (stmts, p)" and
    w: "b2 = b1\<lparr>notices := notices b1 @ map (Pair Level_Warning) (plan_messages p)\<rparr>" and
    s: "emap ?mk (missing_targets hash_order opts p) b2 = (Inr us, b3)" and
    d: "emap (spi_ddl pg ''per-tool DDL'') stmts b3 = (Inr created, b4)" and
    r: "emap (\<lambda>ob. emap_err Mcp (registry_record pg server ob)) (tool_records (tools p)) b4 = (Inr vs, b')" and
    out: "out = (length (tools p), skipped p, length created)"
    unfolding generate_per_tool_def ebind_Inr emap_err_Inr plan_messages_def [symmetric] missing_targets_def [symmetric]
    by (auto simp: elift_apply eret_apply ebind_Inr warnings_run)
  have plan: "per_tool_plan (json_text pg) server schema items opts = Some (Inr (stmts, p))"
    using pl by (auto simp: plan_statements_def split: option.splits sum.splits)
  have "runs b2 (concat (map ?g (missing_targets hash_order opts p))) b3"
    by (rule emap_runs [OF s, THEN conjunct1]) (auto simp: eret_apply dest: spi_ddl_runs split: if_splits)
  moreover have "concat (map ?g xs) = map create_schema_if_missing (filter (\<lambda>target. target \<noteq> schema) xs)" for xs
    by (induction xs) simp_all
  ultimately have a: "runs b2 (map create_schema_if_missing (filter (\<lambda>target. target \<noteq> schema) (missing_targets hash_order opts p))) b3"
    by simp
  have "runs b3 (concat (map (\<lambda>x. [x]) stmts)) b4 \<and> length created = length stmts"
    by (rule emap_runs [OF d]) (rule spi_ddl_runs)
  then have b: "runs b3 stmts b4" "length created = length stmts" by simp_all
  have "runs b4 (concat (map (\<lambda>ob. [record_sql server ob]) (tool_records (tools p)))) b'"
    by (rule emap_runs [OF r, THEN conjunct1]) (rule registry_record_runs)
  then have c: "runs b4 (map (record_sql server) (tool_records (tools p))) b'" by (simp add: concat_singletons)
  show thesis by (rule that [OF f plan a [unfolded w] d b c out])
qed

lemma generate_per_tool_runs:
  assumes "generate_per_tool env cat pg hash_order server schema opts b = (Inr out, b')"
  shows "\<exists>items b1 stmts p. fetch_tools_fresh env cat server b = (Inr items, b1)
    \<and> per_tool_plan (json_text pg) server schema items opts = Some (Inr (stmts, p))
    \<and> b' = b1\<lparr>notices := notices b1 @ map (Pair Level_Warning) (plan_messages p),
        spi_log := spi_log b1 @ generation_log hash_order server schema opts stmts p\<rparr>
    \<and> out = (length (tools p), skipped p, length stmts)"
  using assms
proof (rule generate_per_tool_steps)
  fix items b1 stmts p b3 b4 created
  assume f: "fetch_tools_fresh env cat server b = (Inr items, b1)"
    "per_tool_plan (json_text pg) server schema items opts = Some (Inr (stmts, p))"
    "length created = length stmts" "out = (length (tools p), skipped p, length created)"
  assume "runs (b1\<lparr>notices := notices b1 @ map (Pair Level_Warning) (plan_messages p)\<rparr>)
       (map create_schema_if_missing (filter (\<lambda>target. target \<noteq> schema) (missing_targets hash_order opts p))) b3"
    "runs b3 stmts b4" "runs b4 (map (record_sql server) (tool_records (tools p))) b'"
  then have "b' = b1\<lparr>notices := notices b1 @ map (Pair Level_Warning) (plan_messages p),
        spi_log := spi_log b1 @ generation_log hash_order server schema opts stmts p\<rparr>"
    by (simp add: runs_def generation_log_def missing_targets_def)
  with f show ?thesis by auto
qed

lemma fetch_tools_fresh_touches:
  "resolve cat server = Inr res \<Longrightarrow> fetch_tools_fresh env cat server b = (r, b') \<Longrightarrow> own res b b'"
proof -
  assume "resolve cat server = Inr res" "fetch_tools_fresh env cat server b = (r, b')"
  then have w: "with_session env res (\<lambda>tr. list_all_pages env tr ''tools/list'' ''tools'' (JObj [])) b = (r, b')"
    by (simp add: fetch_tools_fresh_def eff_simps)
  show "own res b b'"
    by (rule evolvesD [where m = "with_session env res (\<lambda>tr. list_all_pages env tr ''tools/list'' ''tools'' (JObj []))", OF _ w])
      (rule own_scope.scope_with_session, rule own_scope.scope_list_all)
qed

lemma fetch_tools_fresh_log:
  assumes "fetch_tools_fresh env cat server b = (Inr items, b')"
  shows "spi_log b' = spi_log b"
proof (cases "resolve cat server")
  case (Inl e)
  with assms show ?thesis by (simp add: fetch_tools_fresh_def eff_simps)
next
  case (Inr res)
  from own_host_state [OF fetch_tools_fresh_touches [OF Inr assms]] show ?thesis by simp
qed

lemma drop_owned_runs:
  assumes "drop_owned pg server schema b = (Inr n, b')"
  shows "\<exists>dropping objects. runs b (dropping @ [clear_sql server schema]) b' \<and> list_all2 drops objects dropping"
proof -
  from assms obtain objects b1 us b2 where o: "owned pg server schema b = (Inr objects, b1)"
    and d: "emap (drop_one pg) (rev objects) b1 = (Inr us, b2)" and c: "clear_owned pg server schema b2 = (Inr (), b')"
    unfolding drop_owned_def ebind_Inr by (auto simp: eret_apply)
  have "b1 = b" using o owned_pure(1) [of pg server schema b] by simp
  with drop_all_runs [OF d] obtain stmts where st: "runs b stmts b2" "list_all2 drops (take (length stmts) (rev objects)) stmts" by auto
  have "runs b2 [clear_sql server schema] b'" using emap_err_spi [OF c [unfolded clear_owned_def]] by simp
  from runs_trans [OF st(1) this] st(2) show ?thesis by blast
qed

lemma drop_all_targets:
  assumes "emap (\<lambda>target. emap_err Mcp (drop_owned pg server target)) targets b = (Inr us, b')"
  shows "\<exists>logs. runs b (concat logs) b' \<and> list_all2 (\<lambda>target stmts. \<exists>objects dropping.
    stmts = dropping @ [clear_sql server target] \<and> list_all2 drops objects dropping) targets logs"
  using assms
proof (induction targets arbitrary: b us)
  case Nil
  then show ?case by (intro exI [of _ "[]"]) (simp add: eret_apply)
next
  case (Cons target targets)
  obtain u b1 us' where d: "drop_owned pg server target b = (Inr u, b1)"
    and rest: "emap (\<lambda>target. emap_err Mcp (drop_owned pg server target)) targets b1 = (Inr us', b')"
    using Cons.prems by (auto simp: ebind_Inr emap_err_Inr eret_apply)
  obtain dropping objects where dr: "runs b (dropping @ [clear_sql server target]) b1" "list_all2 drops objects dropping"
    using drop_owned_runs [OF d] by blast
  from Cons.IH [OF rest] obtain logs where l: "runs b1 (concat logs) b'"
    "list_all2 (\<lambda>target stmts. \<exists>objects dropping. stmts = dropping @ [clear_sql server target] \<and> list_all2 drops objects dropping) targets logs"
    by blast
  show ?case
    using runs_trans [OF dr(1) l(1)] dr(2) l(2)
    by (intro exI [of _ "(dropping @ [clear_sql server target]) # logs"]) auto
qed


definition loop_catalog :: pg_catalog where
  "loop_catalog = \<lparr>foreign_server = (\<lambda>_. Some (1, [(''url'', ''http://127.0.0.1/mcp''), (''auth'', ''none'')])),
     user_mapping_row = (\<lambda>_ _. False), get_user_mapping = (\<lambda>_ _. None), current_user_oid = 5, secret_get_one = (\<lambda>_. Inr None),
     url_parse = (\<lambda>r. Some \<lparr>u_scheme = ''http'', u_host = Some (Ipv4 127 0 0 1), u_port_or_default = Some 80, u_text = r\<rparr>),
     name_resolution = (\<lambda>_ _. None)\<rparr>"

definition loop_resolved :: resolved where
  "loop_resolved = \<lparr>server_oid = 1, user_oid = 5,
     options = \<lparr>so_url = ''http://127.0.0.1/mcp'', so_mode = ModeAuto, timeout_ms = 15000, auth = AuthNone,
       max_unqualified_reads = 0, audit_table = None, cache_ttl_ms = 60000\<rparr>, res_bearer = None\<rparr>"

lemma loop_resolve: "resolve loop_catalog ''srv'' = Inr loop_resolved"
  by (simp add: resolve_def lookup_foreign_server_def loop_catalog_def loop_resolved_def server_options_parse_def SERVER_OPTION_NAMES_def
      parse_url_def opt_with_def auth_parse_def is_loopback_def DEFAULT_TIMEOUT_MS_def DEFAULT_CACHE_TTL_MS_def)

lemma loop_listing: "\<exists>b'. fetch_tools_fresh listing_server loop_catalog ''srv'' (empty_backend\<lparr>spi_log := l\<rparr>) = (Inr two_tools, b')"
  by (simp add: fetch_tools_fresh_def loop_resolve with_session_def checkout_def loop_resolved_def session_key_of_def empty_backend_def
      open_session_def fresh_session_def negotiated_def initialized_note_def list_all_pages_def list_loop.simps MAX_LIST_PAGES_def client_defs
      listing_server_def steady_server_def rpc_request_def get_defs page_items_def is_transport_def Let_def)

lemma two_tools_plan:
  "\<exists>p. per_tool_plan pr ''srv'' ''s'' two_tools (default_options\<lparr>per_tool := True\<rparr>) = Some (Inr ([], p)) \<and> tools p = [] \<and> skipped p = [''a'', ''b'']"
proof -
  have len: "length two_tools < 2 ^ 64" by (simp add: two_tools_def)
  obtain p where p: "plan pr two_tools ''s'' [] IReadOnly SingleSchema = Some (Inr p)"
    "tools p = map (item_tool pr IReadOnly) (filter item_plannable (batch_items two_tools ''s'' [] SingleSchema))"
    "skipped p = map (\<lambda>it. tool_display_name (fst (fst it))) (filter (\<lambda>it. \<not> item_plannable it) (batch_items two_tools ''s'' [] SingleSchema))"
    using plan_eq [OF ident_ok_Nil _ len, of "''s''" pr IReadOnly SingleSchema] by auto
  have none: "\<forall>x \<in> set two_tools. \<not> plannable x" by (simp add: two_tools_def plannable_def properties_def)
  have "map tool_display_name (filter (\<lambda>t. usable_name t \<noteq> None \<and> \<not> plannable t) two_tools) = [''a'', ''b'']"
    by (simp add: two_tools_def plannable_def properties_def usable_name_def tool_display_name_def get_defs)
  then have "skipped p = [''a'', ''b'']"
    unfolding p(3) using filter_items [of tool_display_name "\<lambda>t. \<not> plannable t" two_tools "''s''" "[]" SingleSchema] by simp
  moreover have "filter item_plannable (batch_items two_tools ''s'' [] SingleSchema) = []"
  proof -
    have "fst (fst it) \<in> set two_tools" if "it \<in> set (batch_items two_tools ''s'' [] SingleSchema)" for it
      using that batch_items_tools [of two_tools "''s''" "[]" SingleSchema] imageI [OF that, of "\<lambda>it. fst (fst it)"]
      by (metis (no_types, lifting) filter_is_subset list.set_map subsetD)
    with none show ?thesis by (simp add: filter_empty_conv)
  qed
  ultimately show ?thesis
    using p by (auto simp: per_tool_plan_def default_options_def)
qed


section \<open>Divergences\<close>

lemma emap_ddl_each:
  assumes "emap (spi_ddl pg what) stmts b = (Inr us, b')" "sql \<in> set stmts"
  shows "\<exists>log. set (spi_log b) \<subseteq> set log \<and> spi_run pg log sql = None"
  using assms
proof (induction stmts arbitrary: b us)
  case (Cons s stmts)
  obtain u b1 us' where s: "spi_ddl pg what s b = (Inr u, b1)" and rest: "emap (spi_ddl pg what) stmts b1 = (Inr us', b')"
    using Cons.prems(1) by (auto simp: ebind_Inr eret_apply)
  have r: "spi_run pg (spi_log b) s = None" "set (spi_log b) \<subseteq> set (spi_log b1)"
    using s by (auto simp: spi_ddl_def emap_err_Inr spi_exec_def split: option.splits)
  show ?case
  proof (cases "sql = s")
    case True
    with r show ?thesis by blast
  next
    case False
    with Cons.IH [OF rest] Cons.prems(2) r(2) show ?thesis by auto
  qed
qed simp

lemma upstream_schema_created:
  "per_tool_statements server schema opts created ts = Some stmts \<Longrightarrow> per_upstream_schema opts \<Longrightarrow> t \<in> set ts
   \<Longrightarrow> pt_schema t \<noteq> schema \<Longrightarrow> pt_schema t \<notin> set created \<Longrightarrow> create_schema (pt_schema t) \<in> set stmts"
proof (induction ts arbitrary: created stmts)
  case (Cons a ts)
  then show ?case by (cases "pt_schema t = pt_schema a") (auto simp: Let_def split: option.splits if_splits)
qed simp

text \<open>
  With \<^verbatim>\<open>per_upstream_schema\<close>, each upstream schema is created twice: \<^verbatim>\<open>generate_per_tool\<close> runs
  \<^verbatim>\<open>CREATE SCHEMA IF NOT EXISTS\<close> and the planned statements begin with a plain \<^verbatim>\<open>CREATE SCHEMA\<close>. On a
  host where a plain \<^verbatim>\<open>CREATE SCHEMA\<close> of an existing schema fails, such a generation never succeeds.
\<close>

lemma per_upstream_generation_fails:
  assumes "\<And>log n. create_schema_if_missing n \<in> set log \<Longrightarrow> spi_run pg log (create_schema n) \<noteq> None"
    and "\<And>xs. set (hash_order xs) = set xs" "per_upstream_schema opts"
    and "fetch_tools_fresh env cat server b = (Inr items, b1)"
    and "per_tool_plan (json_text pg) server schema items opts = Some (Inr (stmts, p))"
    and "t \<in> set (tools p)" "pt_schema t \<noteq> schema"
  shows "generate_per_tool env cat pg hash_order server schema opts b \<noteq> (Inr out, b')"
proof
  assume "generate_per_tool env cat pg hash_order server schema opts b = (Inr out, b')"
  then show False
  proof (rule generate_per_tool_steps)
    fix items' b1' stmts' p' b3 b4 created
    assume g: "fetch_tools_fresh env cat server b = (Inr items', b1')"
      "per_tool_plan (json_text pg) server schema items' opts = Some (Inr (stmts', p'))"
      "runs (b1'\<lparr>notices := notices b1' @ map (Pair Level_Warning) (plan_messages p')\<rparr>)
         (map create_schema_if_missing (filter (\<lambda>target. target \<noteq> schema) (missing_targets hash_order opts p'))) b3"
      "emap (spi_ddl pg ''per-tool DDL'') stmts' b3 = (Inr created, b4)"
    with assms(4,5) have eq: "stmts' = stmts" "p' = p" by auto
    have "per_tool_statements server schema opts [] (tools p) = Some stmts"
      using assms(5) by (auto simp: per_tool_plan_def split: option.splits sum.splits)
    from upstream_schema_created [OF this assms(3,6,7)] have "create_schema (pt_schema t) \<in> set stmts" by simp
    with emap_ddl_each [OF g(4)] eq obtain log where l: "set (spi_log b3) \<subseteq> set log" "spi_run pg log (create_schema (pt_schema t)) = None"
      by blast
    have "create_schema_if_missing (pt_schema t) \<in> set (spi_log b3)"
      using g(3) assms(2,3,6,7) by (auto simp: runs_def eq missing_targets_def)
    with l assms(1) show False by blast
  qed
qed

text \<open>
  Two objects of one schema can claim the same bookkeeping row, whose key is schema and name: the
  table of a tool \<^verbatim>\<open>x\<close> and the function of a tool \<^verbatim>\<open>tool_x\<close>. Names are distinct among tables, among
  functions and among views, but not across. The second record overwrites the kind of the first.
\<close>

lemma registry_key_collision:
  assumes "t1 \<in> set ts" "t2 \<in> set ts" "pt_schema t1 = pt_schema t2" "pt_sql_name t2 = ''tool_'' @ pt_sql_name t1"
  shows "\<exists>ob1 \<in> set (tool_records ts). \<exists>ob2 \<in> set (tool_records ts).
    (oo_schema ob1, oo_name ob1) = (oo_schema ob2, oo_name ob2) \<and> oo_kind ob1 = KIND_TABLE \<and> oo_kind ob2 = KIND_FUNCTION"
proof -
  let ?ob = "\<lambda>t kind name. \<lparr>oo_kind = kind, oo_name = name, oo_schema = pt_schema t, oo_tool = tool_name t\<rparr>"
  have "?ob t1 KIND_TABLE (table_name t1) \<in> set (tool_records ts)" "?ob t2 KIND_FUNCTION (pt_sql_name t2) \<in> set (tool_records ts)"
    using assms(1,2) by (auto simp: tool_records_def owned_rows_def)
  then show ?thesis
    by (intro bexI [of _ "?ob t1 KIND_TABLE (table_name t1)"] bexI [of _ "?ob t2 KIND_FUNCTION (pt_sql_name t2)"])
      (simp_all add: assms(3,4) table_name_def)
qed

text \<open>
  A tool called \<^verbatim>\<open>calls\<close> is planned as the table \<^verbatim>\<open>tool_calls\<close>, the name of the fixed table that an import
  with \<^verbatim>\<open>per_tool\<close> creates in the same schema.
\<close>

lemma tool_named_calls_collides:
  assumes "pt_sql_name t = ''calls''"
  shows "derive ''calls'' [] = Some ''calls''"
    and "\<exists>e \<in> set REGISTRY. ts_name (spec e) = table_name t"
proof -
  show "derive ''calls'' [] = Some ''calls''" by code_simp
  show "\<exists>e \<in> set REGISTRY. ts_name (spec e) = table_name t"
    by (simp add: REGISTRY_def TOOL_CALLS_SPEC_def table_name_def assms)
qed

section \<open>Refreshing\<close>

lemma refresh_spec:
  assumes "lookup_foreign_server cat server = Inr (srv, so)"
  shows "\<exists>b'. refresh cat pg server b = (Inr True, b') \<and> sessions b' (srv, current_user_oid cat) = None
    \<and> (\<forall>sl. cache_lookup (srv, current_user_oid cat) sl b' = None)
    \<and> (\<forall>k. k \<noteq> (srv, current_user_oid cat) \<longrightarrow> sessions b' k = sessions b k \<and> caches b' k = caches b k)
    \<and> call_logs b' = call_logs b \<and> sent b' = sent b \<and> spi_log b' = spi_log b"
  using assms
  by (auto simp: refresh_def eff_simps Let_def drop_session_def drop_cache_def warn_def cache_lookup_def split: sum.splits)

section \<open>The advertised version\<close>

text \<open>\<^verbatim>\<open>mcp.version()\<close> and \<^verbatim>\<open>mcp.protocol_version()\<close> are what the handshake tells the server.\<close>

lemma version_on_the_wire:
  "Option.bind (jget ''clientInfo'' initialize_params) (get_str ''version'') = Some version"
  "get_str ''protocolVersion'' initialize_params = Some protocol_version_fn"
  by (simp_all add: initialize_params_def version_def protocol_version_fn_def get_str_def)

section \<open>Isolation\<close>

lemma resolve_user: "resolve cat server = Inr res \<Longrightarrow> user_oid res = current_user_oid cat"
  by (auto simp: resolve_def rbind_eq_Inr_iff Let_def split: prod.splits)

lemma request_touches:
  assumes "resolve cat server = Inr res"
  shows "evolves (touches res :: 'z backend_scheme \<Rightarrow> _) (request env cat server mthd p)"
proof (rule evolvesI)
  fix b :: "'z backend_scheme"
  obtain r b' where w: "with_session env res (\<lambda>tr. session_request env tr mthd p) b = (r, b')" by force
  then have "snd (request env cat server mthd p b) = b'" using assms by (simp add: request_def eff_simps)
  with own_touches [OF with_session_own [OF w]] show "touches res b (snd (request env cat server mthd p b))" by simp
qed

lemma call_tool_touches:
  assumes "resolve cat server = Inr res"
  shows "evolves (touches res :: 'z backend_scheme \<Rightarrow> _) (call_tool env cat server tool args on_err)"
proof -
  have "evolves (touches res) (if c then elift x else eret y)" for c x y by (simp add: touch_scope.evo_lift touch_scope.evo_ret)
  then show ?thesis unfolding call_tool_def call_tool_inner_def
    by (intro touch_scope.evo_bind touch_scope.evo_lift request_touches [OF assms])
qed

end
