(* ===== verification/Fdw.thy ===== *)
theory Fdw
  imports Pushdown Api
begin

text \<open>
  The executor half of \<^verbatim>\<open>fdw.rs\<close>: scans and inserts as PostgreSQL drives them, the conversion between
  cells and datums at the tuple slot, and \<^verbatim>\<open>IMPORT FOREIGN SCHEMA\<close>. A slot is PostgreSQL's; what it
  answers is the field \<open>slot_getattr\<close>. The facts are the round trip of rows through slots and what
  may be modified at all.
\<close>

section \<open>Cells and datums\<close>

text \<open>\<^verbatim>\<open>u8::from_str_radix(s, 16)\<close>: an optional plus sign, then at least one digit.\<close>

definition hex_value :: "char \<Rightarrow> nat option" where
  "hex_value c =
     (if is_ascii_digit c then Some (byte c - 48)
      else if 97 \<le> byte c \<and> byte c \<le> 102 then Some (byte c - 87)
      else if 65 \<le> byte c \<and> byte c \<le> 70 then Some (byte c - 55)
      else None)"

fun hex_digits_value :: "nat \<Rightarrow> string \<Rightarrow> nat option" where
  "hex_digits_value acc [] = Some acc"
| "hex_digits_value acc (c # s) =
     Option.bind (hex_value c) (\<lambda>d. let v = acc * 16 + d in if v < 256 then hex_digits_value v s else None)"

definition u8_from_hex :: "string \<Rightarrow> nat option" where
  "u8_from_hex s =
     (case s of
        [] \<Rightarrow> None
      | [c] \<Rightarrow> hex_digits_value 0 s
      | c # t \<Rightarrow> hex_digits_value 0 (if c = CHR ''+'' then t else s))"

text \<open>\<^verbatim>\<open>&s[a..b]\<close>, where \<open>None\<close> is the panic.\<close>

definition slice_between :: "nat \<Rightarrow> nat \<Rightarrow> string \<Rightarrow> string option" where
  "slice_between a b s =
     (if a \<le> b \<and> is_char_boundary a s \<and> is_char_boundary b s then Some (take (b - a) (drop a s)) else None)"

text \<open>The two characters of \<^verbatim>\<open>\x\<close>.\<close>

definition hex_marker :: string where
  "hex_marker = [CHR 0x5C, CHR ''x'']"

definition hex_decode_bytea_out :: "string \<Rightarrow> nat list option" where
  "hex_decode_bytea_out raw =
     (let hex = (case strip_prefix hex_marker raw of Some t \<Rightarrow> t | None \<Rightarrow> raw)
      in map_option (List.map_filter u8_from_hex)
           (traverse (\<lambda>i. slice_between (i * 2) (i * 2 + 2) hex) [0..<length hex div 2]))"

definition bytea_hex :: "nat list \<Rightarrow> string" where
  "bytea_hex bytes = hex_marker @ concat (map hex2 bytes)"

text \<open>\<^verbatim>\<open>CString::new\<close> refuses an interior NUL.\<close>

definition cstring_or :: "string \<Rightarrow> string \<Rightarrow> string" where
  "cstring_or fallback s = (if CHR 0x00 \<in> set s then fallback else s)"

fun cell_to_datum :: "pg_host \<Rightarrow> ('d, 'z) fdw_host_scheme \<Rightarrow> cell \<Rightarrow> fdw_failure + 'd" where
  "cell_to_datum pg h (Cell_Text s) = Inr (cstring_to_text h (without_nuls s))"
| "cell_to_datum pg h (Cell_Json v) = pg_result (jsonb_in h (cstring_or ''null'' (json_text pg v)))"
| "cell_to_datum pg h (Cell_Bool b) = Inr (bool_datum h b)"
| "cell_to_datum pg h (Cell_Int4 i) = Inr (i32_datum h i)"
| "cell_to_datum pg h (Cell_Int8 i) = Inr (i64_datum h i)"
| "cell_to_datum pg h (Cell_Bytea bytes) = pg_result (byteain h (cstring_or hex_marker (bytea_hex bytes)))"
| "cell_to_datum pg h (Cell_Uuid bytes) = Inr (uuid_datum h bytes)"
| "cell_to_datum pg h (Cell_TimestampTz micros) = Inr (i64_datum h micros)"
| "cell_to_datum pg h (Cell_Float8 f) = Inr (f64_datum h f)"
| "cell_to_datum pg h (Cell_Date d) = pg_result (date_in_func h (cstring_or ''1970-01-01'' d))"

definition fill_slot :: "pg_host \<Rightarrow> ('d, 'z) fdw_host_scheme \<Rightarrow> nat \<Rightarrow> row \<Rightarrow> fdw_failure + 'd option list" where
  "fill_slot pg h n row =
     collect_results (\<lambda>i. case (if i < length row then row ! i else None) of
         None \<Rightarrow> Inr None
       | Some cell \<Rightarrow> rmap Some (cell_to_datum pg h cell)) [0..<n]"

record 'd slot =
  natts :: nat
  slot_getattr :: "nat \<Rightarrow> string + 'd option"

definition malformed_jsonb :: "string \<Rightarrow> mcp_error" where
  "malformed_jsonb name = Internal (''column \"'' @ name @ ''\" holds malformed jsonb'')"

fun datum_to_cell :: "('d, 'z) fdw_host_scheme \<Rightarrow> string \<Rightarrow> column_type \<Rightarrow> 'd \<Rightarrow> fdw_failure + cell" where
  "datum_to_cell h name Ty_Text d = Inr (Cell_Text (text_to_cstring h d))"
| "datum_to_cell h name Ty_Jsonb d =
     (case json_from_str h (jsonb_out h d) of Some v \<Rightarrow> Inr (Cell_Json v) | None \<Rightarrow> raise_mcp (malformed_jsonb name))"
| "datum_to_cell h name Ty_Boolean d = Inr (Cell_Bool (bool_from_datum h d))"
| "datum_to_cell h name Ty_Int4 d = Inr (Cell_Int4 (i32_from_datum h d))"
| "datum_to_cell h name Ty_Int8 d = Inr (Cell_Int8 (i64_from_datum h d))"
| "datum_to_cell h name Ty_Uuid d = Inr (Cell_Uuid (uuid_bytes h d))"
| "datum_to_cell h name Ty_TimestampTz d = Inr (Cell_TimestampTz (i64_from_datum h d))"
| "datum_to_cell h name Ty_Bytea d = rmap Cell_Bytea (or_panic (hex_decode_bytea_out (byteaout h d)))"
| "datum_to_cell h name Ty_Float8 d = Inr (Cell_Float8 (f64_from_datum h d))"
| "datum_to_cell h name Ty_Date d = Inr (Cell_Date (date_out h d))"

definition read_slot :: "('d, 'z) fdw_host_scheme \<Rightarrow> 'd slot \<Rightarrow> table_spec \<Rightarrow> fdw_failure + row" where
  "read_slot h sl sp =
     collect_results (\<lambda>(idx, col).
       rbind (pg_result (slot_getattr sl (idx + 1))) (\<lambda>v.
       case v of
         None \<Rightarrow> Inr None
       | Some d \<Rightarrow> rmap Some (datum_to_cell h (col_name col) (pg_type col) d))) (enumerate 0 (columns sp))"

definition hex_encode_bytea :: "string \<Rightarrow> string" where
  "hex_encode_bytea bytea_out = bytea_out"

text \<open>A per-tool INSERT reads any non-finite double as JSON null.\<close>

definition slot_json :: "('d, 'z) fdw_host_scheme \<Rightarrow> string \<Rightarrow> oid \<Rightarrow> 'd \<Rightarrow> fdw_failure + json" where
  "slot_json h name t d =
     (if t = oid Ty_Text \<or> t = VARCHAROID \<or> t = BPCHAROID then Inr (JStr (text_to_cstring h d))
      else if t = oid Ty_Jsonb
           then (case json_from_str h (jsonb_out h d) of Some v \<Rightarrow> Inr v | None \<Rightarrow> raise_mcp (malformed_jsonb name))
      else if t = oid Ty_Boolean then Inr (JBool (bool_from_datum h d))
      else if t = oid Ty_Int4 then Inr (JNum (number_of_int (i32_from_datum h d)))
      else if t = oid Ty_Int8 then Inr (JNum (number_of_int (i64_from_datum h d)))
      else if t = oid Ty_Float8 then Inr (case f64_from_datum h d of Some r \<Rightarrow> JNum (Float r) | None \<Rightarrow> JNull)
      else if t = oid Ty_Uuid then Inr (JStr (uuid_out h d))
      else if t = oid Ty_Date then Inr (JStr (date_out h d))
      else if t = oid Ty_TimestampTz then rmap JStr (or_panic (pg_timestamptz_to_json (timestamptz_out h d)))
      else if t = oid Ty_Bytea then Inr (JStr (hex_encode_bytea (byteaout h d)))
      else raise_mcp (Internal (''column \"'' @ name @ ''\" has a type the per-tool insert path does not carry'')))"

definition read_slot_json :: "('d, 'z) fdw_host_scheme \<Rightarrow> foreign_rel \<Rightarrow> 'd slot \<Rightarrow> fdw_failure + (string \<times> json option) list" where
  "read_slot_json h rel sl =
     collect_results (\<lambda>i.
       rbind (pg_result (get_attname rel (int i + 1))) (\<lambda>name.
       rbind (pg_result (slot_getattr sl (i + 1))) (\<lambda>v.
       case v of
         None \<Rightarrow> Inr (name, None)
       | Some d \<Rightarrow> rmap (\<lambda>j. (name, Some j)) (slot_json h name (get_atttype rel (int i + 1)) d)))) [0..<natts sl]"

section \<open>Scans\<close>

text \<open>\<^verbatim>\<open>Box<dyn ScanCursor>\<close>: the cursors of the registered and the generated tables.\<close>

datatype any_cursor = Rows_Cursor rows_cursor | Buffered_Cursor buffered_cursor | Log_Cursor log_cursor

fun cursor_iter_scan :: "any_cursor iter" where
  "cursor_iter_scan (Rows_Cursor c) = rmap (map_prod id Rows_Cursor) (rows_iter_scan c)"
| "cursor_iter_scan (Buffered_Cursor c) = rmap (map_prod id Buffered_Cursor) (buffered_iter_scan c)"
| "cursor_iter_scan (Log_Cursor c) = rmap (map_prod id Log_Cursor) (log_iter_scan c)"

fun cursor_re_scan :: "any_cursor \<Rightarrow> any_cursor" where
  "cursor_re_scan (Rows_Cursor c) = Rows_Cursor (rows_re_scan c)"
| "cursor_re_scan (Buffered_Cursor c) = Buffered_Cursor (buffered_re_scan c)"
| "cursor_re_scan (Log_Cursor c) = Log_Cursor (default_re_scan c)"

definition open_cursor :: "('e \<Rightarrow> fdw_failure) \<Rightarrow> ('c \<Rightarrow> any_cursor) \<Rightarrow> ('s, 'e, 'c) effe \<Rightarrow> ('s, fdw_failure, any_cursor) effe" where
  "open_cursor err wrap m = ebind (emap_err err m) (\<lambda>c. eret (wrap c))"

definition mcp_raised :: "mcp_error \<Rightarrow> fdw_failure" where
  "mcp_raised e = Reported (raise_err e)"

fun per_tool_raised :: "(mcp_error \<Rightarrow> pg_report) \<Rightarrow> pg_failure \<Rightarrow> fdw_failure" where
  "per_tool_raised report (Mcp e) = Reported (report e)"
| "per_tool_raised report (PgRaise msg) = Raised_by_pg msg"

fun handler_begin_scan :: "env \<Rightarrow> handler \<Rightarrow> scan_context \<Rightarrow> ('z backend_scheme, fdw_failure, any_cursor) effe" where
  "handler_begin_scan env SERVER_TABLE ctx = open_cursor mcp_raised Rows_Cursor (server_begin_scan env ctx)"
| "handler_begin_scan env TOOLS_TABLE ctx = open_cursor mcp_raised Rows_Cursor (tools_begin_scan env ctx)"
| "handler_begin_scan env PROMPTS_TABLE ctx = open_cursor mcp_raised Rows_Cursor (prompts_begin_scan env ctx)"
| "handler_begin_scan env PROMPT_ARGUMENTS_TABLE ctx = open_cursor mcp_raised Rows_Cursor (prompt_arguments_begin_scan env ctx)"
| "handler_begin_scan env RESOURCES_TABLE ctx = open_cursor mcp_raised Rows_Cursor (resources_begin_scan env ctx)"
| "handler_begin_scan env RESOURCE_TEMPLATES_TABLE ctx = open_cursor mcp_raised Rows_Cursor (resource_templates_begin_scan env ctx)"
| "handler_begin_scan env RESOURCE_CONTENTS_TABLE ctx = open_cursor Reported Buffered_Cursor (resource_contents_begin_scan env ctx)"
| "handler_begin_scan env PROMPT_MESSAGES_TABLE ctx = open_cursor Reported Buffered_Cursor (prompt_messages_begin_scan env ctx)"
| "handler_begin_scan env COMPLETIONS_TABLE ctx = open_cursor Reported Buffered_Cursor (completions_begin_scan env ctx)"
| "handler_begin_scan env TOOL_CALLS_TABLE ctx = open_cursor mcp_raised Log_Cursor (tool_calls_begin_scan ctx)"

definition open_scan ::
  "env \<Rightarrow> pg_host \<Rightarrow> pg_input \<Rightarrow> foreign_rel \<Rightarrow> target \<Rightarrow> string \<Rightarrow> resolved \<Rightarrow> qual list \<Rightarrow> ('z backend_scheme, fdw_failure, any_cursor) effe"
where
  "open_scan env pg pin rel tgt server_name res quals =
     (case tgt of
        Registry entry \<Rightarrow>
          handler_begin_scan env (handler entry)
            \<lparr>sc_base = \<lparr>tc_spec = spec entry, tc_server_name = server_name, tc_resolved = res, tc_options = rel_options rel\<rparr>,
             sc_quals = quals\<rparr>
      | PerTool pt \<Rightarrow>
          ebind (elift (table_qual_for_relid rel)) (\<lambda>tq.
          open_cursor (per_tool_raised raise_err) Log_Cursor
            (per_tool_begin_scan env pg pin
              \<lparr>pc_target = pt, pc_table_qual = tq, pc_server_name = server_name, pc_resolved = res, pc_quals = quals\<rparr>)))"

text \<open>The scan state is the cursor, or \<open>None\<close> where the code leaves the pointer null.\<close>

definition begin_foreign_scan ::
  "env \<Rightarrow> pg_catalog \<Rightarrow> pg_host \<Rightarrow> pg_input \<Rightarrow> ('d, 'y) fdw_host_scheme \<Rightarrow> foreign_rel \<Rightarrow> 'd foreign_scan_plan
   \<Rightarrow> ('d node \<Rightarrow> string + 'd option) \<Rightarrow> bool \<Rightarrow> ('z backend_scheme, fdw_failure, any_cursor option) effe"
where
  "begin_foreign_scan env cat pg pin h rel p ev explain_only =
     (if explain_only then eret None
      else ebind (elift (relname_for_relid rel)) (\<lambda>relname.
           ebind (elift (resolve_for_relid cat rel)) (\<lambda>(tgt, server_name, res).
           ebind (elift (quals_from_private h (fdw_private_list p) relname)) (\<lambda>(quals, param_quals).
           ebind (elift (resolve_param_quals h (fdw_exprs p) ev param_quals)) (\<lambda>bound.
           ebind (open_scan env pg pin rel tgt server_name res (quals @ bound)) (\<lambda>c. eret (Some c)))))))"

text \<open>\<open>None\<close> in place of a tuple is the cleared slot, PostgreSQL's end of scan.\<close>

definition iterate_foreign_scan ::
  "pg_host \<Rightarrow> ('d, 'y) fdw_host_scheme \<Rightarrow> nat \<Rightarrow> any_cursor option \<Rightarrow> fdw_failure + ('d option list option \<times> any_cursor option)"
where
  "iterate_foreign_scan pg h n holder =
     (case holder of
        None \<Rightarrow> Inr (None, None)
      | Some c \<Rightarrow>
          (case cursor_iter_scan c of
             Inl e \<Rightarrow> raise_mcp e
           | Inr (None, c') \<Rightarrow> Inr (None, Some c')
           | Inr (Some row, c') \<Rightarrow> rmap (\<lambda>vs. (Some vs, Some c')) (fill_slot pg h n row)))"

definition re_scan_foreign_scan :: "any_cursor option \<Rightarrow> any_cursor option" where
  "re_scan_foreign_scan holder = map_option cursor_re_scan holder"

definition end_foreign_scan :: "any_cursor option \<Rightarrow> any_cursor option" where
  "end_foreign_scan holder = None"

section \<open>Modification\<close>

datatype cmd_type = CMD_UNKNOWN | CMD_SELECT | CMD_UPDATE | CMD_INSERT | CMD_DELETE | CMD_MERGE | CMD_UTILITY | CMD_NOTHING

datatype modify_holder = Modify_Registry table_spec string table_context | Modify_PerTool string per_tool_context

definition plan_foreign_modify :: "foreign_rel \<Rightarrow> fdw_failure + string option list" where
  "plan_foreign_modify rel =
     rbind (relname_for_relid rel) (\<lambda>name. if CHR 0x00 \<in> set name then Inl Panicked else Inr [Some name])"

fun handler_begin_modify :: "handler \<Rightarrow> table_context \<Rightarrow> table_context mcp_result" where
  "handler_begin_modify TOOL_CALLS_TABLE ctx = Inr ctx"
| "handler_begin_modify _ ctx = Inl insert_unsupported"

fun operation_name :: "cmd_type \<Rightarrow> string" where
  "operation_name CMD_UPDATE = ''UPDATE''"
| "operation_name CMD_DELETE = ''DELETE''"
| "operation_name _ = ''this operation''"

definition refused_operation :: "cmd_type \<Rightarrow> string \<Rightarrow> mcp_error" where
  "refused_operation op name = FeatureNotSupported
     (operation_name op @ '' on foreign table \"'' @ name @ ''\" is not supported; MCP tables accept INSERT only (PRD-7 ''
      @ sect_sign @ ''4.7 / PRD-8 '' @ sect_sign @ ''4.2)'')"

definition begin_foreign_modify ::
  "pg_catalog \<Rightarrow> foreign_rel \<Rightarrow> cmd_type \<Rightarrow> bool \<Rightarrow> fdw_failure + modify_holder option"
where
  "begin_foreign_modify cat rel op explain_only =
     (if explain_only then Inr None
      else if op \<noteq> CMD_INSERT
      then rbind (cstr_to_string (get_rel_name rel) ''foreign table'') (\<lambda>name. raise_mcp (refused_operation op name))
      else rbind (resolve_for_relid cat rel) (\<lambda>(tgt, server_name, res).
           case tgt of
             Registry entry \<Rightarrow>
               (case handler_begin_modify (handler entry)
                       \<lparr>tc_spec = spec entry, tc_server_name = server_name, tc_resolved = res, tc_options = rel_options rel\<rparr> of
                  Inl e \<Rightarrow> raise_mcp e
                | Inr ctx \<Rightarrow> Inr (Some (Modify_Registry (spec entry) server_name ctx)))
           | PerTool pt \<Rightarrow>
               rmap (\<lambda>tq. Some (Modify_PerTool server_name
                   \<lparr>pc_target = pt, pc_table_qual = tq, pc_server_name = server_name, pc_resolved = res, pc_quals = []\<rparr>))
                 (table_qual_for_relid rel)))"

definition insert_row_of ::
  "env \<Rightarrow> pg_host \<Rightarrow> pg_input \<Rightarrow> ('d, 'y) fdw_host_scheme \<Rightarrow> foreign_rel \<Rightarrow> 'd slot \<Rightarrow> modify_holder \<Rightarrow> ('z backend_scheme, fdw_failure, row) effe"
where
  "insert_row_of env pg pin h rel sl holder =
     (case holder of
        Modify_Registry sp server_name ctx \<Rightarrow>
          ebind (elift (read_slot h sl sp)) (\<lambda>cells.
          emap_err (\<lambda>e. Reported (raise_ctx e server_name ''tools/call''))
            (tool_calls_insert env pg ctx \<lparr>ir_spec = sp, ir_cells = cells\<rparr>))
      | Modify_PerTool server_name ctx \<Rightarrow>
          ebind (elift (read_slot_json h rel sl)) (\<lambda>supplied.
          emap_err (per_tool_raised (\<lambda>e. raise_ctx e server_name ''tools/call''))
            (per_tool_insert env pg pin ctx supplied)))"

definition exec_foreign_insert ::
  "env \<Rightarrow> pg_host \<Rightarrow> pg_input \<Rightarrow> ('d, 'y) fdw_host_scheme \<Rightarrow> foreign_rel \<Rightarrow> 'd slot \<Rightarrow> modify_holder option
   \<Rightarrow> ('z backend_scheme, fdw_failure, 'd option list) effe"
where
  "exec_foreign_insert env pg pin h rel sl holder =
     (case holder of
        None \<Rightarrow> elift (raise_mcp (Internal ''foreign insert ran before begin_foreign_modify''))
      | Some m \<Rightarrow>
          ebind (insert_row_of env pg pin h rel sl m) (\<lambda>row.
          elift (fill_slot pg h (natts sl) row)))"

definition append_only :: "string \<Rightarrow> string \<Rightarrow> mcp_error" where
  "append_only op name = FeatureNotSupported
     (op @ '' on foreign table \"'' @ name @ ''\" is not supported; the call log is append-only (PRD-7 '' @ sect_sign @ ''4.7)'')"

definition exec_foreign_update :: "foreign_rel \<Rightarrow> fdw_failure + 'd option list" where
  "exec_foreign_update rel =
     rbind (cstr_to_string (get_rel_name rel) ''foreign table'') (\<lambda>name. raise_mcp (append_only ''UPDATE'' name))"

definition exec_foreign_delete :: "foreign_rel \<Rightarrow> fdw_failure + 'd option list" where
  "exec_foreign_delete rel =
     rbind (cstr_to_string (get_rel_name rel) ''foreign table'') (\<lambda>name. raise_mcp (append_only ''DELETE'' name))"

definition end_foreign_modify :: "modify_holder option \<Rightarrow> modify_holder option" where
  "end_foreign_modify holder = None"

text \<open>Bit positions of \<^verbatim>\<open>CmdType\<close>: UPDATE 2, INSERT 3, DELETE 4.\<close>

unbundle bit_operations_syntax

definition is_foreign_rel_updatable :: int where
  "is_foreign_rel_updatable = push_bit 3 1 OR push_bit 2 1 OR push_bit 4 1"

definition is_foreign_scan_parallel_safe :: bool where
  "is_foreign_scan_parallel_safe = False"

section \<open>IMPORT FOREIGN SCHEMA\<close>

datatype import_list_type = FDW_IMPORT_SCHEMA_ALL | FDW_IMPORT_SCHEMA_LIMIT_TO | FDW_IMPORT_SCHEMA_EXCEPT

record import_stmt =
  remote_schema :: "string option"
  local_schema :: "string option"
  list_type :: import_list_type
  table_list :: "string option list"
  stmt_options :: "(string \<times> string) list"

definition wrong_schema :: "string \<Rightarrow> mcp_error" where
  "wrong_schema remote = InvalidSchemaName
     (''the mcp_fdw wrapper exports exactly one remote schema: \"mcp\", not \"'' @ remote @ ''\"'')"

definition import_filter :: "import_stmt \<Rightarrow> fdw_failure + table_filter" where
  "import_filter stmt =
     (let names = collect_results (\<lambda>n. cstr_to_string n ''table name'') (table_list stmt)
      in case list_type stmt of
           FDW_IMPORT_SCHEMA_LIMIT_TO \<Rightarrow> rmap LimitTo names
         | FDW_IMPORT_SCHEMA_EXCEPT \<Rightarrow> rmap Except names
         | FDW_IMPORT_SCHEMA_ALL \<Rightarrow> Inr FAll)"

definition import_foreign_schema :: "import_stmt \<Rightarrow> string option \<Rightarrow> fdw_failure + string list" where
  "import_foreign_schema stmt servername =
     rbind (cstr_to_string (remote_schema stmt) ''remote schema'') (\<lambda>remote.
     if remote \<noteq> ''mcp'' then raise_mcp (wrong_schema remote)
     else rbind (cstr_to_string (local_schema stmt) ''local schema'') (\<lambda>local.
          rbind (cstr_to_string servername ''foreign server'') (\<lambda>server_name.
          rbind (import_filter stmt) (\<lambda>flt.
          collect_results (\<lambda>s. if CHR 0x00 \<in> set s then raise_mcp (Internal ''DDL contained NUL'') else Inr s)
            (statements server_name local flt)))))"

section \<open>Bytes through PostgreSQL's hex form\<close>

lemma hex_digit_byte: "d < 16 \<Longrightarrow> byte (hex_digit d) = (if d < 10 then 48 + d else 87 + d)"
  by (simp add: hex_digit_def)

lemma hex_value_digit: "d < 16 \<Longrightarrow> hex_value (hex_digit d) = Some d"
  by (simp add: hex_value_def hex_digit_byte is_ascii_digit_def)

lemma hex_digit_not_plus: "d < 16 \<Longrightarrow> hex_digit d \<noteq> CHR ''+''"
  using hex_digit_byte [of d] by (auto simp: byte_def split: if_splits)

lemma u8_from_hex2: "b < 256 \<Longrightarrow> u8_from_hex (hex2 b) = Some b"
  by (simp add: u8_from_hex_def hex2_def hex_digit_not_plus hex_value_digit)

lemma hex2_pairs: "i < length bs \<Longrightarrow> take 2 (drop (2 * i) (concat (map hex2 bs))) = hex2 (bs ! i)"
  by (induction bs arbitrary: i) (auto simp: hex2_def less_Suc_eq_0_disj)

lemma hex_digit_ascii: "d < 16 \<Longrightarrow> is_ascii (hex_digit d)"
  by (simp add: is_ascii_def hex_digit_byte)

lemma hex2_ascii: "b < 256 \<Longrightarrow> list_all is_ascii (hex2 b)"
  by (simp add: hex2_def hex_digit_ascii)

lemma hex_text_ascii: "list_all (\<lambda>b. b < 256) bs \<Longrightarrow> list_all is_ascii (concat (map hex2 bs))"
  by (induction bs) (simp_all add: hex2_ascii)

lemma hex_text_length: "length (concat (map hex2 bs)) = 2 * length bs"
  by (induction bs) (simp_all add: hex2_def)

lemma hex_bytes_back: "list_all (\<lambda>b. b < 256) bs \<Longrightarrow> List.map_filter u8_from_hex (map (\<lambda>i. hex2 (bs ! i)) [0..<length bs]) = bs"
proof -
  assume b: "list_all (\<lambda>b. b < 256) bs"
  have "map (\<lambda>i. hex2 (bs ! i)) [0..<length bs] = map hex2 bs"
    by (rule nth_equalityI) simp_all
  moreover have "List.map_filter u8_from_hex (map hex2 bs) = bs" using b
    by (induction bs) (simp_all add: map_filter_simps u8_from_hex2)
  ultimately show ?thesis by simp
qed

lemma hex_decode_bytea_hex:
  assumes "list_all (\<lambda>b. b < 256) bs"
  shows "hex_decode_bytea_out (bytea_hex bs) = Some bs"
proof -
  let ?t = "concat (map hex2 bs)"
  have "slice_between (i * 2) (i * 2 + 2) ?t = Some (hex2 (bs ! i))" if "i < length bs" for i
    using that hex2_pairs [OF that] is_char_boundary_ascii [OF hex_text_ascii [OF assms]]
    by (simp add: slice_between_def hex_text_length mult.commute)
  then have "traverse (\<lambda>i. slice_between (i * 2) (i * 2 + 2) ?t) [0..<length bs] = Some (map (\<lambda>i. hex2 (bs ! i)) [0..<length bs])"
    by (intro traverse_all_Some) simp
  moreover have "strip_prefix hex_marker (bytea_hex bs) = Some ?t"
    by (simp add: strip_prefix_Some_iff bytea_hex_def)
  ultimately show ?thesis
    using hex_bytes_back [OF assms] by (simp add: hex_decode_bytea_out_def hex_text_length)
qed

section \<open>Rows through slots\<close>

text \<open>
  What the executor relies on: PostgreSQL's conversions of one type are inverse to each other, for
  text without NUL and for values in the type's range.
\<close>

definition host_faithful :: "('d, 'z) fdw_host_scheme \<Rightarrow> bool" where
  "host_faithful h \<longleftrightarrow>
     (\<forall>s. CHR 0x00 \<notin> set s \<longrightarrow> text_to_cstring h (cstring_to_text h s) = s)
     \<and> (\<forall>b. bool_from_datum h (bool_datum h b) = b)
     \<and> (\<forall>i. - (2 ^ 31) \<le> i \<and> i < 2 ^ 31 \<longrightarrow> i32_from_datum h (i32_datum h i) = i)
     \<and> (\<forall>i. - (2 ^ 63) \<le> i \<and> i < 2 ^ 63 \<longrightarrow> i64_from_datum h (i64_datum h i) = i)
     \<and> (\<forall>f. f64_from_datum h (f64_datum h f) = f)
     \<and> (\<forall>u. length u = 16 \<longrightarrow> uuid_bytes h (uuid_datum h u) = u)
     \<and> (\<forall>bs. list_all (\<lambda>b. b < 256) bs \<longrightarrow> (\<exists>d. byteain h (bytea_hex bs) = Inr d \<and> byteaout h d = bytea_hex bs))"

text \<open>Integers and bytes are in range; a JSON value or date is one PostgreSQL stores unchanged.\<close>

fun cell_storable :: "pg_host \<Rightarrow> ('d, 'z) fdw_host_scheme \<Rightarrow> cell \<Rightarrow> bool" where
  "cell_storable pg h (Cell_Json v) =
     (\<exists>d. CHR 0x00 \<notin> set (json_text pg v) \<and> jsonb_in h (json_text pg v) = Inr d \<and> json_from_str h (jsonb_out h d) = Some v)"
| "cell_storable pg h (Cell_Date s) = (\<exists>d. CHR 0x00 \<notin> set s \<and> date_in_func h s = Inr d \<and> date_out h d = s)"
| "cell_storable pg h (Cell_Int4 i) = (- (2 ^ 31) \<le> i \<and> i < 2 ^ 31)"
| "cell_storable pg h (Cell_Int8 i) = (- (2 ^ 63) \<le> i \<and> i < 2 ^ 63)"
| "cell_storable pg h (Cell_TimestampTz i) = (- (2 ^ 63) \<le> i \<and> i < 2 ^ 63)"
| "cell_storable pg h (Cell_Bytea bs) = list_all (\<lambda>b. b < 256) bs"
| "cell_storable pg h (Cell_Uuid bs) = (length bs = 16)"
| "cell_storable pg h _ = True"

fun stored_cell :: "cell \<Rightarrow> cell" where
  "stored_cell (Cell_Text s) = Cell_Text (without_nuls s)"
| "stored_cell c = c"

lemma without_nuls_free: "CHR 0x00 \<notin> set (without_nuls s)"
  unfolding without_nuls_def by (induction s) simp_all

lemma hex_digit_not_nul: "d < 16 \<Longrightarrow> hex_digit d \<noteq> CHR 0x00"
  using hex_digit_byte [of d] by (auto simp: byte_def split: if_splits)

lemma hex2_nul: "b < 256 \<Longrightarrow> CHR 0x00 \<notin> set (hex2 b)"
  using hex_digit_not_nul [of "b div 16"] hex_digit_not_nul [of "b mod 16"] by (simp add: hex2_def eq_commute)

lemma bytea_hex_nul: "list_all (\<lambda>b. b < 256) bs \<Longrightarrow> CHR 0x00 \<notin> set (bytea_hex bs)"
  by (induction bs) (simp_all add: bytea_hex_def hex_marker_def hex2_nul)

lemma host_faithfulD:
  assumes "host_faithful h"
  shows "CHR 0x00 \<notin> set s \<Longrightarrow> text_to_cstring h (cstring_to_text h s) = s"
    and "bool_from_datum h (bool_datum h b) = b"
    and "- (2 ^ 31) \<le> i \<Longrightarrow> i < 2 ^ 31 \<Longrightarrow> i32_from_datum h (i32_datum h i) = i"
    and "- (2 ^ 63) \<le> k \<Longrightarrow> k < 2 ^ 63 \<Longrightarrow> i64_from_datum h (i64_datum h k) = k"
    and "f64_from_datum h (f64_datum h f) = f"
    and "length u = 16 \<Longrightarrow> uuid_bytes h (uuid_datum h u) = u"
    and "list_all (\<lambda>b. b < 256) bs \<Longrightarrow> \<exists>d. byteain h (bytea_hex bs) = Inr d \<and> byteaout h d = bytea_hex bs"
  using assms unfolding host_faithful_def by blast+

lemma cell_roundtrip:
  assumes f: "host_faithful h" and "cell_storable pg h c"
  shows "\<exists>d. cell_to_datum pg h c = Inr d \<and> datum_to_cell h name (cell_type c) d = Inr (stored_cell c)"
proof (cases c)
  case (Cell_Bytea bs)
  with assms(2) have b: "list_all (\<lambda>b. b < 256) bs" by simp
  with host_faithfulD(7) [OF f b] Cell_Bytea show ?thesis
    by (auto simp: cstring_or_def bytea_hex_nul pg_result_def or_panic_def hex_decode_bytea_hex)
next
  case (Cell_Json v)
  with assms(2) obtain d where "CHR 0x00 \<notin> set (json_text pg v)" "jsonb_in h (json_text pg v) = Inr d"
    "json_from_str h (jsonb_out h d) = Some v" by auto
  with Cell_Json show ?thesis by (simp add: cstring_or_def pg_result_def)
next
  case (Cell_Date s)
  with assms(2) obtain d where "CHR 0x00 \<notin> set s" "date_in_func h s = Inr d" "date_out h d = s" by auto
  with Cell_Date show ?thesis by (simp add: cstring_or_def pg_result_def)
next
  case (Cell_Text s)
  then show ?thesis using host_faithfulD(1) [OF f without_nuls_free [of s]] by simp
qed (use assms(2) host_faithfulD(2-6) [OF f] in simp_all)

lemma collect_results_total:
  "(\<And>x. x \<in> set xs \<Longrightarrow> f x = Inr (g x)) \<Longrightarrow> collect_results f xs = Inr (map g xs)"
  by (induction xs) (simp_all add: rbind_def rmap_def)

definition slot_holds :: "'d slot \<Rightarrow> 'd option list \<Rightarrow> bool" where
  "slot_holds sl vs \<longleftrightarrow> natts sl = length vs \<and> (\<forall>i < length vs. slot_getattr sl (i + 1) = Inr (vs ! i))"

definition row_storable :: "pg_host \<Rightarrow> ('d, 'z) fdw_host_scheme \<Rightarrow> row \<Rightarrow> bool" where
  "row_storable pg h r \<longleftrightarrow> list_all (\<lambda>c. case c of None \<Rightarrow> True | Some x \<Rightarrow> cell_storable pg h x) r"

definition cell_datum :: "pg_host \<Rightarrow> ('d, 'z) fdw_host_scheme \<Rightarrow> row \<Rightarrow> nat \<Rightarrow> 'd option" where
  "cell_datum pg h r i = (if i < length r then map_option (\<lambda>c. projr (cell_to_datum pg h c)) (r ! i) else None)"

lemma fill_slot_total:
  assumes "host_faithful h" "row_storable pg h r"
  shows "fill_slot pg h n r = Inr (map (cell_datum pg h r) [0..<n])"
proof -
  have "\<exists>d. cell_to_datum pg h c = Inr d" if "i < length r" "r ! i = Some c" for i c
    using that assms cell_roundtrip [OF assms(1), of pg c] by (force simp: row_storable_def list_all_length)
  then have "(case if i < length r then r ! i else None of None \<Rightarrow> Inr None | Some cell \<Rightarrow> rmap Some (cell_to_datum pg h cell))
      = Inr (cell_datum pg h r i)" for i
    by (cases "i < length r"; cases "r ! i") (fastforce simp: cell_datum_def rmap_def)+
  then show ?thesis
    unfolding fill_slot_def by (rule collect_results_total)
qed

lemma slot_reads_row:
  fixes sl :: "'d slot"
  assumes h: "host_faithful h" and ty: "row_typed sp r" and st: "row_storable pg h r" and n: "arity sp \<le> n"
    and sl: "slot_holds sl (map (cell_datum pg h r) [0..<n])"
  shows "read_slot h sl sp = Inr (map (map_option stored_cell) r)"
proof -
  have len: "length r = arity sp" by (rule row_typed_length [OF ty])
  let ?f = "\<lambda>(idx, col). rbind (pg_result (slot_getattr sl (idx + 1))) (\<lambda>v.
       case v of None \<Rightarrow> Inr None | Some d \<Rightarrow> rmap Some (datum_to_cell h (col_name col) (pg_type col) d))"
  have "?f p = Inr (map_option stored_cell (r ! fst p))" if "p \<in> set (enumerate 0 (columns sp))" for p
  proof -
    obtain i col where p: "p = (i, col)" by force
    with that have i: "i < arity sp" "col = columns sp ! i" by (auto simp: in_set_enumerate_eq arity_def)
    with sl n have g: "slot_getattr sl (i + 1) = Inr (cell_datum pg h r i)" by (simp add: slot_holds_def)
    show ?thesis
    proof (cases "r ! i")
      case None
      with p g i len show ?thesis by (simp add: cell_datum_def pg_result_def rbind_def)
    next
      case (Some c)
      with ty st i len have "cell_type c = pg_type col" "cell_storable pg h c"
        by (auto simp: row_typed_def cell_fits_def list_all2_conv_all_nth row_storable_def list_all_length)
      with cell_roundtrip [OF h, of pg c "col_name col"] p g i len Some show ?thesis
        by (auto simp: cell_datum_def pg_result_def rbind_def rmap_def)
    qed
  qed
  then have "read_slot h sl sp = Inr (map (\<lambda>p. map_option stored_cell (r ! fst p)) (enumerate 0 (columns sp)))"
    unfolding read_slot_def by (rule collect_results_total)
  also have "map (\<lambda>p. map_option stored_cell (r ! fst p)) (enumerate 0 (columns sp)) = map (map_option stored_cell) r"
    using len by (intro nth_equalityI) (simp_all add: arity_def nth_enumerate_eq)
  finally show ?thesis .
qed

text \<open>C39. Rows survive the tuple slot. A row that fits a table's specification is written to a slot at least as wide,
  one datum per column and NULL beyond, and reading that slot by the same specification gives the
  row back, except that NUL characters are gone from texts. The hypotheses are those on the host:
  PostgreSQL's input and output functions are inverse, and the row's values are storable.\<close>

theorem slot_roundtrip:
  assumes h: "host_faithful h" and ty: "row_typed sp r" and st: "row_storable pg h r" and n: "arity sp \<le> n"
  shows "\<exists>vs. fill_slot pg h n r = Inr vs \<and> length vs = n \<and> (\<forall>i. arity sp \<le> i \<longrightarrow> i < n \<longrightarrow> vs ! i = None)
    \<and> (\<forall>sl. slot_holds sl vs \<longrightarrow> read_slot h sl sp = Inr (map (map_option stored_cell) r))"
proof (intro exI conjI allI impI)
  show "fill_slot pg h n r = Inr (map (cell_datum pg h r) [0..<n])" by (rule fill_slot_total [OF h st])
  show "map (cell_datum pg h r) [0..<n] ! i = None" if "arity sp \<le> i" "i < n" for i
    using that row_typed_length [OF ty] by (simp add: cell_datum_def)
qed (simp_all add: slot_reads_row [OF h ty st n])

text \<open>A host whose datums are cells.\<close>

fun cell_text :: "cell \<Rightarrow> string" where
  "cell_text (Cell_Text s) = s"
| "cell_text _ = []"

definition cell_host :: "cell fdw_host" where
  "cell_host = \<lparr>get_opcode = (\<lambda>_. 67), text_to_cstring = cell_text, jsonb_out = cell_text, uuid_out = cell_text, date_out = cell_text,
     timestamptz_out = cell_text, byteaout = cell_text, bool_from_datum = (\<lambda>d. d = Cell_Bool True),
     i32_from_datum = (\<lambda>d. case d of Cell_Int4 i \<Rightarrow> i | _ \<Rightarrow> 0), i64_from_datum = (\<lambda>d. case d of Cell_Int8 i \<Rightarrow> i | _ \<Rightarrow> 0),
     f64_from_datum = (\<lambda>d. case d of Cell_Float8 f \<Rightarrow> f | _ \<Rightarrow> None), uuid_bytes = (\<lambda>d. case d of Cell_Uuid u \<Rightarrow> u | _ \<Rightarrow> []),
     cstring_to_text = Cell_Text, jsonb_in = (\<lambda>s. Inr (Cell_Text s)), byteain = (\<lambda>s. Inr (Cell_Text s)),
     date_in_func = (\<lambda>s. Inr (Cell_Text s)), bool_datum = Cell_Bool, i32_datum = Cell_Int4, i64_datum = Cell_Int8,
     f64_datum = Cell_Float8, uuid_datum = Cell_Uuid, json_from_str = (\<lambda>s. if s = ''{}'' then Some (JObj []) else None),
     private_to_string = (\<lambda>_. None), private_from_str = (\<lambda>_. None)\<rparr>"

definition blob_row :: row where
  "blob_row = [Some (Cell_Text ''file:///a''), Some (Cell_Int4 (- 1)), None, Some (Cell_Text [CHR ''a'', CHR 0x00]),
     Some (Cell_Bytea [0, 171, 255]), Some (Cell_Json (JObj []))]"

definition cell_slot :: "cell option list \<Rightarrow> cell slot" where
  "cell_slot vs = \<lparr>natts = length vs, slot_getattr = (\<lambda>k. Inr (vs ! (k - 1)))\<rparr>"

lemma cell_host_faithful: "host_faithful cell_host"
  by (simp add: host_faithful_def cell_host_def)

theorem slot_roundtrip_witness:
  "\<exists>vs. fill_slot random_host cell_host 7 blob_row = Inr vs \<and> length vs = 7
    \<and> read_slot cell_host (cell_slot vs) RESOURCE_CONTENTS_SPEC
      = Inr [Some (Cell_Text ''file:///a''), Some (Cell_Int4 (- 1)), None, Some (Cell_Text ''a''),
             Some (Cell_Bytea [0, 171, 255]), Some (Cell_Json (JObj []))]"
proof -
  have t: "row_typed RESOURCE_CONTENTS_SPEC blob_row"
    by (simp add: row_typed_def RESOURCE_CONTENTS_SPEC_def blob_row_def cell_fits_def)
  have s: "row_storable random_host cell_host blob_row"
    by (simp add: row_storable_def blob_row_def cell_host_def random_host_def)
  have n: "arity RESOURCE_CONTENTS_SPEC \<le> 7" by (simp add: arity_def RESOURCE_CONTENTS_SPEC_def)
  have c: "slot_holds (cell_slot vs) vs" for vs by (simp add: slot_holds_def cell_slot_def)
  have m: "map (map_option stored_cell) blob_row
      = [Some (Cell_Text ''file:///a''), Some (Cell_Int4 (- 1)), None, Some (Cell_Text ''a''),
         Some (Cell_Bytea [0, 171, 255]), Some (Cell_Json (JObj []))]"
    by (simp add: blob_row_def without_nuls_def)
  obtain vs where vs: "fill_slot random_host cell_host 7 blob_row = Inr vs" "length vs = 7"
    "\<forall>sl. slot_holds sl vs \<longrightarrow> read_slot cell_host sl RESOURCE_CONTENTS_SPEC = Inr (map (map_option stored_cell) blob_row)"
    using slot_roundtrip [OF cell_host_faithful t s n] by (elim exE conjE)
  have "read_slot cell_host (cell_slot vs) RESOURCE_CONTENTS_SPEC = Inr (map (map_option stored_cell) blob_row)"
    by (rule vs(3) [rule_format, OF c])
  with vs(1,2) show ?thesis unfolding m by (intro exI conjI)
qed

section \<open>What may be modified\<close>

lemma target_registry:
  assumes "target_for_relid rel = Inr (Registry entry)" "get_rel_name rel = Some name"
  shows "entry \<in> set REGISTRY \<and> ts_name (spec entry) = name"
  using assms
  by (auto simp: target_for_relid_def relname_for_relid_def cstr_to_string_def rbind_def find_table_def find_Some_iff
      split: option.splits if_splits)

lemma handler_begin_modify_Inr: "handler_begin_modify hdl ctx = Inr ctx' \<longleftrightarrow> hdl = TOOL_CALLS_TABLE \<and> ctx' = ctx"
  by (cases hdl) auto

lemma registry_tool_calls: "entry \<in> set REGISTRY \<Longrightarrow> handler entry = TOOL_CALLS_TABLE \<longleftrightarrow> ts_name (spec entry) = ''tool_calls''"
  by (auto simp: REGISTRY_def spec_defs)

lemma registry_spec: "entry \<in> set REGISTRY \<Longrightarrow> handler entry = TOOL_CALLS_TABLE \<Longrightarrow> spec entry = TOOL_CALLS_SPEC"
  by (auto simp: REGISTRY_def)

definition unsupported :: "fdw_failure + 'a \<Rightarrow> bool" where
  "unsupported r \<longleftrightarrow> (\<exists>rep. r = Inl (Reported rep) \<and> rep_code rep = ERRCODE_FEATURE_NOT_SUPPORTED)"

lemma unsupported_raise [simp]: "unsupported (raise_mcp (FeatureNotSupported msg))"
  by (simp add: unsupported_def raise_mcp_def raise_err_def)

lemma resolve_for_relid_Inr:
  "resolve_for_relid cat rel = Inr (tgt, server_name, res) \<longleftrightarrow>
     target_for_relid rel = Inr tgt \<and> server_name_for_relid rel = Inr server_name \<and> resolve cat server_name = Inr res"
  by (cases "target_for_relid rel"; cases "server_name_for_relid rel")
    (auto simp: resolve_for_relid_def rbind_def split: sum.splits)

lemma begin_modify_Inr:
  assumes "begin_foreign_modify cat rel op False = Inr m"
  obtains (Reg) entry server_name res where "op = CMD_INSERT" "resolve_for_relid cat rel = Inr (Registry entry, server_name, res)"
      "handler entry = TOOL_CALLS_TABLE"
      "m = Some (Modify_Registry (spec entry) server_name
         \<lparr>tc_spec = spec entry, tc_server_name = server_name, tc_resolved = res, tc_options = rel_options rel\<rparr>)"
  | (Tool) pt server_name res tq where "op = CMD_INSERT" "resolve_for_relid cat rel = Inr (PerTool pt, server_name, res)"
      "table_qual_for_relid rel = Inr tq"
      "m = Some (Modify_PerTool server_name
         \<lparr>pc_target = pt, pc_table_qual = tq, pc_server_name = server_name, pc_resolved = res, pc_quals = []\<rparr>)"
proof -
  have op: "op = CMD_INSERT"
    using assms by (auto simp: begin_foreign_modify_def rbind_eq_Inr_iff split: if_splits)
  then obtain tgt server_name res where r: "resolve_for_relid cat rel = Inr (tgt, server_name, res)"
    using assms by (auto simp: begin_foreign_modify_def rbind_eq_Inr_iff)
  show thesis
  proof (cases tgt)
    case (Registry entry)
    show thesis
    proof (rule Reg)
      show "handler entry = TOOL_CALLS_TABLE"
        using assms r op Registry by (cases "handler entry") (simp_all add: begin_foreign_modify_def rbind_def)
      then show "m = Some (Modify_Registry (spec entry) server_name
         \<lparr>tc_spec = spec entry, tc_server_name = server_name, tc_resolved = res, tc_options = rel_options rel\<rparr>)"
        using assms r op Registry by (simp add: begin_foreign_modify_def rbind_def)
    qed (use r op Registry in simp_all)
  next
    case (PerTool pt)
    with assms r op obtain tq where "table_qual_for_relid rel = Inr tq"
      "m = Some (Modify_PerTool server_name
         \<lparr>pc_target = pt, pc_table_qual = tq, pc_server_name = server_name, pc_resolved = res, pc_quals = []\<rparr>)"
      by (auto simp: begin_foreign_modify_def rbind_def rmap_eq_Inr_iff)
    with r op PerTool show thesis by (intro Tool) simp_all
  qed
qed

text \<open>C40. Only INSERT modifies, and only where it is a tool call. UPDATE, DELETE and MERGE are refused with 0A000 when
  the statement starts and again per row; a registered table other than \<^verbatim>\<open>tool_calls\<close> refuses INSERT
  with 0A000; a table that is neither registered nor generated is refused with 0A000 for scans as
  well. Whatever a started modification holds is the call log of a resolved server, or one
  generated table with no quals, for the current role's own credential.\<close>

theorem only_inserts_modify:
  assumes name: "get_rel_name rel = Some name"
  shows "(op \<noteq> CMD_INSERT \<longrightarrow> unsupported (begin_foreign_modify cat rel op False))
    \<and> unsupported (exec_foreign_update rel) \<and> unsupported (exec_foreign_delete rel)
    \<and> (find_table name \<noteq> None \<and> name \<noteq> ''tool_calls'' \<and> resolve_for_relid cat rel = Inr (tgt, sn, res)
         \<longrightarrow> unsupported (begin_foreign_modify cat rel CMD_INSERT False))
    \<and> (find_table name = None \<and> (rel_option rel ''tool'' = None \<or> rel_option rel ''tool'' = Some [])
         \<longrightarrow> unsupported (resolve_for_relid cat rel) \<and> unsupported (begin_foreign_modify cat rel CMD_INSERT False))
    \<and> (begin_foreign_modify cat rel op False = Inr m \<longrightarrow>
         op = CMD_INSERT \<and> (\<exists>server_name res.
           resolve cat server_name = Inr res
           \<and> ((\<exists>ctx. m = Some (Modify_Registry TOOL_CALLS_SPEC server_name ctx) \<and> tc_resolved ctx = res \<and> name = ''tool_calls'')
              \<or> (\<exists>ctx. m = Some (Modify_PerTool server_name ctx) \<and> pc_resolved ctx = res \<and> pc_quals ctx = []
                   \<and> pt_tool (pc_target ctx) \<noteq> [] \<and> find_table name = None))))"
proof (intro conjI impI, goal_cases)
  case 1
  then show ?case using name by (simp add: begin_foreign_modify_def cstr_to_string_def refused_operation_def rbind_def)
next
  case 2
  then show ?case using name by (simp add: exec_foreign_update_def cstr_to_string_def append_only_def rbind_def)
next
  case 3
  then show ?case using name by (simp add: exec_foreign_delete_def cstr_to_string_def append_only_def rbind_def)
next
  case 4
  then obtain e where e: "find_table name = Some e" by blast
  then have t: "target_for_relid rel = Inr (Registry e)"
    using name by (simp add: target_for_relid_def relname_for_relid_def cstr_to_string_def rbind_def)
  with 4 have "tgt = Registry e" by (simp add: resolve_for_relid_Inr)
  moreover have "handler e \<noteq> TOOL_CALLS_TABLE" using target_registry [OF t name] registry_tool_calls 4 by blast
  then have "handler_begin_modify (handler e) c = Inl insert_unsupported" for c by (cases "handler e") simp_all
  ultimately show ?case using 4 by (simp add: begin_foreign_modify_def rbind_def insert_unsupported_def)
next
  case 5
  then have "target_for_relid rel = raise_mcp (unmanaged_table name)"
    using name by (auto simp: target_for_relid_def relname_for_relid_def cstr_to_string_def rbind_def)
  then show ?case by (simp add: resolve_for_relid_def rbind_def raise_mcp_def unsupported_def raise_err_def unmanaged_table_def)
next
  case 6
  then have "target_for_relid rel = raise_mcp (unmanaged_table name)"
    using name by (auto simp: target_for_relid_def relname_for_relid_def cstr_to_string_def rbind_def)
  then show ?case
    by (simp add: begin_foreign_modify_def resolve_for_relid_def rbind_def raise_mcp_def unsupported_def raise_err_def unmanaged_table_def)
next
  case 7
  then show ?case by (cases rule: begin_modify_Inr)
next
  case 8
  then show ?case
  proof (cases rule: begin_modify_Inr)
    case (Reg entry server_name res)
    then have "target_for_relid rel = Inr (Registry entry)" by (simp add: resolve_for_relid_Inr)
    with Reg target_registry [OF this name] registry_spec registry_tool_calls show ?thesis
      by (auto simp: resolve_for_relid_Inr)
  next
    case (Tool pt server_name res tq)
    then have "target_for_relid rel = Inr (PerTool pt)" by (simp add: resolve_for_relid_Inr)
    then have "pt_tool pt \<noteq> []" "find_table name = None"
      using name by (auto simp: target_for_relid_def relname_for_relid_def cstr_to_string_def rbind_def split: option.splits if_splits)
    with Tool show ?thesis by (auto simp: resolve_for_relid_Inr)
  qed
qed

theorem only_inserts_modify_witness:
  "unsupported (begin_foreign_modify loop_catalog tools_rel CMD_UPDATE False) \<and> unsupported (exec_foreign_delete tools_rel)"
proof -
  have "get_rel_name tools_rel = Some ''tools''" by (simp add: tools_rel_def)
  from only_inserts_modify [OF this, of CMD_UPDATE loop_catalog] show ?thesis by blast
qed

section \<open>Importing\<close>

lemma import_wrong_schema:
  "remote_schema stmt = Some s \<Longrightarrow> s \<noteq> ''mcp'' \<Longrightarrow> import_foreign_schema stmt server = raise_mcp (wrong_schema s)"
  by (simp add: import_foreign_schema_def cstr_to_string_def rbind_def)

text \<open>The statement's OPTIONS are not read: with or without \<^verbatim>\<open>per_tool 'true'\<close> the same tables are created.\<close>

lemma import_ignores_options: "import_foreign_schema (stmt\<lparr>stmt_options := opts\<rparr>) server = import_foreign_schema stmt server"
  by (simp add: import_foreign_schema_def import_filter_def cong: if_cong)

section \<open>Cursors\<close>

fun cursor_rows :: "any_cursor \<Rightarrow> row list" where
  "cursor_rows (Rows_Cursor c) = drop (rc_position c) (rc_rows c)"
| "cursor_rows (Buffered_Cursor c) = drop (bc_pos c) (bc_rows c)"
| "cursor_rows (Log_Cursor c) = lc_rows c"

interpretation any: scan_cursor cursor_iter_scan cursor_rows
proof
  show "\<exists>c'. cursor_iter_scan c = Inr (None, c') \<and> cursor_rows c' = []" if "cursor_rows c = []" for c
  proof (cases c)
    case (Rows_Cursor d)
    with that rows.iter_done [of d] show ?thesis by (auto simp: rmap_def intro: exI [of _ "Rows_Cursor _"])
  next
    case (Buffered_Cursor d)
    with that buffered.iter_done [of d] show ?thesis by (auto simp: rmap_def intro: exI [of _ "Buffered_Cursor _"])
  next
    case (Log_Cursor d)
    with that log.iter_done [of d] show ?thesis by (auto simp: rmap_def intro: exI [of _ "Log_Cursor _"])
  qed
  show "\<exists>c'. cursor_iter_scan c = Inr (Some r, c') \<and> cursor_rows c' = rs" if "cursor_rows c = r # rs" for c r rs
  proof (cases c)
    case (Rows_Cursor d)
    with that rows.iter_row [of d r rs] show ?thesis by (auto simp: rmap_def intro: exI [of _ "Rows_Cursor _"])
  next
    case (Buffered_Cursor d)
    with that buffered.iter_row [of d r rs] show ?thesis by (auto simp: rmap_def intro: exI [of _ "Buffered_Cursor _"])
  next
    case (Log_Cursor d)
    with that log.iter_row [of d r rs] show ?thesis by (auto simp: rmap_def intro: exI [of _ "Log_Cursor _"])
  qed
qed

text \<open>PostgreSQL asks for tuples until the slot stays empty; \<open>fuel\<close> bounds the asking.\<close>

fun fetch_tuples :: "pg_host \<Rightarrow> ('d, 'y) fdw_host_scheme \<Rightarrow> nat \<Rightarrow> nat \<Rightarrow> any_cursor option \<Rightarrow> (fdw_failure + 'd option list list) option" where
  "fetch_tuples pg h n 0 st = None"
| "fetch_tuples pg h n (Suc fuel) st =
     (case iterate_foreign_scan pg h n st of
        Inl e \<Rightarrow> Some (Inl e)
      | Inr (None, _) \<Rightarrow> Some (Inr [])
      | Inr (Some vs, st') \<Rightarrow> map_option (rmap (\<lambda>ts. vs # ts)) (fetch_tuples pg h n fuel st'))"

lemma fetch_tuples_all:
  assumes "host_faithful h" "list_all (row_storable pg h) (cursor_rows c)" "length (cursor_rows c) < fuel"
  shows "fetch_tuples pg h n fuel (Some c) = Some (Inr (map (\<lambda>r. map (cell_datum pg h r) [0..<n]) (cursor_rows c)))"
  using assms(2,3)
proof (induction fuel arbitrary: c)
  case (Suc fuel)
  show ?case
  proof (cases "cursor_rows c")
    case Nil
    with any.iter_done [OF Nil] show ?thesis by (auto simp: iterate_foreign_scan_def)
  next
    case (Cons r rs)
    then obtain c' where c': "cursor_iter_scan c = Inr (Some r, c')" "cursor_rows c' = rs" using any.iter_row by blast
    with Suc Cons have "fetch_tuples pg h n fuel (Some c') = Some (Inr (map (\<lambda>r. map (cell_datum pg h r) [0..<n]) rs))" by auto
    moreover have "fill_slot pg h n r = Inr (map (cell_datum pg h r) [0..<n])"
      using Suc.prems(1) Cons assms(1) by (simp add: fill_slot_total)
    ultimately show ?thesis using c' Cons by (simp add: iterate_foreign_scan_def rmap_def)
  qed
qed simp

end
