(* ===== verification/Scan_Facts.thy ===== *)
theory Scan_Facts
  imports Fdw
begin

text \<open>
  Facts about the handlers as the executor reaches them, shared by the properties of the whole
  extension: a small logic of results (what a computation guarantees of its value when it
  succeeds), with which every registered table is shown to yield rows of its specification, and
  the confinement of every scan and insert to one role.
\<close>

section \<open>Guarantees of results\<close>

definition ensures :: "('a \<Rightarrow> bool) \<Rightarrow> ('s, 'e, 'a) effe \<Rightarrow> bool" where
  "ensures P m \<longleftrightarrow> (\<forall>s x s'. m s = (Inr x, s') \<longrightarrow> P x)"

lemma ensuresD: "ensures P m \<Longrightarrow> m s = (Inr x, s') \<Longrightarrow> P x"
  by (auto simp: ensures_def)

named_theorems ensures_intros

lemma ensures_ret [ensures_intros]: "P x \<Longrightarrow> ensures P (eret x)"
  by (simp add: ensures_def eret_apply)

lemma ensures_lift [ensures_intros]: "(\<And>x. r = Inr x \<Longrightarrow> P x) \<Longrightarrow> ensures P (elift r)"
  by (simp add: ensures_def elift_apply)

lemma ensures_any: "ensures (\<lambda>_. True) m"
  by (simp add: ensures_def)

lemma ensures_bind: "ensures Q m \<Longrightarrow> (\<And>x. Q x \<Longrightarrow> ensures P (f x)) \<Longrightarrow> ensures P (ebind m f)"
  unfolding ensures_def ebind_Inr by blast

lemma ensures_then: "(\<And>x. ensures P (f x)) \<Longrightarrow> ensures P (ebind m f)"
  by (rule ensures_bind [OF ensures_any])

lemma ensures_map_err [ensures_intros]: "ensures P m \<Longrightarrow> ensures P (emap_err g m)"
  by (auto simp: ensures_def emap_err_Inr)

lemma ensures_emap [ensures_intros]: "(\<And>x. x \<in> set xs \<Longrightarrow> ensures P (f x)) \<Longrightarrow> ensures (list_all P) (emap f xs)"
proof (induction xs)
  case (Cons y ys)
  have "ensures (list_all P) (ebind (emap f ys) (\<lambda>zs. eret (z # zs)))" if "P z" for z
    using that Cons by (intro ensures_bind [of "list_all P"] ensures_ret) simp_all
  then show ?case using Cons.prems by (simp add: ensures_bind [of P])
qed (simp add: ensures_ret)

lemma ensures_with_session: "(\<And>tr. ensures P (f tr)) \<Longrightarrow> ensures P (with_session env res f)"
  unfolding ensures_def with_session_def by (fastforce split: prod.splits sum.splits)

section \<open>Every registered table yields rows of its specification\<close>

abbreviation (input) typed_rows :: "table_spec \<Rightarrow> row list \<Rightarrow> bool" where
  "typed_rows sp \<equiv> list_all (row_typed sp)"

lemma typed_post_filters: "typed_rows sp rows \<Longrightarrow> typed_rows sp (apply_post_filters sp rows quals pushed)"
  by (auto simp: apply_post_filters_def Let_def list_all_iff)

lemma typed_map: "(\<And>x. row_typed sp (f x)) \<Longrightarrow> typed_rows sp (map f xs)"
  by (simp add: list_all_iff)

lemma typed_concat: "list_all (typed_rows sp) rss \<Longrightarrow> typed_rows sp (concat rss)"
  by (auto simp: list_all_iff)

lemma ensures_rows:
  "(\<And>x. ensures (typed_rows sp) (f x)) \<Longrightarrow> ensures (typed_rows sp) (ebind (emap f xs) (\<lambda>rss. eret (concat rss)))"
  by (intro ensures_bind [of "list_all (typed_rows sp)"] ensures_emap ensures_ret typed_concat)

lemma catalog_scans_typed:
  "tc_spec (sc_base ctx) = TOOLS_SPEC \<Longrightarrow> ensures (\<lambda>c. typed_rows TOOLS_SPEC (rc_rows c)) (tools_begin_scan env ctx)"
  "tc_spec (sc_base ctx) = PROMPTS_SPEC \<Longrightarrow> ensures (\<lambda>c. typed_rows PROMPTS_SPEC (rc_rows c)) (prompts_begin_scan env ctx)"
  "tc_spec (sc_base ctx) = PROMPT_ARGUMENTS_SPEC \<Longrightarrow> ensures (\<lambda>c. typed_rows PROMPT_ARGUMENTS_SPEC (rc_rows c)) (prompt_arguments_begin_scan env ctx)"
  "tc_spec (sc_base ctx) = RESOURCES_SPEC \<Longrightarrow> ensures (\<lambda>c. typed_rows RESOURCES_SPEC (rc_rows c)) (resources_begin_scan env ctx)"
  "tc_spec (sc_base ctx) = RESOURCE_TEMPLATES_SPEC \<Longrightarrow> ensures (\<lambda>c. typed_rows RESOURCE_TEMPLATES_SPEC (rc_rows c)) (resource_templates_begin_scan env ctx)"
  unfolding catalog_scans Let_def
  by (simp_all add: rows_cursor_new_def ensures_then ensures_intros typed_post_filters typed_map list_all_iff [of _ "prompt_argument_rows _ _"]
      tools_row_typed prompts_row_typed prompt_argument_rows_typed resources_row_typed resource_templates_row_typed)

lemma server_session_row_typed: "row_typed SERVER_SPEC (server_session_row SERVER_SPEC s (server_identity_row SERVER_SPEC ctx))"
  unfolding server_session_row_def server_identity_row_def comp_def
  by (intro row_typed_set row_typed_empty) (auto simp: column_type_eval SERVER_SPEC_def)

lemma server_scan_typed:
  assumes "tc_spec (sc_base ctx) = SERVER_SPEC"
  shows "ensures (\<lambda>c. typed_rows SERVER_SPEC (rc_rows c)) (server_begin_scan env ctx)"
proof -
  let ?P = "\<lambda>(r, i). row_typed SERVER_SPEC r \<and> cell_fits Ty_Text i"
  let ?f = "\<lambda>tr (s, b). ebind (get_or_fetch snd apsnd (cache_key (sc_base ctx)) (effective_ttl (sc_base ctx)) Slice_Initialize
                (ebind (session_request env tr ''initialize'' initialize_params) (\<lambda>result. eret [result])))
          (\<lambda>init. eret (server_session_row SERVER_SPEC s (server_identity_row SERVER_SPEC (sc_base ctx)),
                        case init of [] \<Rightarrow> None | result # _ \<Rightarrow> text_at result ''instructions'')) (s, b)"
  have f: "ensures ?P (?f tr)" for tr
  proof -
    have "cell_fits Ty_Text (case init of [] \<Rightarrow> None | result # _ \<Rightarrow> text_at result ''instructions'')" for init
      by (cases init) simp_all
    then show ?thesis by (auto simp: ensures_def ebind_Inr eret_apply server_session_row_typed)
  qed
  have s: "ensures ?P (with_session env (tc_resolved (sc_base ctx)) ?f)"
    by (rule ensures_with_session) (rule f)
  have set: "row_typed SERVER_SPEC (set_cell SERVER_SPEC ''instructions'' i r)" if "?P (r, i)" for r i
    using that by (auto intro!: row_typed_set simp: column_type_eval SERVER_SPEC_def)
  show ?thesis
    unfolding server_begin_scan_def Let_def assms
    by (rule ensures_bind [OF s]) (auto intro!: ensures_intros set simp: rows_cursor_new_def)
qed

lemma typed_enumerate: "(\<And>i x. row_typed sp (f (i, x))) \<Longrightarrow> typed_rows sp (map f xs)"
  by (auto simp: list_all_iff)

lemma resource_contents_typed:
  assumes "tc_spec (sc_base ctx) = RESOURCE_CONTENTS_SPEC"
  shows "ensures (\<lambda>c. typed_rows RESOURCE_CONTENTS_SPEC (bc_rows c)) (resource_contents_begin_scan env ctx)"
proof -
  have "typed_rows RESOURCE_CONTENTS_SPEC rs"
    if c: "collect_results (\<lambda>(idx, content). resource_content_row RESOURCE_CONTENTS_SPEC uri idx content) xs = Inr rs" for uri xs rs
  proof -
    have "row_typed RESOURCE_CONTENTS_SPEC r" if r: "r \<in> set rs" for r
      using collect_results_in [OF c r] by (auto intro: resource_content_row_typed)
    then show ?thesis by (simp add: list_all_iff)
  qed
  then have "ensures (typed_rows RESOURCE_CONTENTS_SPEC) (resource_contents_rows env ctx)"
    unfolding resource_contents_rows_def Let_def assms
    by (intro ensures_then [OF ensures_rows] ensures_then [OF ensures_lift])
  then show ?thesis
    unfolding resource_contents_begin_scan_def readthrough_begin_scan_def
    by (intro ensures_bind [of "typed_rows RESOURCE_CONTENTS_SPEC"] ensures_intros) (simp_all add: buffered_new_def)
qed

lemma prompt_messages_typed:
  assumes "tc_spec (sc_base ctx) = PROMPT_MESSAGES_SPEC"
  shows "ensures (\<lambda>c. typed_rows PROMPT_MESSAGES_SPEC (bc_rows c)) (prompt_messages_begin_scan env ctx)"
proof -
  have "ensures (typed_rows PROMPT_MESSAGES_SPEC) (prompt_messages_rows env ctx)"
  proof (cases "restricted (sc_quals ctx) ''prompt''")
    case None
    then show ?thesis by (auto simp: prompt_messages_rows_def ensures_def elift_apply)
  next
    case (Some prompts)
    then show ?thesis
      unfolding prompt_messages_rows_def Let_def assms Some option.case
      by (intro ensures_rows) (auto intro!: ensures_then [OF ensures_ret] typed_enumerate simp: prompt_message_row_typed)
  qed
  then show ?thesis
    unfolding prompt_messages_begin_scan_def readthrough_begin_scan_def
    by (intro ensures_bind [of "typed_rows PROMPT_MESSAGES_SPEC"] ensures_intros) (simp_all add: buffered_new_def)
qed

lemma completions_typed:
  assumes "tc_spec (sc_base ctx) = COMPLETIONS_SPEC"
  shows "ensures (\<lambda>c. typed_rows COMPLETIONS_SPEC (bc_rows c)) (completions_begin_scan env ctx)"
proof -
  have "ensures (typed_rows COMPLETIONS_SPEC) (completions_rows env ctx)"
    unfolding completions_rows_def Let_def assms
    by (rule ensures_then, rule ensures_rows)
      (auto intro!: ensures_then [OF ensures_ret] typed_enumerate simp: completion_row_typed)
  then show ?thesis
    unfolding completions_begin_scan_def readthrough_begin_scan_def
    by (intro ensures_bind [of "typed_rows COMPLETIONS_SPEC"] ensures_intros) (simp_all add: buffered_new_def)
qed

lemma tool_calls_typed: "ensures (\<lambda>c. typed_rows TOOL_CALLS_SPEC (lc_rows c)) (tool_calls_begin_scan ctx)"
  by (auto simp: ensures_def tool_calls_begin_scan_def list_all_iff row_from_record_typed)

lemma ensures_open:
  "ensures Q m \<Longrightarrow> (\<And>c. Q c \<Longrightarrow> P (wrap c)) \<Longrightarrow> ensures P (open_cursor err wrap m)"
  unfolding open_cursor_def by (intro ensures_bind [of Q] ensures_intros)

lemma typed_drop: "typed_rows sp rs \<Longrightarrow> typed_rows sp (drop n rs)"
  by (auto simp: list_all_iff dest: in_set_dropD)

lemma open_typed:
  "ensures (\<lambda>c. typed_rows sp (rc_rows c)) m \<Longrightarrow> ensures (\<lambda>c. typed_rows sp (cursor_rows c)) (open_cursor err Rows_Cursor m)"
  "ensures (\<lambda>c. typed_rows sp (bc_rows c)) m' \<Longrightarrow> ensures (\<lambda>c. typed_rows sp (cursor_rows c)) (open_cursor err' Buffered_Cursor m')"
  "ensures (\<lambda>c. typed_rows sp (lc_rows c)) m'' \<Longrightarrow> ensures (\<lambda>c. typed_rows sp (cursor_rows c)) (open_cursor err'' Log_Cursor m'')"
  by (erule ensures_open, simp add: typed_drop)+

lemma handler_scan_typed:
  assumes "entry \<in> set REGISTRY" "tc_spec (sc_base ctx) = spec entry"
  shows "ensures (\<lambda>c. typed_rows (spec entry) (cursor_rows c)) (handler_begin_scan env (handler entry) ctx)"
  using assms
  by (auto simp: REGISTRY_def open_typed catalog_scans_typed server_scan_typed resource_contents_typed prompt_messages_typed
      completions_typed tool_calls_typed)

section \<open>Every scan and insert stays with its role\<close>

lemma confined_touches_evolves: "evolves (confined res :: 'z backend_scheme \<Rightarrow> _) m \<Longrightarrow> evolves (touches res) m"
  by (auto simp: evolves_def intro: touch_scope.scope_confined)

lemma open_cursor_touches: "evolves (touches res) m \<Longrightarrow> evolves (touches res) (open_cursor err wrap m)"
  unfolding open_cursor_def by (intro touch_scope.evo_bind touch_scope.evo_map_err touch_scope.evo_ret)

lemma open_own_touches: "evolves (own res :: 'z backend_scheme \<Rightarrow> _) m \<Longrightarrow> evolves (touches res) (open_cursor err wrap m)"
  by (intro open_cursor_touches own_touches_evolves)

lemma open_confined_touches: "evolves (confined res :: 'z backend_scheme \<Rightarrow> _) m \<Longrightarrow> evolves (touches res) (open_cursor err wrap m)"
  by (intro open_cursor_touches confined_touches_evolves)

lemma tool_calls_scan_touches: "evolves (touches res :: 'z backend_scheme \<Rightarrow> _) (tool_calls_begin_scan ctx)"
  by (simp add: evolves_def tool_calls_begin_scan_def touch_scope.evo_refl)

lemma handler_scan_touches:
  "evolves (touches (tc_resolved (sc_base ctx)) :: 'z backend_scheme \<Rightarrow> _) (handler_begin_scan env hdl ctx)"
  by (cases hdl)
    (simp_all add: open_own_touches open_confined_touches open_cursor_touches server_scan_own catalog_scan_own readthrough_confined
      tool_calls_scan_touches)

lemma open_scan_touches:
  "evolves (touches res :: 'z backend_scheme \<Rightarrow> _) (open_scan env pg pin rel tgt server_name res quals)"
proof (cases tgt)
  case (Registry entry)
  then show ?thesis
    using handler_scan_touches [of "\<lparr>sc_base = \<lparr>tc_spec = spec entry, tc_server_name = server_name, tc_resolved = res,
      tc_options = rel_options rel\<rparr>, sc_quals = quals\<rparr>" env "handler entry"]
    by (simp add: open_scan_def)
next
  case (PerTool pt)
  have "evolves (touches res :: 'z backend_scheme \<Rightarrow> _) (per_tool_begin_scan env pg pin
      \<lparr>pc_target = pt, pc_table_qual = tq, pc_server_name = server_name, pc_resolved = res, pc_quals = quals\<rparr>)" for tq
    using per_tool_scan_touches [of "\<lparr>pc_target = pt, pc_table_qual = tq, pc_server_name = server_name, pc_resolved = res, pc_quals = quals\<rparr>" env pg pin]
    by simp
  then show ?thesis
    unfolding open_scan_def PerTool target.case
    by (intro touch_scope.evo_bind touch_scope.evo_lift open_cursor_touches)
qed

lemma begin_scan_resolves:
  assumes "begin_foreign_scan env cat pg pin h rel p ev False b = (r, b')"
  shows "(\<exists>tgt server_name res quals r'. resolve_for_relid cat rel = Inr (tgt, server_name, res)
           \<and> open_scan env pg pin rel tgt server_name res quals b = (r', b')
           \<and> rmap Some r' = r)
    \<or> (\<exists>e. r = Inl e \<and> b' = b)"
  using assms
  by (auto simp: begin_foreign_scan_def ebind_def elift_def eret_def rmap_def split: sum.splits prod.splits)

lemma begin_scan_touches:
  assumes "resolve_for_relid cat rel = Inr (tgt, server_name, res)"
  shows "evolves (touches res :: 'z backend_scheme \<Rightarrow> _) (begin_foreign_scan env cat pg pin h rel p ev e)"
  unfolding begin_foreign_scan_def assms elift_def ebind_def
  by (cases e) (auto intro!: evolvesI simp: eret_def touch_scope.evo_refl split: sum.splits prod.splits
     dest: evolvesD [OF open_scan_touches])

lemma begin_scan_typed:
  assumes "begin_foreign_scan env cat pg pin h rel p ev False b = (Inr (Some c), b')"
    and t: "target_for_relid rel = Inr (Registry entry)" and n: "get_rel_name rel = Some name"
  shows "typed_rows (spec entry) (cursor_rows c)"
proof -
  from begin_scan_resolves [OF assms(1)] obtain tgt server_name res quals where
    r: "resolve_for_relid cat rel = Inr (tgt, server_name, res)"
    and o: "open_scan env pg pin rel tgt server_name res quals b = (Inr c, b')"
    by (auto simp: rmap_eq_Inr_iff)
  with t have "tgt = Registry entry" by (simp add: resolve_for_relid_Inr)
  with o have "handler_begin_scan env (handler entry)
      \<lparr>sc_base = \<lparr>tc_spec = spec entry, tc_server_name = server_name, tc_resolved = res, tc_options = rel_options rel\<rparr>,
       sc_quals = quals\<rparr> b = (Inr c, b')" by (simp add: open_scan_def)
  with ensuresD [OF handler_scan_typed this] target_registry [OF t n] show ?thesis by simp
qed

lemma insert_touches:
  assumes "begin_foreign_modify cat rel op False = Inr m"
  shows "\<exists>tgt server_name res. resolve_for_relid cat rel = Inr (tgt, server_name, res)
    \<and> evolves (touches res :: 'z backend_scheme \<Rightarrow> _) (exec_foreign_insert env pg pin h rel sl m)"
  using assms
proof (cases rule: begin_modify_Inr)
  case (Reg entry server_name res)
  let ?ctx = "\<lparr>tc_spec = spec entry, tc_server_name = server_name, tc_resolved = res, tc_options = rel_options rel\<rparr>"
  have "evolves (touches res :: 'z backend_scheme \<Rightarrow> _) (tool_calls_insert env pg ?ctx inp)" for inp
    using tool_calls_insert_touches [of ?ctx env pg inp] by simp
  then have "evolves (touches res :: 'z backend_scheme \<Rightarrow> _) (exec_foreign_insert env pg pin h rel sl m)"
    unfolding exec_foreign_insert_def Reg(4) option.case insert_row_of_def modify_holder.case
    by (intro touch_scope.evo_bind touch_scope.evo_lift touch_scope.evo_map_err)
  with Reg show ?thesis by blast
next
  case (Tool pt server_name res tq)
  let ?ctx = "\<lparr>pc_target = pt, pc_table_qual = tq, pc_server_name = server_name, pc_resolved = res, pc_quals = []\<rparr>"
  have "evolves (touches res :: 'z backend_scheme \<Rightarrow> _) (per_tool_insert env pg pin ?ctx sup)" for sup
    using per_tool_insert_touches [of ?ctx env pg pin sup] by simp
  then have "evolves (touches res :: 'z backend_scheme \<Rightarrow> _) (exec_foreign_insert env pg pin h rel sl m)"
    unfolding exec_foreign_insert_def Tool(4) option.case insert_row_of_def modify_holder.case
    by (intro touch_scope.evo_bind touch_scope.evo_lift touch_scope.evo_map_err)
  with Tool show ?thesis by blast
qed

end
