(* ===== verification/Backend_Run.thy ===== *)
theory Backend_Run
  imports Scan_Facts
begin

text \<open>
  A backend over its lifetime. The sessions, caches and call logs of \<^verbatim>\<open>session.rs\<close>, \<^verbatim>\<open>cache.rs\<close> and
  \<^verbatim>\<open>tables/tool_calls.rs\<close> are global to the backend process, and one process runs statements for many
  roles (\<^verbatim>\<open>SET ROLE\<close>), on servers whose options and user mappings change in between. Here is the
  statement as a step of the process, the runs of the process as an inductive relation, and what
  holds in every reachable state, whatever the statements and the answers of the servers.
\<close>

section \<open>Statements\<close>

text \<open>
  The statements that reach code which changes the state: the scan of a foreign table, an
  INSERT, UPDATE or DELETE on one (row by row until a row fails), and the SQL functions of \<^verbatim>\<open>api.rs\<close>.
\<close>

datatype 'd statement =
    Scan foreign_rel "'d foreign_scan_plan" "'d node \<Rightarrow> string + 'd option" bool
  | Modify foreign_rel cmd_type "'d slot list"
  | Call_Tool string string "json option" string
  | Call_Tool_Text string string "json option" string
  | Get_Prompt string string "json option"
  | Read_Resource string string
  | Complete string json string string
  | Import_Server string string "json option"
  | Generate_Functions string string "json option"
  | Refresh string

text \<open>What does not change while the process lives: the network, the host and the iteration order of hash sets.\<close>

record 'd process =
  net :: env
  host :: pg_host
  input_host :: pg_input
  fdw :: "'d fdw_host"
  hash_order :: "string list \<Rightarrow> string list"

fun run_statement :: "'d process \<Rightarrow> pg_catalog \<Rightarrow> 'd statement \<Rightarrow> 'z backend_scheme \<Rightarrow> 'z backend_scheme" where
  "run_statement pr cat (Scan rel p ev explain_only) b =
     snd (begin_foreign_scan (net pr) cat (host pr) (input_host pr) (fdw pr) rel p ev explain_only b)"
| "run_statement pr cat (Modify rel op sls) b =
     (case begin_foreign_modify cat rel op False of
        Inl _ \<Rightarrow> b
      | Inr m \<Rightarrow> snd (emap (\<lambda>sl. exec_foreign_insert (net pr) (host pr) (input_host pr) (fdw pr) rel sl m) sls b))"
| "run_statement pr cat (Call_Tool server tool args on_err) b = snd (call_tool (net pr) cat server tool args on_err b)"
| "run_statement pr cat (Call_Tool_Text server tool args on_err) b = snd (call_tool_text (net pr) cat server tool args on_err b)"
| "run_statement pr cat (Get_Prompt server prompt args) b = snd (get_prompt (net pr) cat server prompt args b)"
| "run_statement pr cat (Read_Resource server uri) b = snd (read_resource (net pr) cat server uri b)"
| "run_statement pr cat (Complete server rf argument_name argument_value) b =
     snd (complete (net pr) cat server rf argument_name argument_value b)"
| "run_statement pr cat (Import_Server server schema opts) b =
     snd (import_fn (net pr) cat (host pr) (hash_order pr) server schema opts b)"
| "run_statement pr cat (Generate_Functions server schema opts) b =
     snd (generate_functions (net pr) cat (host pr) (hash_order pr) server schema opts b)"
| "run_statement pr cat (Refresh server) b = snd (refresh cat (host pr) server b)"

text \<open>The server a statement names: the argument of a function, or the server of the foreign table.\<close>

definition server_of_rel :: "foreign_rel \<Rightarrow> string option" where
  "server_of_rel rel = (case server_name_for_relid rel of Inr name \<Rightarrow> Some name | Inl _ \<Rightarrow> None)"

fun statement_server :: "'d statement \<Rightarrow> string option" where
  "statement_server (Scan rel _ _ _) = server_of_rel rel"
| "statement_server (Modify rel _ _) = server_of_rel rel"
| "statement_server (Call_Tool server _ _ _) = Some server"
| "statement_server (Call_Tool_Text server _ _ _) = Some server"
| "statement_server (Get_Prompt server _ _) = Some server"
| "statement_server (Read_Resource server _) = Some server"
| "statement_server (Complete server _ _ _) = Some server"
| "statement_server (Import_Server server _ _) = Some server"
| "statement_server (Generate_Functions server _ _) = Some server"
| "statement_server (Refresh server) = Some server"

section \<open>Runs\<close>

text \<open>
  Every statement finds the catalog as it is then: the current user, the servers and the user
  mappings. A failed statement leaves what it changed, as the process memory does.
\<close>

inductive backend_run :: "'d process \<Rightarrow> (pg_catalog \<times> 'd statement) list \<Rightarrow> backend \<Rightarrow> bool" for pr where
  started: "backend_run pr [] empty_backend"
| stepped: "backend_run pr hist b \<Longrightarrow> backend_run pr (hist @ [(cat, st)]) (run_statement pr cat st b)"

inductive_cases backend_run_stepE: "backend_run pr (hist @ [x]) b"

section \<open>What one statement may change\<close>

text \<open>
  Either only the statement and message logs grew, or the statement's server is in the catalog and
  the entries of the current user on that server changed; requests went out only with the
  credential resolved for them.
\<close>

definition acts :: "pg_catalog \<Rightarrow> string option \<Rightarrow> 'z backend_scheme \<Rightarrow> 'z backend_scheme \<Rightarrow> bool" where
  "acts cat server b b' \<longleftrightarrow> (\<forall>res. touches res b b')
     \<or> (\<exists>name res srv so. server = Some name \<and> lookup_foreign_server cat name = Inr (srv, so)
          \<and> session_key_of res = (srv, current_user_oid cat) \<and> touches res b b'
          \<and> (resolve cat name = Inr res \<or> sent b' = sent b))"

lemma resolve_key:
  "resolve cat name = Inr res \<Longrightarrow> \<exists>srv so. lookup_foreign_server cat name = Inr (srv, so) \<and> session_key_of res = (srv, current_user_oid cat)"
  by (auto simp: resolve_def rbind_eq_Inr_iff Let_def session_key_of_def split: prod.splits)

lemma acts_idle: "acts cat server b b"
  by (simp add: acts_def touch_scope.evo_refl)

lemma acts_resolved: "resolve cat name = Inr res \<Longrightarrow> touches res b b' \<Longrightarrow> acts cat (Some name) b b'"
  using resolve_key [of cat name res] by (auto simp: acts_def)

text \<open>\<open>agrees cat server res\<close>: if the server resolves, it resolves to \<open>res\<close>.\<close>

definition agrees :: "pg_catalog \<Rightarrow> string \<Rightarrow> resolved \<Rightarrow> bool" where
  "agrees cat server res \<longleftrightarrow> (\<forall>r. resolve cat server = Inr r \<longrightarrow> r = res)"

lemma acts_evolves:
  assumes "\<And>res. agrees cat server res \<Longrightarrow> evolves (touches res) m"
  shows "acts cat (Some server) b (snd (m b))"
proof (cases "resolve cat server")
  case (Inl e)
  then have "touches res b (snd (m b))" for res using assms [of res] by (auto simp: agrees_def intro: evolves_at)
  then show ?thesis by (simp add: acts_def)
next
  case (Inr res)
  then have "touches res b (snd (m b))" using assms [of res] by (auto simp: agrees_def intro: evolves_at)
  with Inr show ?thesis by (rule acts_resolved)
qed

text \<open>A computation that resolves the server first.\<close>

lemma agrees_resolve:
  assumes "agrees cat server res" "\<And>r. r = res \<Longrightarrow> evolves (touches res :: 'z backend_scheme \<Rightarrow> _) (f r)"
  shows "evolves (touches res) (ebind (elift (resolve cat server)) f)"
  using assms by (cases "resolve cat server") (auto simp: agrees_def evolves_def eff_simps touch_scope.evo_refl)

section \<open>Every statement acts for its role\<close>

lemma request_evolves: "agrees cat server res \<Longrightarrow> evolves (touches res :: 'z backend_scheme \<Rightarrow> _) (request env cat server mthd p)"
  unfolding request_def
  by (erule agrees_resolve) (simp, rule touch_scope.scope_with_session, rule touch_scope.scope_request)

lemma fetch_tools_evolves: "agrees cat server res \<Longrightarrow> evolves (touches res :: 'z backend_scheme \<Rightarrow> _) (fetch_tools_fresh env cat server)"
proof (rule evolvesI)
  fix b :: "'z backend_scheme"
  assume a: "agrees cat server res"
  obtain r b' where f: "fetch_tools_fresh env cat server b = (r, b')" by force
  show "touches res b (snd (fetch_tools_fresh env cat server b))"
  proof (cases "resolve cat server")
    case (Inl e)
    then show ?thesis by (simp add: fetch_tools_fresh_def eff_simps touch_scope.evo_refl)
  next
    case (Inr res')
    with a have "resolve cat server = Inr res" by (simp add: agrees_def)
    from own_touches [OF fetch_tools_fresh_touches [OF this f]] f show ?thesis by simp
  qed
qed

lemma evolves_if: "evolves R m \<Longrightarrow> evolves R m' \<Longrightarrow> evolves R (if c then m else m')"
  by simp

lemma call_tool_inner_evolves:
  "agrees cat server res \<Longrightarrow> evolves (touches res :: 'z backend_scheme \<Rightarrow> _) (call_tool_inner env cat server tool args on_err)"
  unfolding call_tool_inner_def
  by (intro touch_scope.evo_bind touch_scope.evo_lift touch_scope.evo_ret request_evolves evolves_if)

lemma spi_exec_evolves: "evolves (touches res :: 'z backend_scheme \<Rightarrow> _) (spi_exec pg sql)"
  by (auto intro!: evolvesI touches_spi simp: spi_exec_def touch_scope.evo_refl split: option.splits)

lemma registry_reads_evolve:
  "evolves (touches res :: 'z backend_scheme \<Rightarrow> _) (owned pg server schema)"
  "evolves (touches res :: 'z backend_scheme \<Rightarrow> _) (schemas_for pg server)"
  by (simp_all add: evolves_def owned_def schemas_for_def touch_scope.evo_refl split: sum.splits)

lemma drop_owned_evolves: "evolves (touches res :: 'z backend_scheme \<Rightarrow> _) (drop_owned pg server schema)"
proof -
  have "evolves (touches res :: 'z backend_scheme \<Rightarrow> _) (drop_statement pg ob)" for ob
    by (simp add: evolves_def drop_statement_pure touch_scope.evo_refl)
  then show ?thesis
    unfolding drop_owned_def drop_one_def clear_owned_def
    by (intro touch_scope.evo_intros registry_reads_evolve spi_exec_evolves)
qed

lemma plan_evolves:
  "evolves (touches res :: 'z backend_scheme \<Rightarrow> _) (emit_warning msg)"
  "evolves (touches res :: 'z backend_scheme \<Rightarrow> _) (spi_ddl pg what sql)"
  "evolves (touches res :: 'z backend_scheme \<Rightarrow> _) (registry_record pg server ob)"
  by (simp_all add: emit_warning_def evolves_def touches_warn spi_ddl_def registry_record_def spi_exec_evolves [unfolded evolves_def, rule_format])

lemma generate_per_tool_evolves:
  assumes "agrees cat server res"
  shows "evolves (touches res :: 'z backend_scheme \<Rightarrow> _) (generate_per_tool env cat pg ord server schema opts)"
  unfolding generate_per_tool_def case_prod_beta
  by (intro touch_scope.evo_intros evolves_if plan_evolves fetch_tools_evolves assms)

lemma generate_functions_evolves:
  assumes "agrees cat server res"
  shows "evolves (touches res :: 'z backend_scheme \<Rightarrow> _) (generate_functions env cat pg ord server schema opts)"
  unfolding generate_functions_def Let_def case_prod_beta
  by (intro touch_scope.evo_intros generate_per_tool_evolves registry_reads_evolve drop_owned_evolves assms)

lemma import_evolves:
  assumes "agrees cat server res"
  shows "evolves (touches res :: 'z backend_scheme \<Rightarrow> _) (import_fn env cat pg ord server schema opts)"
  unfolding import_fn_def discover_upstreams_def case_prod_beta
  by (intro touch_scope.evo_intros evolves_if plan_evolves generate_per_tool_evolves fetch_tools_evolves assms)

lemma refresh_acts: "acts cat (Some server) b (snd (refresh cat pg server b))"
proof (cases "lookup_foreign_server cat server")
  case (Inl e)
  then show ?thesis by (simp add: refresh_def eff_simps acts_idle)
next
  case (Inr x)
  then obtain srv so where l: "lookup_foreign_server cat server = Inr (srv, so)" by (cases x) auto
  obtain res :: resolved where k: "session_key_of res = (srv, current_user_oid cat)"
    by (rule that [of "role_five\<lparr>server_oid := srv, user_oid := current_user_oid cat\<rparr>"]) (simp add: session_key_of_def)
  let ?b1 = "snd (drop_session srv (current_user_oid cat) b)"
  let ?b2 = "snd (drop_cache (srv, current_user_oid cat) ?b1)"
  have t: "touches res b ?b2" and s: "sent ?b2 = sent b"
    using log_bounded_cong [of ?b2 b] by (simp_all add: touches_def drop_session_def drop_cache_def k)
  have "touches res b (warn level msg ?b2)" "sent (warn level msg ?b2) = sent b" for level msg
    using touch_scope.evo_trans [OF t touches_warn] s by (simp_all add: warn_def)
  with t s have "touches res b (snd (refresh cat pg server b)) \<and> sent (snd (refresh cat pg server b)) = sent b"
    by (simp add: refresh_def l eff_simps Let_def split: sum.splits)
  with l k show ?thesis by (auto simp: acts_def)
qed

lemma scan_acts: "acts cat (server_of_rel rel) b (snd (begin_foreign_scan env cat pg pin h rel p ev e b))"
proof (cases "resolve_for_relid cat rel")
  case (Inl x)
  then have "snd (begin_foreign_scan env cat pg pin h rel p ev e b) = b"
    by (cases e) (auto simp: begin_foreign_scan_def ebind_def elift_def eret_def split: sum.splits)
  then show ?thesis by (simp add: acts_idle)
next
  case (Inr x)
  then obtain tgt name res where x: "resolve_for_relid cat rel = Inr (tgt, name, res)" by (cases x) auto
  with evolves_at [OF begin_scan_touches [OF x]] show ?thesis
    by (auto intro!: acts_resolved simp: resolve_for_relid_Inr server_of_rel_def)
qed

lemma modify_acts:
  assumes m: "begin_foreign_modify cat rel op False = Inr m"
  shows "acts cat (server_of_rel rel) b (snd (emap (\<lambda>sl. exec_foreign_insert env pg pin h rel sl m) sls b))"
proof -
  obtain tgt name res where x: "resolve_for_relid cat rel = Inr (tgt, name, res)"
    using insert_touches [OF m] by blast
  then have "evolves (touches res :: 'z backend_scheme \<Rightarrow> _) (exec_foreign_insert env pg pin h rel sl m)" for sl
    using insert_touches [OF m, of env pg pin h sl] by auto
  from evolves_at [OF touch_scope.evo_map [OF this]] x show ?thesis
    by (auto intro!: acts_resolved simp: resolve_for_relid_Inr server_of_rel_def)
qed

lemma run_statement_acts: "acts cat (statement_server st) b (run_statement pr cat st b)"
proof (cases st)
  case (Scan rel p ev e)
  then show ?thesis by (simp add: scan_acts)
next
  case (Modify rel op sls)
  then show ?thesis by (auto simp: acts_idle modify_acts split: sum.splits)
next
  case (Refresh server)
  then show ?thesis by (simp add: refresh_acts)
next
  case (Call_Tool_Text server tool args on_err)
  have "evolves (touches res) (call_tool_text (net pr) cat server tool args on_err)" if "agrees cat server res" for res
    unfolding call_tool_text_def by (intro touch_scope.evo_bind touch_scope.evo_ret call_tool_inner_evolves that)
  from acts_evolves [OF this] Call_Tool_Text show ?thesis by simp
qed (simp_all add: call_tool_def get_prompt_def read_resource_def complete_def acts_evolves call_tool_inner_evolves request_evolves
      generate_functions_evolves import_evolves)

section \<open>Every reachable state\<close>

text \<open>\<open>concerns k x\<close>: the statement \<open>x\<close> names the server of the key \<open>k\<close> and runs as its user.\<close>

definition concerns :: "session_key \<Rightarrow> pg_catalog \<times> 'd statement \<Rightarrow> bool" where
  "concerns k x \<longleftrightarrow> (\<exists>name so. statement_server (snd x) = Some name \<and> lookup_foreign_server (fst x) name = Inr (fst k, so))
     \<and> current_user_oid (fst x) = snd k"

definition entries :: "'z backend_scheme \<Rightarrow> session_key \<Rightarrow> mcp_session option \<times> (slice \<rightharpoonup> cache_entry) option \<times> call_record list option" where
  "entries b k = (sessions b k, caches b k, call_logs b k)"

lemma touches_entries: "touches res b b' \<Longrightarrow> k \<noteq> session_key_of res \<Longrightarrow> entries b' k = entries b k"
  unfolding touches_def entries_def by metis

lemma touches_sends: "touches res b b' \<Longrightarrow> \<exists>new. sent b' = sent b @ new \<and> (\<forall>x \<in> set new. addressed res x)"
  by (simp add: touches_def)

lemma acts_elsewhere:
  assumes "acts cat (statement_server st) b b'" "\<not> concerns k (cat, st)"
  shows "entries b' k = entries b k"
proof -
  have "\<exists>res. touches res b b' \<and> k \<noteq> session_key_of res"
  proof (cases "\<forall>res. touches res b b'")
    case True
    have "session_key_of (role_five\<lparr>server_oid := fst k + 1\<rparr>) \<noteq> k" by (cases k) (simp add: session_key_of_def)
    with True show ?thesis by metis
  next
    case False
    with assms show ?thesis by (auto simp: acts_def concerns_def)
  qed
  then show ?thesis by (metis touches_entries)
qed

lemma acts_sends:
  assumes "acts cat server b b'"
  shows "\<exists>new. sent b' = sent b @ new \<and> (\<forall>x \<in> set new. \<exists>name res. server = Some name \<and> resolve cat name = Inr res \<and> addressed res x)"
proof (cases "\<forall>res. touches res b b'")
  case True
  let ?other = "role_five\<lparr>options := (options role_five)\<lparr>so_url := []\<rparr>\<rparr>"
  obtain new where n: "sent b' = sent b @ new" "\<forall>x \<in> set new. addressed role_five x"
    using touches_sends True by blast
  obtain new' where "sent b' = sent b @ new'" "\<forall>x \<in> set new'. addressed ?other x"
    using touches_sends True by blast
  with n have "\<forall>x \<in> set new. addressed role_five x \<and> addressed ?other x" by simp
  then have "new = []" by (cases new) (auto simp: addressed_def role_five_def)
  with n show ?thesis by simp
next
  case False
  with assms obtain name res where "server = Some name" "touches res b b'" "resolve cat name = Inr res \<or> sent b' = sent b"
    by (auto simp: acts_def)
  with touches_sends [of res b b'] show ?thesis by auto
qed

lemma acts_log_bounded: "acts cat server b b' \<Longrightarrow> log_bounded b \<Longrightarrow> log_bounded b'"
  unfolding acts_def touches_def by blast

text \<open>C10. In every state a backend can reach, by any sequence of statements of any roles against any
  servers, no call log holds more than a thousand calls; a session, a cached listing or a call log
  exists only for a server and a role that ran a statement on it; and every request sent so far
  went to the URL, with the credential, resolved for the role of a statement on that server.\<close>

theorem reachable_backend:
  assumes "backend_run pr hist b"
  shows "(\<forall>k. length (snapshot k b) \<le> LOG_CAP)
    \<and> (\<forall>k. sessions b k \<noteq> None \<or> caches b k \<noteq> None \<or> call_logs b k \<noteq> None \<longrightarrow> (\<exists>x \<in> set hist. concerns k x))
    \<and> (\<forall>m \<in> set (sent b). \<exists>(cat, st) \<in> set hist. \<exists>name res. statement_server st = Some name \<and> resolve cat name = Inr res
          \<and> user_oid res = current_user_oid cat \<and> rq_url (fst m) = so_url (options res)
          \<and> header_of ''authorization'' m = map_option bearer_header (res_bearer res))"
proof -
  let ?sent_by = "\<lambda>m (cat, st). \<exists>name res. statement_server st = Some name \<and> resolve cat name = Inr res \<and> addressed res m"
  have "log_bounded b \<and> (\<forall>k. entries b k \<noteq> (None, None, None) \<longrightarrow> (\<exists>x \<in> set hist. concerns k x))
    \<and> (\<forall>m \<in> set (sent b). \<exists>x \<in> set hist. ?sent_by m x)"
    using assms
  proof (induction rule: backend_run.induct)
    case started
    show ?case by (simp add: empty_backend_def log_bounded_def snapshot_def entries_def)
  next
    case (stepped hist b cat st)
    note a = run_statement_acts [of cat st b pr]
    have "\<exists>x \<in> set (hist @ [(cat, st)]). concerns k x" if "entries (run_statement pr cat st b) k \<noteq> (None, None, None)" for k
    proof (cases "concerns k (cat, st)")
      case False
      with acts_elsewhere [OF a] that have "entries b k \<noteq> (None, None, None)" by metis
      with stepped.IH show ?thesis by (metis UnCI set_append)
    qed simp
    moreover have "\<exists>x \<in> set (hist @ [(cat, st)]). ?sent_by m x" if m: "m \<in> set (sent (run_statement pr cat st b))" for m
    proof (cases "m \<in> set (sent b)")
      case True
      with stepped.IH obtain x where "x \<in> set hist" "?sent_by m x" by blast
      then show ?thesis by (intro bexI [of _ x]) simp_all
    next
      case False
      with acts_sends [OF a] m have "?sent_by m (cat, st)" by auto
      then show ?thesis by (intro bexI [of _ "(cat, st)"]) simp_all
    qed
    ultimately show ?case using acts_log_bounded [OF a] stepped.IH by blast
  qed
  moreover have "\<exists>(cat, st) \<in> set hist. \<exists>name res. statement_server st = Some name \<and> resolve cat name = Inr res
          \<and> user_oid res = current_user_oid cat \<and> rq_url (fst m) = so_url (options res)
          \<and> header_of ''authorization'' m = map_option bearer_header (res_bearer res)"
    if "x \<in> set hist" "?sent_by m x" for m x
    using that resolve_user by (intro bexI [of _ x]) (auto simp: addressed_def split: prod.splits)
  ultimately show ?thesis
    by (intro conjI) (simp add: log_bounded_def, simp add: entries_def, blast)
qed

text \<open>A process on a loopback server, in which one role calls a tool and then refreshes the server.\<close>

definition loop_process :: "cell process" where
  "loop_process = \<lparr>net = steady_server, host = random_host, input_host = strict_input, fdw = cell_host, hash_order = remdups\<rparr>"

definition two_statements :: "(pg_catalog \<times> cell statement) list" where
  "two_statements = [(loop_catalog, Call_Tool ''srv'' ''ping'' None ''return''), (loop_catalog, Refresh ''srv'')]"

lemma two_statements_run: "\<exists>b. backend_run loop_process two_statements b"
proof -
  have "backend_run loop_process ([] @ [(loop_catalog, Call_Tool ''srv'' ''ping'' None ''return'')])
      (run_statement loop_process loop_catalog (Call_Tool ''srv'' ''ping'' None ''return'') empty_backend)"
    by (intro stepped started)
  from stepped [OF this, of loop_catalog "Refresh ''srv''"] show ?thesis by (auto simp: two_statements_def)
qed

theorem reachable_backend_witness:
  "\<exists>b. backend_run loop_process two_statements b \<and> length (snapshot (1, 5) b) \<le> LOG_CAP \<and> sessions b (1, 9) = None \<and> call_logs b (2, 5) = None"
proof -
  obtain b where b: "backend_run loop_process two_statements b" using two_statements_run by blast
  have l: "lookup_foreign_server loop_catalog ''srv'' = Inr x \<Longrightarrow> fst x = 1" for x
    by (auto simp: lookup_foreign_server_def loop_catalog_def)
  have u: "current_user_oid loop_catalog = 5" by (simp add: loop_catalog_def)
  have "\<not> (\<exists>x \<in> set two_statements. concerns (1, 9) x)" "\<not> (\<exists>x \<in> set two_statements. concerns (2, 5) x)"
    using l u by (auto simp: two_statements_def concerns_def)
  with reachable_backend [OF b] b show ?thesis by blast
qed

text \<open>
  The statements of other roles, and those on other servers, leave a role's entries as they were,
  however many run in between.
\<close>

lemma entries_survive:
  assumes "backend_run pr (hist @ later) b" "\<forall>x \<in> set later. \<not> concerns k x"
  shows "\<exists>b0. backend_run pr hist b0 \<and> entries b k = entries b0 k"
  using assms
proof (induction later arbitrary: b rule: rev_induct)
  case (snoc x later)
  from snoc.prems(1) have "backend_run pr ((hist @ later) @ [x]) b" by simp
  then obtain b1 cat st where b1: "backend_run pr (hist @ later) b1" "x = (cat, st)" "b = run_statement pr cat st b1"
    by (rule backend_run_stepE) auto
  from snoc.IH [OF b1(1)] snoc.prems(2) obtain b0 where "backend_run pr hist b0" "entries b1 k = entries b0 k" by auto
  moreover have "entries b k = entries b1 k"
    unfolding b1(3) by (rule acts_elsewhere [OF run_statement_acts]) (use snoc.prems(2) b1(2) in simp)
  ultimately show ?case by auto
qed auto

end
