(* ===== verification/Spec2Isabelle.thy ===== *)
theory Spec2Isabelle
  imports Backend_Run
begin

text \<open>
  A verification development for \<^verbatim>\<open>pg_mcp\<close>, the PostgreSQL extension of this repository that exposes
  a Model Context Protocol server as foreign tables and SQL functions (\<^verbatim>\<open>src/pg/pg_mcp/src\<close>).

  \<^bold>\<open>The program.\<close> A query on a foreign table enters through \<^verbatim>\<open>fdw.rs\<close>: the planner callbacks choose the
  clauses the table's handler takes over, the executor callbacks resolve the server and the
  credential of the current role (\<^verbatim>\<open>options.rs\<close>, \<^verbatim>\<open>session.rs\<close>), open a scan in one of the handlers
  (\<^verbatim>\<open>tables/\<close>), and hand its rows to PostgreSQL. Handlers talk to the server through the backend's
  cached sessions (\<^verbatim>\<open>session.rs\<close>, \<^verbatim>\<open>client.rs\<close>, \<^verbatim>\<open>sse.rs\<close>) and the catalog cache (\<^verbatim>\<open>cache.rs\<close>). The SQL functions
  of \<^verbatim>\<open>api.rs\<close> call tools directly, import the fixed tables (\<^verbatim>\<open>import.rs\<close>) and generate one table, one
  function and possibly one view per tool (\<^verbatim>\<open>codegen/\<close>), recorded in \<^verbatim>\<open>mcp.generated\<close>.

  \<^bold>\<open>Conventions.\<close> A Rust string is its list of UTF-8 bytes. \<^verbatim>\<open>McpResult\<close> is a sum type with the error on
  the left, a possible panic is an option, and the callbacks of \<^verbatim>\<open>fdw.rs\<close> fail with \<open>fdw_failure\<close>.
  Stateful code is a function from a state to a result and a state, on the error path too
  (\<open>Effect\<close>). The state is one record that grows by extension: \<open>world\<close> (the requests sent, the clock),
  \<open>session_store\<close>, \<open>catalog_store\<close>, \<open>backend\<close> (call logs, statements run, messages). Hash and
  random bytes are lists of numbers below 256, SHA-256 works on 32-bit words, and casts such as
  \<^verbatim>\<open>as i32\<close> wrap as written.

  \<^bold>\<open>Theories and sources.\<close>
  \<^item> \<open>Mcp_Prelude\<close>, \<open>Rust_Str\<close>, \<open>Json_Value\<close>: failure layers, the string and integer functions used, and
    \<^verbatim>\<open>serde_json::Value\<close>. \<open>Effect\<close>: the state-and-error combinators and the locale \<open>evolution\<close>.
  \<^item> \<open>Mcp_Errors\<close> (\<^verbatim>\<open>errors.rs\<close>), \<open>Quals\<close> (\<^verbatim>\<open>quals.rs\<close>), \<open>Table_Specs\<close> and \<open>Table_Context\<close>
    (\<^verbatim>\<open>tables/mod.rs\<close>), \<open>Server_Options\<close> (\<^verbatim>\<open>options.rs\<close>).
  \<^item> \<open>Sha256\<close>, \<open>Ident\<close> (\<^verbatim>\<open>codegen/ident.rs\<close>), \<open>Schema_Types\<close> (\<^verbatim>\<open>codegen/types.rs\<close>), \<open>Codegen_Plan\<close>
    (\<^verbatim>\<open>codegen/mod.rs\<close>), \<open>Codegen_Ddl\<close> (\<^verbatim>\<open>codegen/table.rs\<close>, \<^verbatim>\<open>function.rs\<close>, \<^verbatim>\<open>view.rs\<close>), \<open>Import\<close>
    (\<^verbatim>\<open>import.rs\<close>), \<open>Registry\<close> (\<^verbatim>\<open>codegen/registry.rs\<close>). \<open>Sql_Lex\<close> is a lexer for the part of
    PostgreSQL's lexical rules the emitted statements touch; it models no code of the extension.
  \<^item> \<open>Sse\<close> (\<^verbatim>\<open>sse.rs\<close>), \<open>Client\<close> (\<^verbatim>\<open>client.rs\<close>), \<open>Session\<close> (\<^verbatim>\<open>session.rs\<close>), \<open>Cache\<close> (\<^verbatim>\<open>cache.rs\<close>).
  \<^item> \<open>Catalog\<close>, \<open>Readthrough\<close>, \<open>Tool_Calls\<close>, \<open>Per_Tool\<close>: the handlers of the same names under \<^verbatim>\<open>tables/\<close>.
  \<^item> \<open>Api\<close> (\<^verbatim>\<open>api.rs\<close>, and the version functions of \<^verbatim>\<open>lib.rs\<close>); \<open>Pushdown\<close> (the planner half of \<^verbatim>\<open>fdw.rs\<close>);
    \<open>Fdw\<close> (its executor half and \<^verbatim>\<open>IMPORT FOREIGN SCHEMA\<close>).
  \<^item> \<open>Scan_Facts\<close>, \<open>Backend_Run\<close> and this theory: facts that span components, the backend as a
    transition system over statements, and the properties of the whole extension.

  \<^bold>\<open>Interfaces.\<close> The handlers and the executor meet in the cursor: \<open>scan_cursor\<close> and
  \<open>restartable_cursor\<close> (\<open>Table_Specs\<close>) state what a cursor owes, and the cursors of \<open>Catalog\<close>,
  \<open>Readthrough\<close> and \<open>Tool_Calls\<close> and their union in \<open>Fdw\<close> interpret them. \<open>role_scope\<close> (\<open>Session\<close>) extends
  \<open>evolution\<close> by what a relation on states needs so that all work inside a session respects it; it is
  interpreted for the relations \<open>confined\<close> (sessions), \<open>own\<close> (and caches) and \<open>touches\<close> (and call logs).
  \<open>cache_view\<close> (\<open>Cache\<close>) is the catalog cache seen from a state that contains it, interpreted for the
  backend and for a backend inside an open session.

  \<^bold>\<open>What is shown.\<close>
  \<^item> Generation: every batch of tools is planned without panic (\<open>Import\<close>), with distinct valid names,
    no tool lost, and SELECT invoking a tool only where the gate allows it (\<open>Ident\<close>, \<open>Codegen_Plan\<close>);
    no string a server publishes alters an emitted statement, which \<open>Codegen_Ddl\<close> states through the
    lexer; regeneration drops what it owns and then runs exactly the planned statements (\<open>Registry\<close>,
    \<open>Api\<close>).
  \<^item> Network: the event-stream reader implements block decoding; a request follows the recovery
    protocol and puts nothing else on the wire; listing follows the cursors exactly; calls share one
    handshake while the server is up (\<open>Sse\<close>, \<open>Client\<close>, \<open>Session\<close>).
  \<^item> Roles: options and credentials are validated, a session, cache or call log is reached only by
    its role, and in every reachable state of a backend all that was sent went to a server with the
    credential resolved for the role of a statement on it (\<open>Server_Options\<close>, \<open>Session\<close>, \<open>Backend_Run\<close>).
  \<^item> Queries: the clauses a plan takes over and those it leaves together mean the query; the two
    readings of a qual agree; catalog, read-through, log and per-tool tables return the rows they
    should, of the declared types; and rows survive the conversion to tuples (\<open>Pushdown\<close>, \<open>Quals\<close>,
    the handlers, \<open>Fdw\<close>, this theory).
  \<^item> Where the code falls short of its comments, a lemma beside the component shows the input on which
    it does, for example \<open>null_param_restricts_nothing\<close> in \<open>Pushdown\<close>.

  \<^bold>\<open>Bounds.\<close> All functions of the model are total. Loops of the code are structural recursion or have a
  termination proof: the collision search of \<open>dedup\<close> ends because only finitely many names are taken,
  \<open>list_all\<close> because it follows at most a thousand cursors, the stream reader because a stream is the
  finite sequence of reads until its end, its failure or the deadline. Only the two consumers of a
  cursor, \<open>drain\<close> and \<open>fetch_tuples\<close>, take fuel, since PostgreSQL decides how often it asks; one more
  than the number of rows is enough, and the theorems say so.

  \<^bold>\<open>Parameters.\<close> Code outside the repository enters as arguments: the HTTP client and clock (\<open>env\<close>), the
  system catalogs, URL parser and name resolution (\<open>pg_catalog\<close>), SPI, random bytes and the JSON printer
  (\<open>pg_host\<close>), type input (\<open>pg_input\<close>), datums and expression evaluation (\<open>fdw_host\<close>), and the iteration
  order of a hash set. What a theorem needs of them is a named hypothesis of it, such as
  \<open>host_faithful\<close>, met by a concrete instance in its witness.

  \<^bold>\<open>Not modelled.\<close> The table of callbacks \<^verbatim>\<open>mcp_fdw_handler\<close> fills and the path constructor that differs by
  PostgreSQL version (\<^verbatim>\<open>fdw.rs\<close>): C glue without a decision of its own. Memory contexts, pointer
  casts and the walk over option lists: the records hold the values they reach. The exit hook of
  \<^verbatim>\<open>session.rs\<close>, which clears the session cache when the process dies. The bootstrap SQL and load hook of
  \<^verbatim>\<open>lib.rs\<close>. Test modules, \<^verbatim>\<open>e2e.rs\<close> among them. Transaction rollback: the statement log records what
  ran, and process memory is not rolled back in the code either.
\<close>

section \<open>From a query to typed tuples\<close>

text \<open>C11. A scan of a registered table delivers its rows. Whatever the server answered, if beginning the scan
  succeeds, every row its cursor holds has one cell per column of the table's specification, of that
  column's type; and when the host stores those values, PostgreSQL fetches exactly as many tuples,
  in order, after which the scan ends, and each tuple read back by the specification is its row.\<close>

theorem scan_delivers_typed_rows:
  assumes st: "begin_foreign_scan env cat pg pin h rel p ev False b = (Inr (Some c), b')"
    and t: "target_for_relid rel = Inr (Registry entry)" and n: "get_rel_name rel = Some name"
  shows "list_all (row_typed (spec entry)) (cursor_rows c)
    \<and> (host_faithful h \<and> list_all (row_storable pg h) (cursor_rows c) \<and> arity (spec entry) \<le> k \<and> length (cursor_rows c) < fuel \<longrightarrow>
        (\<exists>ts. fetch_tuples pg h k fuel (Some c) = Some (Inr ts) \<and> length ts = length (cursor_rows c)
          \<and> (\<forall>i < length ts. \<forall>sl. slot_holds sl (ts ! i) \<longrightarrow>
               read_slot h sl (spec entry) = Inr (map (map_option stored_cell) (cursor_rows c ! i)))))"
proof (intro conjI impI)
  show typed: "list_all (row_typed (spec entry)) (cursor_rows c)" by (rule begin_scan_typed [OF st t n])
  assume a: "host_faithful h \<and> list_all (row_storable pg h) (cursor_rows c) \<and> arity (spec entry) \<le> k \<and> length (cursor_rows c) < fuel"
  let ?ts = "map (\<lambda>r. map (cell_datum pg h r) [0..<k]) (cursor_rows c)"
  have f: "fetch_tuples pg h k fuel (Some c) = Some (Inr ?ts)" using a by (intro fetch_tuples_all) simp_all
  have "read_slot h sl (spec entry) = Inr (map (map_option stored_cell) (cursor_rows c ! i))"
    if i: "i < length ?ts" and sl: "slot_holds sl (?ts ! i)" for i sl
    using i sl typed a by (intro slot_reads_row) (simp_all add: list_all_length)
  with f show "\<exists>ts. fetch_tuples pg h k fuel (Some c) = Some (Inr ts) \<and> length ts = length (cursor_rows c)
          \<and> (\<forall>i < length ts. \<forall>sl. slot_holds sl (ts ! i) \<longrightarrow>
               read_slot h sl (spec entry) = Inr (map (map_option stored_cell) (cursor_rows c ! i)))"
    by (intro exI [of _ ?ts]) simp
qed

definition calls_rel :: foreign_rel where
  "calls_rel = tools_rel\<lparr>get_rel_name := Some ''tool_calls''\<rparr>"

definition whole_scan :: "cell foreign_scan_plan" where
  "whole_scan = \<lparr>fs_local = [], fdw_exprs = [], fdw_private_list = []\<rparr>"

definition one_call :: backend where
  "one_call = record_call (1, 5) ping_call empty_backend"

lemma calls_rel_target: "target_for_relid calls_rel = Inr (Registry \<lparr>spec = TOOL_CALLS_SPEC, handler = TOOL_CALLS_TABLE\<rparr>)"
  by (simp add: target_for_relid_def relname_for_relid_def cstr_to_string_def calls_rel_def tools_rel_def
      find_table_def REGISTRY_def spec_defs rbind_def)

lemma calls_rel_resolve:
  "resolve_for_relid loop_catalog calls_rel = Inr (Registry \<lparr>spec = TOOL_CALLS_SPEC, handler = TOOL_CALLS_TABLE\<rparr>, ''srv'', loop_resolved)"
proof -
  have "server_name_for_relid calls_rel = Inr ''srv''"
    by (simp add: server_name_for_relid_def cstr_to_string_def calls_rel_def tools_rel_def)
  then show ?thesis by (simp add: resolve_for_relid_Inr calls_rel_target loop_resolve)
qed

lemma calls_scan:
  "begin_foreign_scan env loop_catalog random_host pin cell_host calls_rel whole_scan ev False one_call
     = (Inr (Some (Log_Cursor \<lparr>lc_rows = [row_from_record ping_call]\<rparr>)), one_call)"
proof -
  have "relname_for_relid calls_rel = Inr ''tool_calls''"
    by (simp add: relname_for_relid_def cstr_to_string_def calls_rel_def)
  moreover have "snapshot k empty_backend = []" for k by (simp add: snapshot_def empty_backend_def)
  ultimately show ?thesis
    by (simp add: begin_foreign_scan_def calls_rel_resolve whole_scan_def eff_simps open_scan_def open_cursor_def
        tool_calls_begin_scan_def one_call_def snapshot_record cache_key_def loop_resolved_def log_entry_matches_def
        LOG_CAP_def)
qed

theorem scan_delivers_typed_rows_witness:
  "row_typed TOOL_CALLS_SPEC (row_from_record ping_call)
   \<and> (\<exists>ts. fetch_tuples random_host cell_host 9 2 (Some (Log_Cursor \<lparr>lc_rows = [row_from_record ping_call]\<rparr>)) = Some (Inr ts)
        \<and> length ts = 1)"
proof -
  have n: "get_rel_name calls_rel = Some ''tool_calls''" by (simp add: calls_rel_def)
  have s: "row_storable random_host cell_host (row_from_record ping_call)"
    by (simp add: row_storable_def row_from_record_def ping_call_def cell_host_def random_host_def)
  have a: "arity TOOL_CALLS_SPEC \<le> 9" by (simp add: arity_def TOOL_CALLS_SPEC_def)
  from scan_delivers_typed_rows [OF calls_scan calls_rel_target n, of 9 2] s a cell_host_faithful show ?thesis by auto
qed

section \<open>Roles\<close>

text \<open>C9. A statement acts for one role on one server. Whatever the server answers, beginning a scan of any table, an
  INSERT into any table and a call of \<^verbatim>\<open>mcp.call_tool\<close> either change nothing or act on a server
  resolved for the current user: everything sent is addressed to that server with that role's
  credential, and the sessions, caches and call logs of every other role and server are untouched.\<close>

theorem statements_act_for_one_role:
  fixes b :: "'z backend_scheme"
  shows "(begin_foreign_scan env cat pg pin h rel p ev e b = (r, b') \<longrightarrow>
      b' = b \<or> (\<exists>tgt server_name res. resolve_for_relid cat rel = Inr (tgt, server_name, res)
                \<and> user_oid res = current_user_oid cat \<and> touches res b b'))
    \<and> (begin_foreign_modify cat rel op False = Inr m \<and> exec_foreign_insert env pg pin h rel sl m b = (r2, b2) \<longrightarrow>
        (\<exists>tgt server_name res. resolve_for_relid cat rel = Inr (tgt, server_name, res)
                \<and> user_oid res = current_user_oid cat \<and> touches res b b2))
    \<and> (call_tool env cat server tool args on_err b = (r3, b3) \<longrightarrow>
        b3 = b \<or> (\<exists>res. resolve cat server = Inr res \<and> user_oid res = current_user_oid cat \<and> touches res b b3))"
proof (intro conjI impI, goal_cases)
  case 1
  show ?case
  proof (cases "resolve_for_relid cat rel")
    case (Inl x)
    with 1 show ?thesis
      by (cases e) (auto simp: begin_foreign_scan_def ebind_def elift_def eret_def split: sum.splits)
  next
    case (Inr x)
    then obtain tgt sn res where x: "resolve_for_relid cat rel = Inr (tgt, sn, res)" by (cases x) auto
    with begin_scan_touches [OF x, of env pg pin h p ev e] 1 have "touches res b b'" by (auto dest: evolvesD)
    with x show ?thesis by (auto simp: resolve_for_relid_Inr dest: resolve_user)
  qed
next
  case 2
  then obtain tgt sn res where x: "resolve_for_relid cat rel = Inr (tgt, sn, res)"
    "evolves (touches res :: 'z backend_scheme \<Rightarrow> _) (exec_foreign_insert env pg pin h rel sl m)"
    using insert_touches [of cat rel op m env pg pin h sl] by blast
  with 2 have "touches res b b2" by (auto dest: evolvesD)
  with x(1) show ?case by (auto simp: resolve_for_relid_Inr dest: resolve_user)
next
  case 3
  show ?case
  proof (cases "resolve cat server")
    case (Inl x)
    with 3 show ?thesis
      by (auto simp: call_tool_def call_tool_inner_def request_def ebind_def elift_def eret_def split: sum.splits)
  next
    case (Inr res)
    with 3 call_tool_touches [OF Inr, of env tool args on_err] have "touches res b b3" by (auto dest: evolvesD)
    with Inr resolve_user [OF Inr] show ?thesis by blast
  qed
qed

lemma calls_modify:
  "begin_foreign_modify loop_catalog calls_rel CMD_INSERT False = Inr (Some (Modify_Registry TOOL_CALLS_SPEC ''srv''
     \<lparr>tc_spec = TOOL_CALLS_SPEC, tc_server_name = ''srv'', tc_resolved = loop_resolved, tc_options = []\<rparr>))"
proof -
  have "rel_options calls_rel = []" by (simp add: calls_rel_def tools_rel_def)
  then show ?thesis by (simp add: begin_foreign_modify_def calls_rel_resolve rbind_def)
qed

theorem statements_act_for_one_role_witness:
  "\<exists>m res. begin_foreign_modify loop_catalog calls_rel CMD_INSERT False = Inr m \<and> user_oid res = 5
     \<and> touches res empty_backend
         (snd (exec_foreign_insert steady_server random_host strict_input cell_host calls_rel
            (cell_slot [None, Some (Cell_Text ''ping''), None, None, None, None, None, None, None]) m empty_backend))"
proof -
  let ?m = "Some (Modify_Registry TOOL_CALLS_SPEC ''srv''
     \<lparr>tc_spec = TOOL_CALLS_SPEC, tc_server_name = ''srv'', tc_resolved = loop_resolved, tc_options = []\<rparr>)"
  let ?sl = "cell_slot [None, Some (Cell_Text ''ping''), None, None, None, None, None, None, None]"
  obtain r2 b2 where x: "exec_foreign_insert steady_server random_host strict_input cell_host calls_rel ?sl ?m empty_backend = (r2, b2)" by force
  obtain res where "user_oid res = current_user_oid loop_catalog" "touches res empty_backend b2"
    using conjunct1 [OF conjunct2 [OF statements_act_for_one_role [where env = steady_server and cat = loop_catalog and pg = random_host
      and pin = strict_input and h = cell_host and rel = calls_rel and op = CMD_INSERT and m = ?m and sl = ?sl and b = empty_backend
      and ?r2.0 = r2 and ?b2.0 = b2]]] calls_modify x by blast
  moreover have "current_user_oid loop_catalog = 5" by (simp add: loop_catalog_def)
  ultimately show ?thesis using x by (intro exI [of _ ?m] exI [of _ res]) (simp add: calls_modify)
qed

end
